theory Spec2Isabelle
  imports Main "HOL-Library.Word" "HOL-Library.AList" "HOL-Library.Sublist"
begin

unbundle bit_operations_syntax

section \<open>The filesystem under \<^verbatim>\<open>dfget/util/file_util.go\<close>\<close>

text \<open>
  The functions of \<^verbatim>\<open>file_util.go\<close> are thin wrappers over the Go packages
  \<^verbatim>\<open>os\<close>, \<^verbatim>\<open>io\<close>, \<^verbatim>\<open>bufio\<close>, \<^verbatim>\<open>path/filepath\<close> and \<^verbatim>\<open>crypto/md5\<close>. The
  wrappers are translated line by line further down; this section fixes the model of the
  operating system they run on.

  \<^item> The filesystem is a tree whose root is a directory. A node is a regular file, a
    directory with named children, or a special file (a socket: neither regular nor a
    directory).
  \<^item> A path is a list of components, relative or absolute; \<^verbatim>\<open>Rel []\<close> is the path
    \<^verbatim>\<open>.\<close> and \<^verbatim>\<open>Abs []\<close> is \<^verbatim>\<open>/\<close>. The model is that of paths in cleaned form,
    which \<open>valid_path\<close> singles out: no component is empty, \<^verbatim>\<open>.\<close> or \<^verbatim>\<open>..\<close>, or
    holds a separator or a NUL, and the lengths are within the limits of the kernel. On
    such a path \<^verbatim>\<open>filepath.Dir\<close> drops the last component and the kernel walks the
    components one by one. The working directory of the process is the root directory, so
    a relative and an absolute path with the same components name the same file. Symbolic
    and hard links are not modelled.
  \<^item> A regular file carries its bytes, its permission bits and an optional fault offset:
    bytes at or beyond that offset cannot be read (the device reports \<^verbatim>\<open>EIO\<close>). A
    directory carries its permission bits. The process owns every file and is not root,
    so the owner bits decide access: a directory is walked through with its search bit,
    and an entry is added to it or removed from it with its write bit.
  \<^item> The filesystem has a umask, which is cleared from the mode of every file and
    directory that is created, and a number of free bytes: a write that needs more fails
    with \<^verbatim>\<open>ENOSPC\<close> after the bytes that fit. It also keeps the sizes of the writes
    it has served, oldest first.
  \<^item> An open file (\<^verbatim>\<open>*os.File\<close>) is the components of the path it was opened at,
    the open flags and the offset. No function of \<^verbatim>\<open>file_util.go\<close> renames or removes
    a file, or changes the mode of a directory, while it holds a file open, so the path
    identifies the open file.
\<close>

type_synonym byte = "8 word"
type_synonym FileMode = "32 word"

datatype errno =
    ENOENT | ENOTDIR | EISDIR | EACCES | EEXIST | ENOTEMPTY | EINVAL | EIO | ENXIO | EBUSY | EBADF
  | ENOSPC

record regfile =
  content :: "byte list"
  perm :: FileMode
  fault :: "nat option"

datatype node = Reg regfile | Special | Dir FileMode "(string \<times> node) list"

datatype path = Rel "string list" | Abs "string list"

record filesystem =
  root_perm :: FileMode
  root_entries :: "(string \<times> node) list"
  umask :: FileMode
  free_space :: nat
  written :: "nat list"

text \<open>
  The errors of the Go code. The first six are the \<^verbatim>\<open>fmt.Errorf\<close> messages of
  \<^verbatim>\<open>file_util.go\<close>, named as the specification names them:
  \<^verbatim>\<open>"delete file:%s error, file not exist"\<close> is \<open>NotExist\<close>,
  \<^verbatim>\<open>"delete file:%s error, is a directory instead of a file"\<close> is \<open>IsDirectory\<close>,
  \<^verbatim>\<open>"create dir:%s error, not a directory"\<close> is \<open>NotADirectory\<close>,
  \<^verbatim>\<open>"... error, is not a regular file"\<close> is \<open>NotRegularFile\<close>,
  \<^verbatim>\<open>"copy file:%s error, dst file already exists"\<close> is \<open>DestinationExists\<close>,
  \<^verbatim>\<open>"... md5 of srouce file doesn't match against the given md5 value"\<close> is
  \<open>DigestMismatch\<close>. \<open>OSError\<close> is an error of package \<^verbatim>\<open>os\<close>, \<open>EOF\<close> is
  \<^verbatim>\<open>io.EOF\<close> and \<open>ErrNoProgress\<close> is \<^verbatim>\<open>io.ErrNoProgress\<close>. A Go value of type
  \<^verbatim>\<open>error\<close> is an \<open>error option\<close>, \<^verbatim>\<open>nil\<close> being \<open>None\<close>.
\<close>

datatype error =
    NotExist | IsDirectory | NotADirectory | NotRegularFile | DestinationExists | DigestMismatch
  | OSError errno | EOF | ErrNoProgress

record FileInfo =
  fi_IsDir :: bool
  fi_IsRegular :: bool
  fi_Perm :: FileMode
  fi_Size :: nat

record File =
  fpath :: "string list"
  fflag :: int
  foff :: nat

subsection \<open>Path lookup and tree update\<close>

definition root :: "filesystem \<Rightarrow> node" where
  "root fs = Dir (root_perm fs) (root_entries fs)"

definition set_root :: "filesystem \<Rightarrow> node \<Rightarrow> filesystem" where
  "set_root fs t =
     (case t of Dir m es \<Rightarrow> fs\<lparr>root_perm := m, root_entries := es\<rparr> | _ \<Rightarrow> fs)"

fun components :: "path \<Rightarrow> string list" where
  "components (Rel cs) = cs"
| "components (Abs cs) = cs"

text \<open>
  The paths in cleaned form that the kernel accepts: a component is a name of at most 255
  bytes other than \<^verbatim>\<open>.\<close> and \<^verbatim>\<open>..\<close>, without separator and NUL, and the path with
  its separators is shorter than 4096 bytes.
\<close>

definition valid_name :: "string \<Rightarrow> bool" where
  "valid_name c =
     (c \<noteq> [] \<and> c \<noteq> ''.'' \<and> c \<noteq> ''..'' \<and> CHR ''/'' \<notin> set c \<and> CHR 0x00 \<notin> set c
      \<and> length c \<le> 255)"

definition valid_path :: "path \<Rightarrow> bool" where
  "valid_path p =
     (list_all valid_name (components p)
      \<and> sum_list (map length (components p)) + length (components p) < 4096)"

text \<open>\<^verbatim>\<open>filepath.Dir\<close> on cleaned paths: all but the last component.\<close>

fun filepath_Dir :: "path \<Rightarrow> path" where
  "filepath_Dir (Rel cs) = Rel (butlast cs)"
| "filepath_Dir (Abs cs) = Abs (butlast cs)"

text \<open>The owner's permission bits: read \<^verbatim>\<open>0400\<close>, write \<^verbatim>\<open>0200\<close>, search \<^verbatim>\<open>0100\<close>.\<close>

definition owner_can_read :: "FileMode \<Rightarrow> bool" where
  "owner_can_read m = (m AND 0x100 \<noteq> 0)"

definition owner_can_write :: "FileMode \<Rightarrow> bool" where
  "owner_can_write m = (m AND 0x80 \<noteq> 0)"

definition owner_can_search :: "FileMode \<Rightarrow> bool" where
  "owner_can_search m = (m AND 0x40 \<noteq> 0)"

text \<open>
  The kernel's path walk: every component but the last must name a directory, and every
  directory that is walked through must grant search permission.
\<close>

fun lookup :: "node \<Rightarrow> string list \<Rightarrow> errno + node" where
  "lookup n [] = Inr n"
| "lookup (Dir m es) (c # cs) =
     (if \<not> owner_can_search m then Inl EACCES
      else (case map_of es c of None \<Rightarrow> Inl ENOENT | Some ch \<Rightarrow> lookup ch cs))"
| "lookup (Reg f) (c # cs) = Inl ENOTDIR"
| "lookup Special (c # cs) = Inl ENOTDIR"

text \<open>
  \<open>alter t p v\<close> sets (\<open>v = Some n\<close>) or removes (\<open>v = None\<close>) the directory entry
  named by \<open>p\<close>, walking to the directory of the entry as \<open>lookup\<close> does. The root
  has no entry. Whether the directory may be written is checked by the callers.
\<close>

fun alter :: "node \<Rightarrow> string list \<Rightarrow> node option \<Rightarrow> errno + node" where
  "alter t [] v = Inl EBUSY"
| "alter (Dir m es) [c] v =
     (if \<not> owner_can_search m then Inl EACCES
      else Inr (Dir m (case v of None \<Rightarrow> AList.delete c es | Some n \<Rightarrow> AList.update c n es)))"
| "alter (Dir m es) (c # cs) v =
     (if \<not> owner_can_search m then Inl EACCES
      else
        (case map_of es c of
           None \<Rightarrow> Inl ENOENT
         | Some ch \<Rightarrow>
             (case alter ch cs v of
                Inl e \<Rightarrow> Inl e
              | Inr ch' \<Rightarrow> Inr (Dir m (AList.update c ch' es)))))"
| "alter (Reg f) (c # cs) v = Inl ENOTDIR"
| "alter Special (c # cs) v = Inl ENOTDIR"

text \<open>
  \<open>check_parent t p\<close> is the error of adding or removing the entry \<open>p\<close>, if any: the
  directory of the entry must exist and grant write permission.
\<close>

definition check_parent :: "node \<Rightarrow> string list \<Rightarrow> errno option" where
  "check_parent t p =
     (case lookup t (butlast p) of
        Inl e \<Rightarrow> Some e
      | Inr (Dir m es) \<Rightarrow> if owner_can_write m then None else Some EACCES
      | Inr _ \<Rightarrow> Some ENOTDIR)"

text \<open>
  The effect of \<^verbatim>\<open>os.MkdirAll\<close>: walk down the path and create every missing directory
  with the given mode. A directory on the way that cannot be searched, or a directory
  that lacks a component and cannot be written, is \<^verbatim>\<open>EACCES\<close>; a component that exists
  and is not a directory is \<^verbatim>\<open>ENOTDIR\<close>. The directories created before an error
  stay, so the tree is returned with the error.
\<close>

fun mkdir_all :: "node \<Rightarrow> string list \<Rightarrow> FileMode \<Rightarrow> errno option \<times> node" where
  "mkdir_all (Dir m es) [] pm = (None, Dir m es)"
| "mkdir_all (Dir m es) (c # cs) pm =
     (if \<not> owner_can_search m then (Some EACCES, Dir m es)
      else
        (case map_of es c of
           Some ch \<Rightarrow>
             (case mkdir_all ch cs pm of (r, ch') \<Rightarrow> (r, Dir m (AList.update c ch' es)))
         | None \<Rightarrow>
             if \<not> owner_can_write m then (Some EACCES, Dir m es)
             else
               (case mkdir_all (Dir pm []) cs pm of
                  (r, ch') \<Rightarrow> (r, Dir m (AList.update c ch' es)))))"
| "mkdir_all (Reg f) cs pm = (Some ENOTDIR, Reg f)"
| "mkdir_all Special cs pm = (Some ENOTDIR, Special)"

fun is_Dir :: "node \<Rightarrow> bool" where
  "is_Dir (Dir m es) = True"
| "is_Dir _ = False"

fun info :: "node \<Rightarrow> FileInfo" where
  "info (Reg f) = \<lparr>fi_IsDir = False, fi_IsRegular = True, fi_Perm = perm f, fi_Size = length (content f)\<rparr>"
| "info Special = \<lparr>fi_IsDir = False, fi_IsRegular = False, fi_Perm = 0, fi_Size = 0\<rparr>"
| "info (Dir m es) = \<lparr>fi_IsDir = True, fi_IsRegular = False, fi_Perm = m, fi_Size = 0\<rparr>"

text \<open>
  What a path names, without the children of a directory: the observation the theorems
  are stated with. \<open>None\<close> when the walk fails.
\<close>

fun shallow :: "node \<Rightarrow> node" where
  "shallow (Dir m es) = Dir m []"
| "shallow n = n"

definition entry :: "node \<Rightarrow> string list \<Rightarrow> node option" where
  "entry t p = (case lookup t p of Inl e \<Rightarrow> None | Inr n \<Rightarrow> Some (shallow n))"

definition entry_at :: "filesystem \<Rightarrow> path \<Rightarrow> node option" where
  "entry_at fs p = entry (root fs) (components p)"

subsection \<open>Package \<^verbatim>\<open>os\<close>\<close>

definition O_RDONLY :: int where "O_RDONLY = 0"
definition O_WRONLY :: int where "O_WRONLY = 1"
definition O_RDWR :: int where "O_RDWR = 2"
definition O_CREATE :: int where "O_CREATE = 0x40"
definition O_TRUNC :: int where "O_TRUNC = 0x200"

text \<open>The octal permissions \<^verbatim>\<open>0755\<close> and \<^verbatim>\<open>0666\<close> of the source.\<close>

definition perm_0755 :: FileMode where "perm_0755 = 493"
definition perm_0666 :: FileMode where "perm_0666 = 438"

definition os_Stat :: "filesystem \<Rightarrow> path \<Rightarrow> errno + FileInfo" where
  "os_Stat fs name =
     (case lookup (root fs) (components name) of Inl e \<Rightarrow> Inl e | Inr n \<Rightarrow> Inr (info n))"

definition os_IsNotExist :: "errno \<Rightarrow> bool" where
  "os_IsNotExist e = (e = ENOENT)"

text \<open>The mode a created file or directory gets: the requested one without the umask.\<close>

definition created_mode :: "filesystem \<Rightarrow> FileMode \<Rightarrow> FileMode" where
  "created_mode fs pm = pm AND NOT (umask fs)"

definition os_MkdirAll :: "filesystem \<Rightarrow> path \<Rightarrow> FileMode \<Rightarrow> error option \<times> filesystem" where
  "os_MkdirAll fs name pm =
     (case mkdir_all (root fs) (components name) (created_mode fs pm) of
        (Some e, t) \<Rightarrow> (Some (OSError e), set_root fs t)
      | (None, t) \<Rightarrow> (None, set_root fs t))"

text \<open>The bytes a node holds on the disk.\<close>

fun disk_size :: "node \<Rightarrow> nat" where
  "disk_size (Reg f) = length (content f)"
| "disk_size _ = 0"

text \<open>
  \<^verbatim>\<open>os.Remove\<close> unlinks a file or removes an empty directory; the directory that
  holds the entry must grant write permission.
\<close>

definition os_Remove :: "filesystem \<Rightarrow> path \<Rightarrow> error option \<times> filesystem" where
  "os_Remove fs name =
     (let p = components name in
      case lookup (root fs) p of
        Inl e \<Rightarrow> (Some (OSError e), fs)
      | Inr n \<Rightarrow>
          if p = [] then (Some (OSError EBUSY), fs)
          else
            (case check_parent (root fs) p of
               Some e \<Rightarrow> (Some (OSError e), fs)
             | None \<Rightarrow>
                 if (case n of Dir m es \<Rightarrow> es \<noteq> [] | _ \<Rightarrow> False)
                   then (Some (OSError ENOTEMPTY), fs)
                 else
                   (case alter (root fs) p None of
                      Inl e \<Rightarrow> (Some (OSError e), fs)
                    | Inr t \<Rightarrow>
                        (None, (set_root fs t)\<lparr>free_space := free_space fs + disk_size n\<rparr>))))"

text \<open>
  \<^verbatim>\<open>os.Rename\<close>. Go first refuses a new path that names a directory, with
  \<^verbatim>\<open>EEXIST\<close>; otherwise it is \<^verbatim>\<open>rename(2)\<close>: the entry moves from the directory of
  the old path to the directory of the new one, both of which must grant write
  permission, and a file that the new path names is replaced.
\<close>

definition move_entry :: "filesystem \<Rightarrow> string list \<Rightarrow> string list \<Rightarrow> node \<Rightarrow> error option \<times> filesystem" where
  "move_entry fs old new n =
     (case check_parent (root fs) old of
        Some e \<Rightarrow> (Some (OSError e), fs)
      | None \<Rightarrow>
          (case check_parent (root fs) new of
             Some e \<Rightarrow> (Some (OSError e), fs)
           | None \<Rightarrow>
               (case alter (root fs) old None of
                  Inl e \<Rightarrow> (Some (OSError e), fs)
                | Inr t1 \<Rightarrow>
                    (case alter t1 new (Some n) of
                       Inl e \<Rightarrow> (Some (OSError e), fs)
                     | Inr t2 \<Rightarrow>
                         (None,
                          (set_root fs t2)
                            \<lparr>free_space := free_space fs +
                               (case lookup (root fs) new of Inl e \<Rightarrow> 0 | Inr r \<Rightarrow> disk_size r)\<rparr>)))))"

definition os_Rename :: "filesystem \<Rightarrow> path \<Rightarrow> path \<Rightarrow> error option \<times> filesystem" where
  "os_Rename fs oldpath newpath =
     (let old = components oldpath; new = components newpath in
      case lookup (root fs) old of
        Inl e \<Rightarrow> (Some (OSError e), fs)
      | Inr n \<Rightarrow>
          (case lookup (root fs) new of
             Inr (Dir m es) \<Rightarrow> (Some (OSError EEXIST), fs)
           | Inr _ \<Rightarrow>
               if old = new then (None, fs)
               else if is_Dir n then (Some (OSError ENOTDIR), fs)
               else move_entry fs old new n
           | Inl e \<Rightarrow>
               if e \<noteq> ENOENT then (Some (OSError e), fs)
               else if is_Dir n \<and> prefix old new then (Some (OSError EINVAL), fs)
               else if is_Dir n \<and> butlast old \<noteq> butlast new
                       \<and> \<not> owner_can_write (fi_Perm (info n))
                 then (Some (OSError EACCES), fs)
               else move_entry fs old new n))"

definition wants_read :: "int \<Rightarrow> bool" where
  "wants_read flag = (flag AND 3 \<noteq> O_WRONLY)"

definition wants_write :: "int \<Rightarrow> bool" where
  "wants_write flag = (flag AND 3 \<noteq> O_RDONLY)"

definition put_node :: "filesystem \<Rightarrow> string list \<Rightarrow> node \<Rightarrow> File \<Rightarrow> (error + File) \<times> filesystem" where
  "put_node fs p n h =
     (case alter (root fs) p (Some n) of
        Inl e \<Rightarrow> (Inl (OSError e), fs)
      | Inr t \<Rightarrow> (Inr h, set_root fs t))"

text \<open>
  \<^verbatim>\<open>os.OpenFile\<close> is \<^verbatim>\<open>open(2)\<close>: access is checked against the owner bits,
  \<^verbatim>\<open>O_TRUNC\<close> empties a file opened for writing, \<^verbatim>\<open>O_CREATE\<close> creates a missing file
  in an existing directory that grants write permission, with the requested mode less
  the umask. The file just created is open whatever its mode is.
\<close>

definition os_OpenFile :: "filesystem \<Rightarrow> path \<Rightarrow> int \<Rightarrow> FileMode \<Rightarrow> (error + File) \<times> filesystem" where
  "os_OpenFile fs name flag pm =
     (let p = components name; h = \<lparr>fpath = p, fflag = flag, foff = 0\<rparr> in
      case lookup (root fs) p of
        Inr (Reg f) \<Rightarrow>
          if wants_read flag \<and> \<not> owner_can_read (perm f) then (Inl (OSError EACCES), fs)
          else if wants_write flag \<and> \<not> owner_can_write (perm f) then (Inl (OSError EACCES), fs)
          else if wants_write flag \<and> flag AND O_TRUNC \<noteq> 0
            then put_node (fs\<lparr>free_space := free_space fs + length (content f)\<rparr>) p
                   (Reg (f\<lparr>content := []\<rparr>)) h
          else (Inr h, fs)
      | Inr (Dir m es) \<Rightarrow>
          if wants_write flag then (Inl (OSError EISDIR), fs)
          else if \<not> owner_can_read m then (Inl (OSError EACCES), fs)
          else (Inr h, fs)
      | Inr Special \<Rightarrow> (Inl (OSError ENXIO), fs)
      | Inl e \<Rightarrow>
          if e = ENOENT \<and> flag AND O_CREATE \<noteq> 0 then
            (case check_parent (root fs) p of
               Some e' \<Rightarrow> (Inl (OSError e'), fs)
             | None \<Rightarrow>
                 put_node fs p (Reg \<lparr>content = [], perm = created_mode fs pm, fault = None\<rparr>) h)
          else (Inl (OSError e), fs))"

text \<open>
  \<^verbatim>\<open>(*os.File).Read\<close> with a buffer of \<open>n\<close> bytes: the bytes read, the error and the
  file with its offset advanced. At the end of the file it returns no byte and
  \<^verbatim>\<open>io.EOF\<close>; at the fault offset, no byte and \<^verbatim>\<open>EIO\<close>.
\<close>

definition readable_part :: "regfile \<Rightarrow> byte list" where
  "readable_part f = (case fault f of None \<Rightarrow> content f | Some k \<Rightarrow> take k (content f))"

definition os_Read :: "filesystem \<Rightarrow> File \<Rightarrow> nat \<Rightarrow> byte list \<times> error option \<times> File" where
  "os_Read fs h n =
     (case lookup (root fs) (fpath h) of
        Inr (Reg f) \<Rightarrow>
          if \<not> wants_read (fflag h) then ([], Some (OSError EBADF), h)
          else if n = 0 then ([], None, h)
          else
            (let data = take n (drop (foff h) (readable_part f)) in
             if data \<noteq> [] then (data, None, h\<lparr>foff := foff h + length data\<rparr>)
             else if length (readable_part f) < length (content f) then ([], Some (OSError EIO), h)
             else ([], Some EOF, h))
      | Inr (Dir m es) \<Rightarrow> ([], Some (OSError EISDIR), h)
      | Inr Special \<Rightarrow> ([], Some (OSError EBADF), h)
      | Inl e \<Rightarrow> ([], Some (OSError EBADF), h))"

text \<open>
  \<^verbatim>\<open>(*os.File).Write\<close>: the bytes go to the file at the offset, which advances. Bytes
  that make the file longer are taken from the free space; when it does not suffice, the
  bytes that fit are written and the error is \<^verbatim>\<open>ENOSPC\<close>.
\<close>

definition os_Write :: "filesystem \<Rightarrow> File \<Rightarrow> byte list \<Rightarrow> error option \<times> filesystem \<times> File" where
  "os_Write fs h data =
     (case lookup (root fs) (fpath h) of
        Inr (Reg f) \<Rightarrow>
          if \<not> wants_write (fflag h) then (Some (OSError EBADF), fs, h)
          else if data = [] then (None, fs, h)
          else
            (let c = content f;
                 n = min (length data) (free_space fs + length c - foff h);
                 c' = take (foff h) c @ replicate (foff h - length c) 0 @ take n data
                        @ drop (foff h + n) c in
             if n = 0 then (Some (OSError ENOSPC), fs, h)
             else
               (case alter (root fs) (fpath h) (Some (Reg (f\<lparr>content := c'\<rparr>))) of
                  Inl e \<Rightarrow> (Some (OSError e), fs, h)
                | Inr t \<Rightarrow>
                    (if n < length data then Some (OSError ENOSPC) else None,
                     (set_root fs t)
                       \<lparr>free_space := free_space fs + length c - length c',
                        written := written fs @ [n]\<rparr>,
                     h\<lparr>foff := foff h + n\<rparr>)))
      | Inr _ \<Rightarrow> (Some (OSError EBADF), fs, h)
      | Inl e \<Rightarrow> (Some (OSError EBADF), fs, h))"

subsection \<open>Package \<^verbatim>\<open>crypto/md5\<close> and the \<^verbatim>\<open>%x\<close> verb\<close>

text \<open>
  MD5 as RFC 1321 defines it, which \<^verbatim>\<open>crypto/md5\<close> implements: the message is padded
  to a multiple of 64 bytes and consumed in blocks of sixteen little-endian 32-bit words,
  each block in 64 steps on four 32-bit registers.
\<close>

type_synonym uint32 = "32 word"

definition md5_K :: "uint32 list" where
  "md5_K =
   [0xd76aa478, 0xe8c7b756, 0x242070db, 0xc1bdceee,
    0xf57c0faf, 0x4787c62a, 0xa8304613, 0xfd469501,
    0x698098d8, 0x8b44f7af, 0xffff5bb1, 0x895cd7be,
    0x6b901122, 0xfd987193, 0xa679438e, 0x49b40821,
    0xf61e2562, 0xc040b340, 0x265e5a51, 0xe9b6c7aa,
    0xd62f105d, 0x02441453, 0xd8a1e681, 0xe7d3fbc8,
    0x21e1cde6, 0xc33707d6, 0xf4d50d87, 0x455a14ed,
    0xa9e3e905, 0xfcefa3f8, 0x676f02d9, 0x8d2a4c8a,
    0xfffa3942, 0x8771f681, 0x6d9d6122, 0xfde5380c,
    0xa4beea44, 0x4bdecfa9, 0xf6bb4b60, 0xbebfbc70,
    0x289b7ec6, 0xeaa127fa, 0xd4ef3085, 0x04881d05,
    0xd9d4d039, 0xe6db99e5, 0x1fa27cf8, 0xc4ac5665,
    0xf4292244, 0x432aff97, 0xab9423a7, 0xfc93a039,
    0x655b59c3, 0x8f0ccc92, 0xffeff47d, 0x85845dd1,
    0x6fa87e4f, 0xfe2ce6e0, 0xa3014314, 0x4e0811a1,
    0xf7537e82, 0xbd3af235, 0x2ad7d2bb, 0xeb86d391]"

definition md5_S :: "nat list" where
  "md5_S =
   [7, 12, 17, 22, 7, 12, 17, 22, 7, 12, 17, 22, 7, 12, 17, 22,
    5, 9, 14, 20, 5, 9, 14, 20, 5, 9, 14, 20, 5, 9, 14, 20,
    4, 11, 16, 23, 4, 11, 16, 23, 4, 11, 16, 23, 4, 11, 16, 23,
    6, 10, 15, 21, 6, 10, 15, 21, 6, 10, 15, 21, 6, 10, 15, 21]"

definition rotl32 :: "uint32 \<Rightarrow> nat \<Rightarrow> uint32" where
  "rotl32 x c = push_bit c x OR drop_bit (32 - c) x"

definition md5_mix :: "nat \<Rightarrow> uint32 \<Rightarrow> uint32 \<Rightarrow> uint32 \<Rightarrow> uint32" where
  "md5_mix i b c d =
     (if i < 16 then (b AND c) OR (NOT b AND d)
      else if i < 32 then (d AND b) OR (NOT d AND c)
      else if i < 48 then b XOR c XOR d
      else c XOR (b OR NOT d))"

definition md5_idx :: "nat \<Rightarrow> nat" where
  "md5_idx i =
     (if i < 16 then i
      else if i < 32 then (5 * i + 1) mod 16
      else if i < 48 then (3 * i + 5) mod 16
      else (7 * i) mod 16)"

fun md5_step :: "uint32 list \<Rightarrow> nat \<Rightarrow> uint32 \<times> uint32 \<times> uint32 \<times> uint32 \<Rightarrow> uint32 \<times> uint32 \<times> uint32 \<times> uint32" where
  "md5_step M i (a, b, c, d) =
     (d, b + rotl32 (md5_mix i b c d + a + md5_K ! i + M ! md5_idx i) (md5_S ! i), b, c)"

function md5_rounds :: "uint32 list \<Rightarrow> nat \<Rightarrow> uint32 \<times> uint32 \<times> uint32 \<times> uint32 \<Rightarrow> uint32 \<times> uint32 \<times> uint32 \<times> uint32" where
  "md5_rounds M i st = (if i < 64 then md5_rounds M (i + 1) (md5_step M i st) else st)"
  by pat_completeness auto
termination
  by (relation "measure (\<lambda>(M, i, st). 64 - i)") auto

declare md5_rounds.simps [simp del]

fun words_of :: "byte list \<Rightarrow> uint32 list" where
  "words_of (b0 # b1 # b2 # b3 # rest) =
     (ucast b0 OR push_bit 8 (ucast b1) OR push_bit 16 (ucast b2) OR push_bit 24 (ucast b3))
       # words_of rest"
| "words_of _ = []"

fun md5_block :: "uint32 \<times> uint32 \<times> uint32 \<times> uint32 \<Rightarrow> byte list \<Rightarrow> uint32 \<times> uint32 \<times> uint32 \<times> uint32" where
  "md5_block (a0, b0, c0, d0) blk =
     (case md5_rounds (words_of blk) 0 (a0, b0, c0, d0) of
        (a, b, c, d) \<Rightarrow> (a0 + a, b0 + b, c0 + c, d0 + d))"

definition put_uint32 :: "uint32 \<Rightarrow> byte list" where
  "put_uint32 w = [ucast w, ucast (drop_bit 8 w), ucast (drop_bit 16 w), ucast (drop_bit 24 w)]"

definition put_uint64 :: "64 word \<Rightarrow> byte list" where
  "put_uint64 w =
     [ucast w, ucast (drop_bit 8 w), ucast (drop_bit 16 w), ucast (drop_bit 24 w),
      ucast (drop_bit 32 w), ucast (drop_bit 40 w), ucast (drop_bit 48 w), ucast (drop_bit 56 w)]"

definition md5_pad :: "byte list \<Rightarrow> byte list" where
  "md5_pad msg =
     msg @ [0x80] @ replicate ((119 - length msg mod 64) mod 64) 0
       @ put_uint64 (push_bit 3 (of_nat (length msg)))"

function md5_blocks :: "uint32 \<times> uint32 \<times> uint32 \<times> uint32 \<Rightarrow> byte list \<Rightarrow> uint32 \<times> uint32 \<times> uint32 \<times> uint32" where
  "md5_blocks st bs =
     (if length bs < 64 then st else md5_blocks (md5_block st (take 64 bs)) (drop 64 bs))"
  by pat_completeness auto
termination
  by (relation "measure (\<lambda>(st, bs). length bs)") auto

declare md5_blocks.simps [simp del]

definition md5 :: "byte list \<Rightarrow> byte list" where
  "md5 msg =
     (case md5_blocks (0x67452301, 0xefcdab89, 0x98badcfe, 0x10325476) (md5_pad msg) of
        (a, b, c, d) \<Rightarrow> put_uint32 a @ put_uint32 b @ put_uint32 c @ put_uint32 d)"

text \<open>\<^verbatim>\<open>fmt.Sprintf("%x", bytes)\<close>: two lowercase hexadecimal digits for each byte.\<close>

definition hexdigit :: "nat \<Rightarrow> char" where
  "hexdigit n = ''0123456789abcdef'' ! n"

definition hex :: "byte list \<Rightarrow> string" where
  "hex bs = concat (map (\<lambda>b. [hexdigit (unat b div 16), hexdigit (unat b mod 16)]) bs)"

section \<open>\<^verbatim>\<open>dfget/util/file_util.go\<close>\<close>

text \<open>
  Each function takes the filesystem and returns what the Go function returns, with the
  filesystem it leaves where it can change it. A deferred \<^verbatim>\<open>Close\<close> changes nothing
  in the model and is left out. \<^verbatim>\<open>Link\<close> is not translated: hard links are outside
  the model.
\<close>

definition BufferSize :: nat where
  "BufferSize = 8 * 1024 * 1024"

definition PathExist :: "filesystem \<Rightarrow> path \<Rightarrow> bool" where
  "PathExist fs name = (case os_Stat fs name of Inl err \<Rightarrow> False | Inr f \<Rightarrow> True)"

definition IsDir :: "filesystem \<Rightarrow> path \<Rightarrow> bool" where
  "IsDir fs name = (case os_Stat fs name of Inl e \<Rightarrow> False | Inr f \<Rightarrow> fi_IsDir f)"

definition IsRegularFile :: "filesystem \<Rightarrow> path \<Rightarrow> bool" where
  "IsRegularFile fs name = (case os_Stat fs name of Inl e \<Rightarrow> False | Inr f \<Rightarrow> fi_IsRegular f)"

definition CreateDirectory :: "filesystem \<Rightarrow> path \<Rightarrow> error option \<times> filesystem" where
  "CreateDirectory fs dirPath =
     (case os_Stat fs dirPath of
        Inl e \<Rightarrow>
          if os_IsNotExist e then os_MkdirAll fs dirPath perm_0755
          else (Some (OSError e), fs)
      | Inr f \<Rightarrow>
          if \<not> fi_IsDir f then (Some NotADirectory, fs)
          else (None, fs))"

definition DeleteFile :: "filesystem \<Rightarrow> path \<Rightarrow> error option \<times> filesystem" where
  "DeleteFile fs filePath =
     (if \<not> PathExist fs filePath then (Some NotExist, fs)
      else if IsDir fs filePath then (Some IsDirectory, fs)
      else os_Remove fs filePath)"

text \<open>
  The \<^verbatim>\<open>range\<close> loop of \<^verbatim>\<open>DeleteFiles\<close>: on an error of \<^verbatim>\<open>DeleteFile\<close> it
  continues with the next path. The function returns nothing.
\<close>

fun DeleteFiles_loop :: "filesystem \<Rightarrow> path list \<Rightarrow> filesystem" where
  "DeleteFiles_loop fs [] = fs"
| "DeleteFiles_loop fs (f # rest) =
     (case DeleteFile fs f of
        (Some err, fs1) \<Rightarrow> DeleteFiles_loop fs1 rest
      | (None, fs1) \<Rightarrow> DeleteFiles_loop fs1 rest)"

definition DeleteFiles :: "filesystem \<Rightarrow> path list \<Rightarrow> filesystem" where
  "DeleteFiles fs filePaths =
     (if length filePaths > 0 then DeleteFiles_loop fs filePaths else fs)"

definition OpenFile :: "filesystem \<Rightarrow> path \<Rightarrow> int \<Rightarrow> FileMode \<Rightarrow> (error + File) \<times> filesystem" where
  "OpenFile fs name flag pm =
     (if PathExist fs name then os_OpenFile fs name flag pm
      else
        (let pathDir = filepath_Dir name in
         if pathDir = Rel [] then os_OpenFile fs name flag pm
         else
           (case CreateDirectory fs pathDir of
              (Some err, fs1) \<Rightarrow> (Inl err, fs1)
            | (None, fs1) \<Rightarrow> os_OpenFile fs1 name flag pm)))"

text \<open>
  The read/write loop of \<^verbatim>\<open>CopyFile\<close>. Nothing bounds the number of its iterations
  for arbitrary open files (reading the file that is being written to need not end), so
  the loop is a partial function: \<open>None\<close> is a loop that does not return.
\<close>

partial_function (option) CopyFile_loop :: "filesystem \<Rightarrow> File \<Rightarrow> File \<Rightarrow> (error option \<times> filesystem) option" where
  "CopyFile_loop fs s d =
     (case os_Read fs s BufferSize of
        (buf, err, s') \<Rightarrow>
          if err \<noteq> None \<and> err \<noteq> Some EOF then Some (err, fs)
          else if length buf = 0 \<or> err = Some EOF then Some (None, fs)
          else
            (case os_Write fs d buf of
               (werr, fs', d') \<Rightarrow>
                 if werr \<noteq> None then Some (werr, fs')
                 else CopyFile_loop fs' s' d'))"

definition CopyFile :: "filesystem \<Rightarrow> path \<Rightarrow> path \<Rightarrow> (error option \<times> filesystem) option" where
  "CopyFile fs src dst =
     (if \<not> IsRegularFile fs src then Some (Some NotRegularFile, fs)
      else
        (case OpenFile fs src O_RDONLY perm_0666 of
           (Inl err, fs1) \<Rightarrow> Some (Some err, fs1)
         | (Inr s, fs1) \<Rightarrow>
             if PathExist fs1 dst then Some (Some DestinationExists, fs1)
             else
               (case OpenFile fs1 dst (O_WRONLY OR O_TRUNC OR O_CREATE) perm_0755 of
                  (Inl err, fs2) \<Rightarrow> Some (Some err, fs2)
                | (Inr d, fs2) \<Rightarrow> CopyFile_loop fs2 s d)))"

definition MoveFile :: "filesystem \<Rightarrow> path \<Rightarrow> path \<Rightarrow> error option \<times> filesystem" where
  "MoveFile fs src dst =
     (if \<not> IsRegularFile fs src then (Some NotRegularFile, fs)
      else if PathExist fs dst \<and> \<not> IsDir fs dst then
        (case DeleteFile fs dst of
           (Some err, fs1) \<Rightarrow> (Some err, fs1)
         | (None, fs1) \<Rightarrow> os_Rename fs1 src dst)
      else os_Rename fs src dst)"

text \<open>
  \<^verbatim>\<open>io.Copy(h, r)\<close> in \<^verbatim>\<open>Md5Sum\<close>, with \<open>r\<close> a \<^verbatim>\<open>bufio\<close> reader of
  \<open>BufferSize\<close> bytes on the file and \<open>h\<close> the hash: the reader fills its buffer from
  the file and hands the bytes to the hash until the file reports an error; \<^verbatim>\<open>io.EOF\<close>
  ends the copy without error, and a read that returns neither bytes nor an error is
  \<^verbatim>\<open>io.ErrNoProgress\<close>. The hash is the list of the bytes written to it so far.
\<close>

definition remaining :: "filesystem \<Rightarrow> File \<Rightarrow> nat" where
  "remaining fs r =
     (case lookup (root fs) (fpath r) of
        Inr (Reg f) \<Rightarrow> length (readable_part f) - foff r
      | _ \<Rightarrow> 0)"

function io_Copy :: "filesystem \<Rightarrow> File \<Rightarrow> byte list \<Rightarrow> error + byte list" where
  "io_Copy fs r h =
     (case os_Read fs r BufferSize of
        (buf, err, r') \<Rightarrow>
          (case err of
             None \<Rightarrow> if buf = [] then Inl ErrNoProgress else io_Copy fs r' (h @ buf)
           | Some e \<Rightarrow> if e = EOF then Inr (h @ buf) else Inl e))"
  by pat_completeness auto
termination
  apply (relation "measure (\<lambda>(fs, r, h). remaining fs r)")
   apply simp
  apply (auto simp: os_Read_def remaining_def Let_def split: sum.splits node.splits if_splits)
  done

declare io_Copy.simps [simp del]

definition Md5Sum :: "filesystem \<Rightarrow> path \<Rightarrow> string \<times> filesystem" where
  "Md5Sum fs name =
     (if \<not> IsRegularFile fs name then ('''', fs)
      else
        (case OpenFile fs name O_RDONLY perm_0666 of
           (Inl err, fs1) \<Rightarrow> ('''', fs1)
         | (Inr f, fs1) \<Rightarrow>
             (case io_Copy fs1 f [] of
                Inl err \<Rightarrow> ('''', fs1)
              | Inr h \<Rightarrow> (hex (md5 h), fs1))))"

definition MoveFileAfterCheckMd5 :: "filesystem \<Rightarrow> path \<Rightarrow> path \<Rightarrow> string \<Rightarrow> error option \<times> filesystem" where
  "MoveFileAfterCheckMd5 fs src dst md5' =
     (if \<not> IsRegularFile fs src then (Some NotRegularFile, fs)
      else
        (case Md5Sum fs src of
           (m, fs1) \<Rightarrow>
             if m \<noteq> md5' then (Some DigestMismatch, fs1)
             else MoveFile fs1 src dst))"

section \<open>Auxiliary notions and an example filesystem\<close>

text \<open>A node below which the path walk finds nothing: a file, or an empty directory.\<close>

fun leaf :: "node \<Rightarrow> bool" where
  "leaf (Dir m es) = (es = [])"
| "leaf _ = True"

text \<open>A regular file is faulty when a read error hides some of its bytes.\<close>

definition faulty :: "regfile \<Rightarrow> bool" where
  "faulty f = (length (readable_part f) < length (content f))"

text \<open>The flags \<^verbatim>\<open>CopyFile\<close> opens the destination with.\<close>

definition copy_flags :: int where
  "copy_flags = O_WRONLY OR O_TRUNC OR O_CREATE"

text \<open>A directory that exists and grants the owner write permission.\<close>

definition dir_writable :: "filesystem \<Rightarrow> path \<Rightarrow> bool" where
  "dir_writable fs d =
     (case entry_at fs d of Some (Dir m es) \<Rightarrow> owner_can_write m | _ \<Rightarrow> False)"

text \<open>
  The directory at which the walk of a missing path stops, the nearest ancestor of the
  path that exists, grants write permission: a directory can be made there.
\<close>

fun stops_writable :: "node \<Rightarrow> string list \<Rightarrow> bool" where
  "stops_writable (Dir m es) (c # cs) =
     (case map_of es c of None \<Rightarrow> owner_can_write m | Some ch \<Rightarrow> stops_writable ch cs)"
| "stops_writable n cs = False"

definition nearest_dir_writable :: "filesystem \<Rightarrow> path \<Rightarrow> bool" where
  "nearest_dir_writable fs p = stops_writable (root fs) (components p)"

text \<open>
  The umask leaves the owner the write and search bits of a directory made with mode
  \<^verbatim>\<open>0755\<close>, so that entries can be made in it.
\<close>

definition umask_permits :: "filesystem \<Rightarrow> bool" where
  "umask_permits fs =
     (owner_can_write (created_mode fs perm_0755) \<and> owner_can_search (created_mode fs perm_0755))"

text \<open>
  The sizes of the writes that move \<open>n\<close> bytes through a buffer of \<open>b\<close> bytes: full
  buffers, then the rest.
\<close>

definition chunks :: "nat \<Rightarrow> nat \<Rightarrow> nat list" where
  "chunks b n = replicate (n div b) b @ (if n mod b = 0 then [] else [n mod b])"

text \<open>
  The filesystem of the examples, with umask \<^verbatim>\<open>022\<close> and 1000 free bytes: a readable
  file \<^verbatim>\<open>a.txt\<close> holding the bytes of \<^verbatim>\<open>hello\<close> (mode \<^verbatim>\<open>0644\<close>), a directory
  \<^verbatim>\<open>d\<close> with a file \<^verbatim>\<open>d/x\<close>, a socket \<^verbatim>\<open>sock\<close>, a file \<^verbatim>\<open>secret\<close> of mode
  \<^verbatim>\<open>0000\<close>, a file \<^verbatim>\<open>bad\<close> whose bytes from offset 2 on cannot be read, and a
  directory \<^verbatim>\<open>ro\<close> of mode \<^verbatim>\<open>0555\<close> with a file \<^verbatim>\<open>ro/f\<close>.
\<close>

definition example_fs :: filesystem where
  "example_fs =
     \<lparr>root_perm = 493,
      root_entries =
        [(''a.txt'', Reg \<lparr>content = [0x68, 0x65, 0x6c, 0x6c, 0x6f], perm = 420, fault = None\<rparr>),
         (''d'', Dir 493 [(''x'', Reg \<lparr>content = [1, 2, 3], perm = 420, fault = None\<rparr>)]),
         (''sock'', Special),
         (''secret'', Reg \<lparr>content = [7], perm = 0, fault = None\<rparr>),
         (''bad'', Reg \<lparr>content = [1, 2, 3, 4], perm = 420, fault = Some 2\<rparr>),
         (''ro'', Dir 365 [(''f'', Reg \<lparr>content = [9], perm = 420, fault = None\<rparr>)])],
      umask = 18,
      free_space = 1000,
      written = []\<rparr>"

section \<open>The tree operations\<close>

lemma lookup_append:
  "lookup t (p @ q) = (case lookup t p of Inl e \<Rightarrow> Inl e | Inr n \<Rightarrow> lookup n q)"
  by (induction t p rule: lookup.induct) (auto split: option.splits)

lemma lookup_snoc_parent:
  "lookup t (p @ [c]) = Inr n \<Longrightarrow> \<exists>m es. lookup t p = Inr (Dir m es) \<and> map_of es c = Some n"
  by (auto simp: lookup_append split: sum.splits node.splits option.splits if_splits
      elim: lookup.elims)

lemma entry_Nil [simp]: "entry t [] = Some (shallow t)"
  by (simp add: entry_def)

lemma entry_Cons_Dir:
  "entry (Dir m es) (c # cs) =
     (if owner_can_search m then (case map_of es c of None \<Rightarrow> None | Some ch \<Rightarrow> entry ch cs)
      else None)"
  by (simp add: entry_def split: option.splits)

lemma entry_Cons_leaf [simp]:
  "entry (Reg f) (c # cs) = None" "entry Special (c # cs) = None" "entry (Dir m []) (c # cs) = None"
  by (simp_all add: entry_def)

lemma alter_is_Dir: "alter t p v = Inr t' \<Longrightarrow> \<exists>m es es'. t = Dir m es \<and> t' = Dir m es'"
  by (induction t p v rule: alter.induct) (auto split: option.splits sum.splits if_splits)

lemma alter_other:
  "alter t p v = Inr t' \<Longrightarrow> \<not> prefix p q \<Longrightarrow> entry t' q = entry t q"
proof (induction t p v arbitrary: t' q rule: alter.induct)
  case (2 m es c v)
  then show ?case
    by (cases q)
      (auto simp: entry_Cons_Dir AList.update_conv' AList.delete_conv' split: option.splits if_splits)
next
  case (3 m es c c2 cs v)
  then show ?case
    by (cases q)
      (auto simp: entry_Cons_Dir AList.update_conv' split: option.splits sum.splits if_splits)
qed auto

lemma alter_Some_lookup:
  "alter t p (Some n) = Inr t' \<Longrightarrow> lookup t' (p @ q) = lookup n q"
  by (induction t p "Some n" arbitrary: t' rule: alter.induct)
     (auto simp: AList.update_conv' split: option.splits sum.splits if_splits)

lemma alter_None_lookup:
  "alter t p None = Inr t' \<Longrightarrow> lookup t' (p @ q) = Inl ENOENT"
  by (induction t p "None :: node option" arbitrary: t' rule: alter.induct)
     (auto simp: AList.update_conv' AList.delete_conv' split: option.splits sum.splits if_splits)

lemma alter_Cons:
  "cs \<noteq> [] \<Longrightarrow> alter (Dir m es) (c # cs) v =
     (if \<not> owner_can_search m then Inl EACCES
      else
        (case map_of es c of
           None \<Rightarrow> Inl ENOENT
         | Some ch \<Rightarrow>
             (case alter ch cs v of
                Inl e \<Rightarrow> Inl e
              | Inr ch' \<Rightarrow> Inr (Dir m (AList.update c ch' es)))))"
  by (cases cs) auto

lemma alter_ok:
  "lookup t p = Inr (Dir m es) \<Longrightarrow> owner_can_search m \<Longrightarrow> \<exists>t'. alter t (p @ [c]) v = Inr t'"
  by (induction t p arbitrary: m es rule: lookup.induct)
    (fastforce split: option.splits sum.splits if_splits simp: alter_Cons)+

lemma lookup_snoc_Inr:
  "lookup t (p @ [c]) = Inr n \<Longrightarrow>
   \<exists>m es. lookup t p = Inr (Dir m es) \<and> owner_can_search m \<and> map_of es c = Some n"
  by (auto simp: lookup_append split: sum.splits node.splits option.splits if_splits
      elim: lookup.elims)

lemma lookup_snoc_ENOENT:
  "lookup t (p @ [c]) = Inl ENOENT \<Longrightarrow>
   lookup t p = Inl ENOENT \<or>
   (\<exists>m es. lookup t p = Inr (Dir m es) \<and> owner_can_search m \<and> map_of es c = None)"
  by (auto simp: lookup_append split: sum.splits node.splits option.splits if_splits
      elim: lookup.elims)

lemma lookup_Inr_parent:
  "lookup t (p @ [c]) = Inr n \<Longrightarrow> \<exists>t'. alter t (p @ [c]) v = Inr t'"
  using lookup_snoc_Inr alter_ok by blast

subsection \<open>Making directories\<close>

lemma mkdir_all_kind:
  "mkdir_all t p pm = (r, t') \<Longrightarrow> t = Dir m es \<Longrightarrow> \<exists>es'. t' = Dir m es'"
  by (induction t p pm arbitrary: r t' m es rule: mkdir_all.induct)
    (auto split: option.splits prod.splits if_splits)

lemma mkdir_all_fresh:
  "owner_can_write pm \<Longrightarrow> owner_can_search pm \<Longrightarrow> fst (mkdir_all (Dir pm []) cs pm) = None"
  by (induction cs) (auto split: prod.splits)

lemma mkdir_all_ok:
  "lookup t p = Inl ENOENT \<Longrightarrow> stops_writable t p \<Longrightarrow> owner_can_write pm \<Longrightarrow>
   owner_can_search pm \<Longrightarrow> fst (mkdir_all t p pm) = None"
proof (induction t p rule: lookup.induct)
  case (2 m es c cs)
  then show ?case
    using mkdir_all_fresh [of pm cs]
    by (auto split: option.splits prod.splits if_splits)
qed auto

lemma mkdir_all_denied:
  "lookup t p = Inl ENOENT \<Longrightarrow> \<not> stops_writable t p \<Longrightarrow> mkdir_all t p pm = (Some EACCES, t)"
proof (induction t p rule: lookup.induct)
  case (2 m es c cs)
  then show ?case
    by (auto split: option.splits prod.splits if_splits simp: AList.update_triv)
qed auto

lemma mkdir_all_entry:
  "mkdir_all t p pm = (None, t') \<Longrightarrow>
   entry t' q = (if prefix q p \<and> entry t q = None then Some (Dir pm []) else entry t q)"
proof (induction t p pm arbitrary: t' q rule: mkdir_all.induct)
  case (1 m es pm)
  then show ?case by auto
next
  case (2 m es c cs pm)
  from "2.prems" have search: "owner_can_search m"
    by (auto split: if_splits)
  define ch where "ch = (case map_of es c of None \<Rightarrow> Dir pm [] | Some ch \<Rightarrow> ch)"
  from "2.prems" search obtain ch' where ch': "mkdir_all ch cs pm = (None, ch')"
    and t': "t' = Dir m (AList.update c ch' es)"
    by (auto simp: ch_def split: option.splits prod.splits if_splits)
  have IH: "entry ch' qs = (if prefix qs cs \<and> entry ch qs = None then Some (Dir pm []) else entry ch qs)"
    for qs
  proof (cases "map_of es c")
    case None
    with "2.prems" search have w: "owner_can_write m" by (auto split: if_splits)
    from "2.IH"(1) [of ch' qs] search w ch' None show ?thesis
      by (simp add: ch_def)
  next
    case (Some x)
    from "2.IH"(2) [of x ch' qs] search ch' Some show ?thesis
      by (simp add: ch_def)
  qed
  show ?case
  proof (cases q)
    case Nil
    then show ?thesis by (simp add: t')
  next
    case (Cons c' qs)
    show ?thesis
    proof (cases "c' = c")
      case False
      then show ?thesis
        by (simp add: Cons t' entry_Cons_Dir AList.update_conv')
    next
      case True
      have "entry t' q = entry ch' qs"
        by (simp add: Cons True t' entry_Cons_Dir AList.update_conv' search)
      also have "\<dots> = (if prefix qs cs \<and> entry ch qs = None then Some (Dir pm []) else entry ch qs)"
        using IH .
      also have "\<dots> = (if prefix q (c # cs) \<and> entry (Dir m es) q = None then Some (Dir pm []) else entry (Dir m es) q)"
        by (cases qs) (auto simp: Cons True entry_Cons_Dir ch_def search split: option.splits)
      finally show ?thesis .
    qed
  qed
qed auto

lemma mkdir_all_again:
  "mkdir_all t p pm = (Some e, t') \<Longrightarrow> lookup t p = Inl x \<Longrightarrow>
   mkdir_all t' p pm = (Some e, t') \<and> (lookup t' p = Inl ENOENT \<or> lookup t' p = Inl e)"
proof (induction t p pm arbitrary: t' x rule: mkdir_all.induct)
  case (2 m es c cs pm)
  show ?case
  proof (cases "owner_can_search m")
    case False
    with "2.prems" show ?thesis by auto
  next
    case search: True
    show ?thesis
    proof (cases "map_of es c")
      case (Some ch)
      with "2.prems" search obtain ch' where ch': "mkdir_all ch cs pm = (Some e, ch')"
        and t': "t' = Dir m (AList.update c ch' es)"
        by (auto split: prod.splits)
      from "2.prems" search Some have "lookup ch cs = Inl x" by simp
      from "2.IH"(2) [of ch ch' x] search Some ch' this
      have "mkdir_all ch' cs pm = (Some e, ch')" "lookup ch' cs = Inl ENOENT \<or> lookup ch' cs = Inl e"
        by auto
      then show ?thesis
        by (auto simp: t' search AList.update_conv' AList.update_triv)
    next
      case None
      show ?thesis
      proof (cases "owner_can_write m")
        case False
        with "2.prems" search None show ?thesis by auto
      next
        case w: True
        with "2.prems" search None obtain ch' where ch': "mkdir_all (Dir pm []) cs pm = (Some e, ch')"
          and t': "t' = Dir m (AList.update c ch' es)"
          by (auto split: prod.splits)
        from ch' have "cs \<noteq> []" by auto
        then have "\<exists>y. lookup (Dir pm []) cs = Inl y"
          by (cases cs) auto
        then obtain y where "lookup (Dir pm []) cs = Inl y" ..
        from "2.IH"(1) [of ch' y] search w None ch' this
        have "mkdir_all ch' cs pm = (Some e, ch')" "lookup ch' cs = Inl ENOENT \<or> lookup ch' cs = Inl e"
          by auto
        then show ?thesis
          by (auto simp: t' search AList.update_conv' AList.update_triv)
      qed
    qed
  qed
next
  case (3 f cs pm)
  then show ?case by (cases cs) auto
next
  case (4 cs pm)
  then show ?case by (cases cs) auto
qed auto

section \<open>Paths, entries and \<^verbatim>\<open>DeleteFile\<close>\<close>

lemma root_set_root: "is_Dir t \<Longrightarrow> root (set_root fs t) = t"
  by (cases t) (simp_all add: root_def set_root_def)

lemma set_root_root [simp]: "set_root fs (root fs) = fs"
  by (simp add: root_def set_root_def)

lemma root_alter: "alter (root fs) p v = Inr t \<Longrightarrow> root (set_root fs t) = t"
  by (auto dest!: alter_is_Dir intro: root_set_root)

lemma root_mkdir_all: "mkdir_all (root fs) p pm = (r, t) \<Longrightarrow> root (set_root fs t) = t"
  using mkdir_all_kind [of "root fs" p pm r t "root_perm fs" "root_entries fs"]
  by (auto simp: root_def set_root_def)

lemma root_update [simp]:
  "root (fs\<lparr>free_space := x\<rparr>) = root fs" "root (fs\<lparr>written := w\<rparr>) = root fs"
  by (simp_all add: root_def)

lemma entry_at_update [simp]:
  "entry_at (fs\<lparr>free_space := x\<rparr>) p = entry_at fs p"
  "entry_at (fs\<lparr>written := w\<rparr>) p = entry_at fs p"
  by (simp_all add: entry_at_def)

lemma set_root_fields [simp]:
  "umask (set_root fs t) = umask fs" "free_space (set_root fs t) = free_space fs"
  "written (set_root fs t) = written fs"
  by (simp_all add: set_root_def split: node.splits)

lemma created_mode_set_root [simp]: "created_mode (set_root fs t) pm = created_mode fs pm"
  by (simp add: created_mode_def)

lemma created_mode_update [simp]:
  "created_mode (fs\<lparr>free_space := x\<rparr>) pm = created_mode fs pm"
  "created_mode (fs\<lparr>written := w\<rparr>) pm = created_mode fs pm"
  by (simp_all add: created_mode_def)

lemma set_root_idem [simp]: "set_root (set_root fs t) t = set_root fs t"
  by (cases t) (simp_all add: set_root_def)

lemma set_root_update:
  "set_root (fs\<lparr>free_space := x\<rparr>) t = (set_root fs t)\<lparr>free_space := x\<rparr>"
  "set_root (fs\<lparr>written := w\<rparr>) t = (set_root fs t)\<lparr>written := w\<rparr>"
  by (simp_all add: set_root_def split: node.splits)

lemma info_IsDir [simp]: "fi_IsDir (info n) = is_Dir n"
  by (cases n) auto

lemma info_IsRegular [simp]: "fi_IsRegular (info n) \<longleftrightarrow> (\<exists>f. n = Reg f)"
  by (cases n) auto

lemma shallow_eq_Reg [simp]: "shallow n = Reg f \<longleftrightarrow> n = Reg f"
  by (cases n) auto

lemma shallow_eq_Dir [simp]: "shallow n = Dir m es \<longleftrightarrow> es = [] \<and> (\<exists>es'. n = Dir m es')"
  by (cases n) auto

lemma is_Dir_shallow [simp]: "is_Dir (shallow n) = is_Dir n"
  by (cases n) auto

lemma entry_eq_None: "entry t p = None \<longleftrightarrow> (\<exists>e. lookup t p = Inl e)"
  by (auto simp: entry_def split: sum.splits)

lemma entry_eq_Reg: "entry t p = Some (Reg f) \<longleftrightarrow> lookup t p = Inr (Reg f)"
  by (auto simp: entry_def split: sum.splits)

lemma entry_eq_Dir: "entry t p = Some (Dir m es) \<longleftrightarrow> es = [] \<and> (\<exists>es'. lookup t p = Inr (Dir m es'))"
  by (auto simp: entry_def split: sum.splits elim: shallow.elims)

lemma PathExist_entry: "PathExist fs p \<longleftrightarrow> entry_at fs p \<noteq> None"
  by (simp add: PathExist_def os_Stat_def entry_at_def entry_def split: sum.splits)

lemma IsDir_entry: "IsDir fs p \<longleftrightarrow> (\<exists>m. entry_at fs p = Some (Dir m []))"
  by (auto simp: IsDir_def os_Stat_def entry_at_def entry_def split: sum.splits elim: is_Dir.elims)

lemma IsRegularFile_entry: "IsRegularFile fs p \<longleftrightarrow> (\<exists>f. entry_at fs p = Some (Reg f))"
  by (auto simp: IsRegularFile_def os_Stat_def entry_at_def entry_def split: sum.splits)

lemma lookup_leaf: "leaf n \<Longrightarrow> r \<noteq> [] \<Longrightarrow> \<exists>e. lookup n r = Inl e"
  by (cases n; cases r) auto

lemma alter_leaf:
  assumes "alter t p v = Inr t'" and "\<And>n. lookup t p = Inr n \<Longrightarrow> leaf n"
    and "\<And>n. v = Some n \<Longrightarrow> leaf n" and "q \<noteq> p"
  shows "entry t' q = entry t q"
proof (cases "prefix p q")
  case False
  with assms(1) show ?thesis by (rule alter_other)
next
  case True
  then obtain r where q: "q = p @ r" and r: "r \<noteq> []"
    using assms(4) by (auto simp: prefix_def)
  have "entry t q = None"
    using assms(2) lookup_leaf [OF _ r]
    by (fastforce simp: q entry_eq_None lookup_append split: sum.splits)
  moreover have "entry t' q = None"
  proof (cases v)
    case None
    then show ?thesis
      using assms(1) alter_None_lookup by (simp add: q entry_eq_None)
  next
    case (Some n)
    then show ?thesis
      using assms(1,3) alter_Some_lookup [of t p n t' r] lookup_leaf [OF _ r, of n]
      by (auto simp: q entry_eq_None)
  qed
  ultimately show ?thesis by simp
qed

lemma alter_same: "alter t p v = Inr t' \<Longrightarrow> entry t' p = map_option shallow v"
  using alter_Some_lookup [of t p _ t' "[]"] alter_None_lookup [of t p t' "[]"]
  by (cases v) (auto simp: entry_def)

lemma lookup_exists_alter: "lookup t p = Inr n \<Longrightarrow> p \<noteq> [] \<Longrightarrow> \<exists>t'. alter t p v = Inr t'"
  using lookup_Inr_parent [of t "butlast p" "last p" n v] by simp

lemma components_Dir [simp]: "components (filepath_Dir p) = butlast (components p)"
  by (cases p) auto

lemma check_parent_dir_writable:
  "check_parent (root fs) (components p) = None \<longleftrightarrow> dir_writable fs (filepath_Dir p)"
  by (auto simp: check_parent_def dir_writable_def entry_at_def entry_def
      split: sum.splits node.splits option.splits)

lemma check_parent_exists:
  assumes "lookup t p = Inr n" and "p \<noteq> []"
  shows "check_parent t p = (if (\<exists>m es. lookup t (butlast p) = Inr (Dir m es) \<and> owner_can_write m)
           then None else Some EACCES)"
proof -
  from assms have "lookup t (butlast p @ [last p]) = Inr n" by simp
  from lookup_snoc_Inr [OF this] show ?thesis
    by (auto simp: check_parent_def)
qed

lemma DeleteFile_absent: "\<not> PathExist fs p \<Longrightarrow> DeleteFile fs p = (Some NotExist, fs)"
  by (simp add: DeleteFile_def)

lemma DeleteFile_dir: "IsDir fs p \<Longrightarrow> DeleteFile fs p = (Some IsDirectory, fs)"
  by (auto simp: DeleteFile_def IsDir_entry PathExist_entry)

lemma DeleteFile_file:
  assumes "PathExist fs p" and "\<not> IsDir fs p"
  shows "\<not> dir_writable fs (filepath_Dir p) \<Longrightarrow> DeleteFile fs p = (Some (OSError EACCES), fs)"
    and "dir_writable fs (filepath_Dir p) \<Longrightarrow>
      fst (DeleteFile fs p) = None \<and>
      entry_at (snd (DeleteFile fs p)) q = (if components q = components p then None else entry_at fs q) \<and>
      os_Stat (snd (DeleteFile fs p)) p = Inl ENOENT \<and>
      umask (snd (DeleteFile fs p)) = umask fs \<and> written (snd (DeleteFile fs p)) = written fs \<and>
      free_space (snd (DeleteFile fs p)) =
        free_space fs + (case entry_at fs p of Some (Reg f) \<Rightarrow> length (content f) | _ \<Rightarrow> 0)"
proof -
  from assms obtain n where n: "lookup (root fs) (components p) = Inr n" and nd: "\<not> is_Dir n"
    by (auto simp: PathExist_def IsDir_def os_Stat_def split: sum.splits)
  have ne: "components p \<noteq> []"
    using n nd by (auto simp: root_def)
  have cp: "check_parent (root fs) (components p) =
      (if dir_writable fs (filepath_Dir p) then None else Some EACCES)"
    using check_parent_exists [OF n ne] check_parent_dir_writable [of fs p]
    by (auto split: if_splits)
  obtain t where t: "alter (root fs) (components p) None = Inr t"
    using lookup_exists_alter [OF n ne] by blast
  have leafn: "leaf n" using nd by (cases n) auto
  show "DeleteFile fs p = (Some (OSError EACCES), fs)" if "\<not> dir_writable fs (filepath_Dir p)"
    using that assms n ne cp by (simp add: DeleteFile_def os_Remove_def)
  show "fst (DeleteFile fs p) = None \<and>
      entry_at (snd (DeleteFile fs p)) q = (if components q = components p then None else entry_at fs q) \<and>
      os_Stat (snd (DeleteFile fs p)) p = Inl ENOENT \<and>
      umask (snd (DeleteFile fs p)) = umask fs \<and> written (snd (DeleteFile fs p)) = written fs \<and>
      free_space (snd (DeleteFile fs p)) =
        free_space fs + (case entry_at fs p of Some (Reg f) \<Rightarrow> length (content f) | _ \<Rightarrow> 0)"
    if w: "dir_writable fs (filepath_Dir p)"
  proof -
    have del: "DeleteFile fs p = (None, (set_root fs t)\<lparr>free_space := free_space fs + disk_size n\<rparr>)"
      using assms n nd t ne cp w by (cases n) (auto simp: DeleteFile_def os_Remove_def)
    have e: "entry_at (set_root fs t) q = (if components q = components p then None else entry_at fs q)"
      using alter_same [OF t] alter_leaf [OF t, of "components q"] n leafn
      by (auto simp: entry_at_def root_alter [OF t])
    have sz: "disk_size n = (case entry_at fs p of Some (Reg f) \<Rightarrow> length (content f) | _ \<Rightarrow> 0)"
      using n nd by (cases n) (auto simp: entry_at_def entry_def)
    have l: "lookup t (components p) = Inl ENOENT"
      using alter_None_lookup [OF t, of "[]"] by simp
    show ?thesis
      using e sz l by (simp add: del os_Stat_def root_alter [OF t])
  qed
qed

lemma DeleteFile_entry:
  "entry_at (snd (DeleteFile fs p)) q =
     (if components q = components p \<and> \<not> IsDir fs p \<and> dir_writable fs (filepath_Dir p) then None
      else entry_at fs q)"
proof -
  consider "\<not> PathExist fs p" | "IsDir fs p" | "PathExist fs p" "\<not> IsDir fs p" by blast
  then show ?thesis
  proof cases
    case 1
    then show ?thesis
      by (auto simp: DeleteFile_absent PathExist_entry entry_at_def)
  next
    case 2
    then show ?thesis by (simp add: DeleteFile_dir)
  next
    case 3
    then show ?thesis
      using DeleteFile_file(1) [OF 3] DeleteFile_file(2) [OF 3, where q = q]
      by (cases "dir_writable fs (filepath_Dir p)") auto
  qed
qed

section \<open>Deleting files\<close>

lemma IsDir_cong: "components q = components p \<Longrightarrow> IsDir fs q = IsDir fs p"
  by (simp add: IsDir_def os_Stat_def)

lemma dir_writable_cong:
  "components q = components p \<Longrightarrow> dir_writable fs (filepath_Dir q) = dir_writable fs (filepath_Dir p)"
  by (simp add: dir_writable_def entry_at_def)

lemma dir_writable_IsDir: "dir_writable fs d \<Longrightarrow> IsDir fs d"
  by (auto simp: dir_writable_def IsDir_entry entry_at_def entry_eq_Dir
      split: option.splits node.splits)

lemma example_fs_ro:
  "PathExist example_fs (Rel [''ro'', ''f''])" "\<not> IsDir example_fs (Rel [''ro'', ''f''])"
  "\<not> dir_writable example_fs (filepath_Dir (Rel [''ro'', ''f'']))"
  "entry_at example_fs (Rel [''ro'', ''f'']) = Some (Reg \<lparr>content = [9], perm = 420, fault = None\<rparr>)"
  "valid_path (Rel [''ro'', ''f''])"
  by (simp_all add: PathExist_def IsDir_def os_Stat_def dir_writable_def entry_at_def entry_def
      root_def example_fs_def owner_can_search_def owner_can_write_def valid_path_def valid_name_def)

text \<open>
  Claim C6 as stated fails where the directory of the file cannot be written. On the
  example filesystem \<^verbatim>\<open>ro/f\<close> exists and is not a directory, but \<^verbatim>\<open>ro\<close> has mode
  \<^verbatim>\<open>0555\<close>: \<^verbatim>\<open>DeleteFile\<close> returns the \<^verbatim>\<open>EACCES\<close> of \<^verbatim>\<open>os.Remove\<close> and the file is
  still there.
\<close>

theorem DeleteFile_spec_counterexample:
  "valid_path (Rel [''ro'', ''f'']) \<and>
   PathExist example_fs (Rel [''ro'', ''f'']) \<and> \<not> IsDir example_fs (Rel [''ro'', ''f'']) \<and>
   DeleteFile example_fs (Rel [''ro'', ''f'']) = (Some (OSError EACCES), example_fs) \<and>
   entry_at (snd (DeleteFile example_fs (Rel [''ro'', ''f'']))) (Rel [''ro'', ''f'']) =
     Some (Reg \<lparr>content = [9], perm = 420, fault = None\<rparr>)"
proof -
  have "DeleteFile example_fs (Rel [''ro'', ''f'']) = (Some (OSError EACCES), example_fs)"
    using example_fs_ro(1,2,3) by (rule DeleteFile_file(1))
  then show ?thesis
    using example_fs_ro by simp
qed

text \<open>
  Claim C6, amended. For a path in cleaned form, \<^verbatim>\<open>DeleteFile(path)\<close> fails with
  \<open>NotExist\<close> when the path is absent and with \<open>IsDirectory\<close> when it is a directory,
  and in both cases leaves the filesystem as it was (the directory stays in place).
  Otherwise it returns what \<^verbatim>\<open>os.Remove\<close> returns: when the directory of the file
  grants write permission it succeeds, and afterwards the path names nothing while every
  other path names what it named before; when it does not, the error is \<^verbatim>\<open>EACCES\<close> and
  the filesystem is as it was.
\<close>

theorem DeleteFile_spec:
  assumes "valid_path p"
  shows
  "(\<not> PathExist fs p \<longrightarrow> DeleteFile fs p = (Some NotExist, fs)) \<and>
   (IsDir fs p \<longrightarrow> DeleteFile fs p = (Some IsDirectory, fs) \<and> IsDir (snd (DeleteFile fs p)) p) \<and>
   (PathExist fs p \<and> \<not> IsDir fs p \<and> dir_writable fs (filepath_Dir p) \<longrightarrow>
      fst (DeleteFile fs p) = None \<and>
      (\<forall>q. valid_path q \<longrightarrow> entry_at (snd (DeleteFile fs p)) q =
         (if components q = components p then None else entry_at fs q))) \<and>
   (PathExist fs p \<and> \<not> IsDir fs p \<and> \<not> dir_writable fs (filepath_Dir p) \<longrightarrow>
      DeleteFile fs p = (Some (OSError EACCES), fs))"
proof (intro conjI impI allI)
  assume "\<not> PathExist fs p"
  then show "DeleteFile fs p = (Some NotExist, fs)"
    by (rule DeleteFile_absent)
next
  assume d: "IsDir fs p"
  then show "DeleteFile fs p = (Some IsDirectory, fs)"
    by (rule DeleteFile_dir)
  with d show "IsDir (snd (DeleteFile fs p)) p"
    by simp
next
  assume "PathExist fs p \<and> \<not> IsDir fs p \<and> dir_writable fs (filepath_Dir p)"
  then show "fst (DeleteFile fs p) = None"
    using DeleteFile_file(2) [of fs p] by blast
next
  fix q
  assume "PathExist fs p \<and> \<not> IsDir fs p \<and> dir_writable fs (filepath_Dir p)"
  then show "entry_at (snd (DeleteFile fs p)) q =
         (if components q = components p then None else entry_at fs q)"
    using DeleteFile_file(2) [of fs p q] by blast
next
  assume "PathExist fs p \<and> \<not> IsDir fs p \<and> \<not> dir_writable fs (filepath_Dir p)"
  then show "DeleteFile fs p = (Some (OSError EACCES), fs)"
    using DeleteFile_file(1) [of fs p] by blast
qed

text \<open>
  The four cases of C6 on the example filesystem: the absent \<^verbatim>\<open>nope\<close>, the directory
  \<^verbatim>\<open>d\<close>, the file \<^verbatim>\<open>a.txt\<close>, whose removal leaves \<^verbatim>\<open>d/x\<close> alone, and the file
  \<^verbatim>\<open>ro/f\<close> in a directory that cannot be written.
\<close>

theorem DeleteFile_spec_witness:
  "valid_path (Rel [''nope'']) \<and> \<not> PathExist example_fs (Rel [''nope'']) \<and>
   DeleteFile example_fs (Rel [''nope'']) = (Some NotExist, example_fs) \<and>
   valid_path (Rel [''d'']) \<and> IsDir example_fs (Rel [''d'']) \<and>
   DeleteFile example_fs (Rel [''d'']) = (Some IsDirectory, example_fs) \<and>
   valid_path (Rel [''a.txt'']) \<and>
   PathExist example_fs (Rel [''a.txt'']) \<and> \<not> IsDir example_fs (Rel [''a.txt'']) \<and>
   dir_writable example_fs (filepath_Dir (Rel [''a.txt''])) \<and>
   fst (DeleteFile example_fs (Rel [''a.txt''])) = None \<and>
   entry_at (snd (DeleteFile example_fs (Rel [''a.txt'']))) (Rel [''a.txt'']) = None \<and>
   valid_path (Rel [''d'', ''x'']) \<and>
   entry_at (snd (DeleteFile example_fs (Rel [''a.txt'']))) (Rel [''d'', ''x'']) =
     Some (Reg \<lparr>content = [1, 2, 3], perm = 420, fault = None\<rparr>) \<and>
   valid_path (Rel [''ro'', ''f'']) \<and>
   PathExist example_fs (Rel [''ro'', ''f'']) \<and> \<not> IsDir example_fs (Rel [''ro'', ''f'']) \<and>
   \<not> dir_writable example_fs (filepath_Dir (Rel [''ro'', ''f''])) \<and>
   DeleteFile example_fs (Rel [''ro'', ''f'']) = (Some (OSError EACCES), example_fs)"
proof -
  have v: "valid_path (Rel [''nope''])" "valid_path (Rel [''d''])" "valid_path (Rel [''a.txt''])"
    "valid_path (Rel [''d'', ''x''])"
    by (simp_all add: valid_path_def valid_name_def)
  have e: "\<not> PathExist example_fs (Rel [''nope''])" "IsDir example_fs (Rel [''d''])"
    "PathExist example_fs (Rel [''a.txt''])" "\<not> IsDir example_fs (Rel [''a.txt''])"
    "dir_writable example_fs (filepath_Dir (Rel [''a.txt'']))"
    by (simp_all add: PathExist_def IsDir_def os_Stat_def root_def example_fs_def
        dir_writable_def entry_at_def entry_def owner_can_search_def owner_can_write_def)
  have x: "entry_at example_fs (Rel [''d'', ''x'']) =
     Some (Reg \<lparr>content = [1, 2, 3], perm = 420, fault = None\<rparr>)"
    by (simp add: entry_at_def entry_def root_def example_fs_def owner_can_search_def)
  have a: "fst (DeleteFile example_fs (Rel [''a.txt''])) = None"
    "entry_at (snd (DeleteFile example_fs (Rel [''a.txt'']))) (Rel [''a.txt'']) = None"
    "entry_at (snd (DeleteFile example_fs (Rel [''a.txt'']))) (Rel [''d'', ''x'']) =
       entry_at example_fs (Rel [''d'', ''x''])"
    using DeleteFile_spec [OF v(3), of example_fs] e v by auto
  show ?thesis
    using DeleteFile_spec [OF v(1), of example_fs] DeleteFile_spec [OF v(2), of example_fs]
      DeleteFile_spec [OF example_fs_ro(5), of example_fs] a e v x example_fs_ro
    by simp
qed

lemma DeleteFile_dir_writable:
  "dir_writable (snd (DeleteFile fs p)) d = dir_writable fs d"
proof (cases "components d = components p \<and> \<not> IsDir fs p \<and> dir_writable fs (filepath_Dir p)")
  case False
  then have "entry_at (snd (DeleteFile fs p)) d = entry_at fs d"
    using DeleteFile_entry [of fs p d] by auto
  then show ?thesis
    unfolding dir_writable_def by (simp only:)
next
  case True
  then have "\<not> IsDir fs d"
    using IsDir_cong [of d p fs] by simp
  then have "\<not> dir_writable fs d"
    using dir_writable_IsDir by blast
  moreover have "entry_at (snd (DeleteFile fs p)) d = None"
    using True by (simp add: DeleteFile_entry)
  ultimately show ?thesis by (simp add: dir_writable_def)
qed

lemma DeleteFiles_loop_entry:
  "entry_at (DeleteFiles_loop fs ps) q =
     (if components q \<in> components ` set ps \<and> \<not> IsDir fs q \<and> dir_writable fs (filepath_Dir q)
      then None else entry_at fs q)"
proof (induction ps arbitrary: fs)
  case Nil
  then show ?case by simp
next
  case (Cons p ps)
  define fs1 where "fs1 = snd (DeleteFile fs p)"
  have step: "DeleteFiles_loop fs (p # ps) = DeleteFiles_loop fs1 ps"
    by (simp add: fs1_def split: prod.splits option.splits)
  have e1: "entry_at fs1 r =
      (if components r = components p \<and> \<not> IsDir fs p \<and> dir_writable fs (filepath_Dir p) then None
       else entry_at fs r)" for r
    unfolding fs1_def by (rule DeleteFile_entry)
  have d1: "IsDir fs1 q = IsDir fs q"
    using IsDir_cong [of q p fs] by (auto simp: IsDir_entry e1)
  have w1: "dir_writable fs1 (filepath_Dir q) = dir_writable fs (filepath_Dir q)"
    unfolding fs1_def by (rule DeleteFile_dir_writable)
  show ?case
    unfolding step Cons.IH d1 w1 using IsDir_cong [of q p fs] dir_writable_cong [of q p fs]
    by (auto simp: e1)
qed

lemma DeleteFiles_loop_foldl:
  "DeleteFiles_loop fs ps = foldl (\<lambda>fs p. snd (DeleteFile fs p)) fs ps"
  by (induction ps arbitrary: fs) (auto split: prod.splits option.splits)

lemma DeleteFiles_eq_loop: "DeleteFiles fs ps = DeleteFiles_loop fs ps"
  by (cases ps) (simp_all add: DeleteFiles_def)

lemma example_fs_entries_del:
  "\<not> IsDir example_fs (Rel [''a.txt''])" "\<not> IsDir example_fs (Rel [''d'', ''x''])"
  "IsDir example_fs (Rel [''d''])"
  "dir_writable example_fs (filepath_Dir (Rel [''a.txt'']))"
  "dir_writable example_fs (filepath_Dir (Rel [''d'', ''x'']))"
  "entry_at example_fs (Rel [''d'']) = Some (Dir 493 [])"
  "entry_at example_fs (Rel [''secret'']) = Some (Reg \<lparr>content = [7], perm = 0, fault = None\<rparr>)"
  by (simp_all add: IsDir_def os_Stat_def dir_writable_def entry_at_def entry_def root_def
      example_fs_def owner_can_search_def owner_can_write_def)

lemma example_paths_valid:
  "valid_path (Rel [''nope''])" "valid_path (Rel [''a.txt''])" "valid_path (Rel [''d''])"
  "valid_path (Rel [''d'', ''x''])" "valid_path (Rel [''secret''])" "valid_path (Rel [''ro'', ''f''])"
  by (simp_all add: valid_path_def valid_name_def)

text \<open>
  Claim C8 as stated fails on a listed file whose directory cannot be written: it
  exists and is regular, yet \<^verbatim>\<open>DeleteFiles\<close> leaves it in place, because the error of
  \<^verbatim>\<open>os.Remove\<close> is ignored like every other. On the example, \<^verbatim>\<open>ro/f\<close> survives.
\<close>

theorem DeleteFiles_spec_counterexample:
  "list_all valid_path [Rel [''nope''], Rel [''ro'', ''f''], Rel [''a.txt'']] \<and>
   IsRegularFile example_fs (Rel [''ro'', ''f'']) \<and>
   entry_at (DeleteFiles example_fs [Rel [''nope''], Rel [''ro'', ''f''], Rel [''a.txt'']])
     (Rel [''ro'', ''f'']) = Some (Reg \<lparr>content = [9], perm = 420, fault = None\<rparr>)"
proof -
  have "IsRegularFile example_fs (Rel [''ro'', ''f''])"
    using example_fs_ro(4) by (auto simp: IsRegularFile_entry)
  moreover have "entry_at (DeleteFiles example_fs [Rel [''nope''], Rel [''ro'', ''f''], Rel [''a.txt'']])
     (Rel [''ro'', ''f'']) = entry_at example_fs (Rel [''ro'', ''f''])"
    unfolding DeleteFiles_eq_loop DeleteFiles_loop_entry using example_fs_ro(3) by simp
  ultimately show ?thesis
    using example_fs_ro(4) example_paths_valid by simp
qed

text \<open>
  Claim C8, amended. For paths in cleaned form, \<^verbatim>\<open>DeleteFiles(paths...)\<close> calls
  \<^verbatim>\<open>DeleteFile\<close> on every path of the list in turn, whatever the earlier calls returned,
  and returns no error (the Go function has no result). Afterwards every listed path that
  was not a directory and whose directory grants write permission names nothing, so
  every listed file that existed in a writable directory is removed; every other path,
  listed or not, names what it named before.
\<close>

theorem DeleteFiles_spec:
  assumes "list_all valid_path ps" and "valid_path q"
  shows
  "DeleteFiles fs ps = foldl (\<lambda>fs p. snd (DeleteFile fs p)) fs ps \<and>
   entry_at (DeleteFiles fs ps) q =
     (if components q \<in> components ` set ps \<and> \<not> IsDir fs q \<and> dir_writable fs (filepath_Dir q)
      then None else entry_at fs q)"
  unfolding DeleteFiles_eq_loop
  using DeleteFiles_loop_foldl [of fs ps] DeleteFiles_loop_entry [of fs ps q] by simp

text \<open>
  On the example filesystem, with a list that mixes an absent path, files (one of them
  twice), a directory and a file in a directory that cannot be written: the files in
  writable directories are gone; the directory, the file \<^verbatim>\<open>ro/f\<close> and the unlisted
  file stay.
\<close>

theorem DeleteFiles_spec_witness:
  "list_all valid_path
      [Rel [''nope''], Rel [''a.txt''], Rel [''d''], Rel [''d'', ''x''], Rel [''ro'', ''f''], Rel [''a.txt'']] \<and>
   valid_path (Rel [''a.txt'']) \<and> valid_path (Rel [''d'', ''x'']) \<and> valid_path (Rel [''d'']) \<and>
   valid_path (Rel [''ro'', ''f'']) \<and> valid_path (Rel [''secret'']) \<and>
   entry_at (DeleteFiles example_fs
      [Rel [''nope''], Rel [''a.txt''], Rel [''d''], Rel [''d'', ''x''], Rel [''ro'', ''f''], Rel [''a.txt'']])
      (Rel [''a.txt'']) = None \<and>
   entry_at (DeleteFiles example_fs
      [Rel [''nope''], Rel [''a.txt''], Rel [''d''], Rel [''d'', ''x''], Rel [''ro'', ''f''], Rel [''a.txt'']])
      (Rel [''d'', ''x'']) = None \<and>
   entry_at (DeleteFiles example_fs
      [Rel [''nope''], Rel [''a.txt''], Rel [''d''], Rel [''d'', ''x''], Rel [''ro'', ''f''], Rel [''a.txt'']])
      (Rel [''d'']) = Some (Dir 493 []) \<and>
   entry_at (DeleteFiles example_fs
      [Rel [''nope''], Rel [''a.txt''], Rel [''d''], Rel [''d'', ''x''], Rel [''ro'', ''f''], Rel [''a.txt'']])
      (Rel [''ro'', ''f'']) = Some (Reg \<lparr>content = [9], perm = 420, fault = None\<rparr>) \<and>
   entry_at (DeleteFiles example_fs
      [Rel [''nope''], Rel [''a.txt''], Rel [''d''], Rel [''d'', ''x''], Rel [''ro'', ''f''], Rel [''a.txt'']])
      (Rel [''secret'']) = Some (Reg \<lparr>content = [7], perm = 0, fault = None\<rparr>)"
proof -
  let ?ps = "[Rel [''nope''], Rel [''a.txt''], Rel [''d''], Rel [''d'', ''x''], Rel [''ro'', ''f''], Rel [''a.txt'']]"
  have v: "list_all valid_path ?ps"
    using example_paths_valid by simp
  have r: "\<not> dir_writable example_fs (filepath_Dir (Rel [''ro'', ''f'']))"
    "entry_at example_fs (Rel [''ro'', ''f'']) = Some (Reg \<lparr>content = [9], perm = 420, fault = None\<rparr>)"
    by (rule example_fs_ro)+
  show ?thesis
    using
      DeleteFiles_spec [OF v example_paths_valid(2), where fs = example_fs, THEN conjunct2]
      DeleteFiles_spec [OF v example_paths_valid(4), where fs = example_fs, THEN conjunct2]
      DeleteFiles_spec [OF v example_paths_valid(3), where fs = example_fs, THEN conjunct2]
      DeleteFiles_spec [OF v example_paths_valid(6), where fs = example_fs, THEN conjunct2]
      DeleteFiles_spec [OF v example_paths_valid(5), where fs = example_fs, THEN conjunct2]
      example_fs_entries_del example_paths_valid r v
    by simp
qed

section \<open>Creating directories\<close>

lemma os_Stat_Inl: "os_Stat fs p = Inl e \<longleftrightarrow> lookup (root fs) (components p) = Inl e"
  by (auto simp: os_Stat_def split: sum.splits)

lemma os_Stat_ENOENT_entry: "os_Stat fs p = Inl e \<Longrightarrow> entry_at fs p = None"
  by (simp add: os_Stat_Inl entry_at_def entry_def)

lemma IsDir_os_Stat: "IsDir fs p \<longleftrightarrow> (\<exists>f. os_Stat fs p = Inr f \<and> fi_IsDir f)"
  by (auto simp: IsDir_def split: sum.splits)

lemma PathExist_os_Stat: "PathExist fs p \<longleftrightarrow> (\<exists>f. os_Stat fs p = Inr f)"
  by (auto simp: PathExist_def split: sum.splits)

lemma lookup_prefix_Inr: "lookup t (p @ r) = Inr n \<Longrightarrow> \<exists>n'. lookup t p = Inr n'"
  by (auto simp: lookup_append split: sum.splits)

lemma entry_prefix_exists:
  "entry t p \<noteq> None \<Longrightarrow> prefix q p \<Longrightarrow> entry t q \<noteq> None"
  by (auto simp: entry_eq_None prefix_def dest: lookup_prefix_Inr)
    (metis lookup_prefix_Inr old.sum.exhaust sum.distinct(1))

lemma CreateDirectory_IsDir: "IsDir fs p \<Longrightarrow> CreateDirectory fs p = (None, fs)"
  by (auto simp: CreateDirectory_def IsDir_os_Stat)

lemma CreateDirectory_not_dir:
  "PathExist fs p \<Longrightarrow> \<not> IsDir fs p \<Longrightarrow> CreateDirectory fs p = (Some NotADirectory, fs)"
  by (auto simp: CreateDirectory_def IsDir_os_Stat PathExist_os_Stat)

lemma CreateDirectory_stat_error:
  "os_Stat fs p = Inl e \<Longrightarrow> e \<noteq> ENOENT \<Longrightarrow> CreateDirectory fs p = (Some (OSError e), fs)"
  by (simp add: CreateDirectory_def os_IsNotExist_def)

lemma CreateDirectory_mkdir:
  assumes "os_Stat fs p = Inl ENOENT"
    and "mkdir_all (root fs) (components p) (created_mode fs perm_0755) = (r, t)"
  shows "CreateDirectory fs p = (map_option OSError r, set_root fs t)"
  using assms by (cases r) (simp_all add: CreateDirectory_def os_IsNotExist_def os_MkdirAll_def)

lemma CreateDirectory_fields [simp]:
  "umask (snd (CreateDirectory fs p)) = umask fs"
  "free_space (snd (CreateDirectory fs p)) = free_space fs"
  "written (snd (CreateDirectory fs p)) = written fs"
  by (auto simp: CreateDirectory_def os_MkdirAll_def split: sum.splits prod.splits option.splits)

lemma CreateDirectory_ok:
  assumes "os_Stat fs p = Inl ENOENT" and "nearest_dir_writable fs p" and "umask_permits fs"
  shows "fst (CreateDirectory fs p) = None"
proof -
  obtain r t where rt: "mkdir_all (root fs) (components p) (created_mode fs perm_0755) = (r, t)"
    by (cases "mkdir_all (root fs) (components p) (created_mode fs perm_0755)")
  have "fst (mkdir_all (root fs) (components p) (created_mode fs perm_0755)) = None"
    using assms by (intro mkdir_all_ok) (simp_all add: os_Stat_Inl nearest_dir_writable_def umask_permits_def)
  with rt have "r = None" by simp
  with CreateDirectory_mkdir [OF assms(1) rt] show ?thesis by simp
qed

lemma CreateDirectory_denied:
  assumes "os_Stat fs p = Inl ENOENT" and "\<not> nearest_dir_writable fs p"
  shows "CreateDirectory fs p = (Some (OSError EACCES), fs)"
proof -
  have "mkdir_all (root fs) (components p) (created_mode fs perm_0755) = (Some EACCES, root fs)"
    using assms by (intro mkdir_all_denied) (simp_all add: os_Stat_Inl nearest_dir_writable_def)
  from CreateDirectory_mkdir [OF assms(1) this] show ?thesis by simp
qed

lemma CreateDirectory_success_cases:
  assumes "fst (CreateDirectory fs p) = None"
  shows "IsDir fs p \<and> snd (CreateDirectory fs p) = fs \<or>
    os_Stat fs p = Inl ENOENT \<and>
    (\<exists>t. mkdir_all (root fs) (components p) (created_mode fs perm_0755) = (None, t) \<and>
       snd (CreateDirectory fs p) = set_root fs t)"
proof (cases "os_Stat fs p")
  case (Inl e)
  obtain r t where rt: "mkdir_all (root fs) (components p) (created_mode fs perm_0755) = (r, t)"
    by (cases "mkdir_all (root fs) (components p) (created_mode fs perm_0755)")
  have e: "e = ENOENT"
  proof (rule ccontr)
    assume "e \<noteq> ENOENT"
    from CreateDirectory_stat_error [OF Inl this] assms show False by simp
  qed
  with Inl CreateDirectory_mkdir [OF _ rt] assms show ?thesis
    using rt by auto
next
  case (Inr f)
  with assms show ?thesis
    by (auto simp: CreateDirectory_def IsDir_os_Stat split: if_splits)
qed

lemma CreateDirectory_entry:
  assumes "fst (CreateDirectory fs p) = None"
  shows "entry_at (snd (CreateDirectory fs p)) q =
     (if prefix (components q) (components p) \<and> entry_at fs q = None
      then Some (Dir (created_mode fs perm_0755) []) else entry_at fs q)"
  using CreateDirectory_success_cases [OF assms]
proof (elim disjE conjE exE)
  assume d: "IsDir fs p" and s: "snd (CreateDirectory fs p) = fs"
  from d have "entry (root fs) (components p) \<noteq> None"
    by (auto simp: IsDir_entry entry_at_def)
  then have "prefix (components q) (components p) \<Longrightarrow> entry_at fs q \<noteq> None"
    unfolding entry_at_def by (rule entry_prefix_exists)
  then show ?thesis by (auto simp: s)
next
  fix t
  assume t: "mkdir_all (root fs) (components p) (created_mode fs perm_0755) = (None, t)"
    and s: "snd (CreateDirectory fs p) = set_root fs t"
  show ?thesis
    using mkdir_all_entry [OF t, of "components q"]
    by (simp add: s entry_at_def root_mkdir_all [OF t])
qed

lemma CreateDirectory_makes_dir:
  assumes "fst (CreateDirectory fs p) = None"
  shows "IsDir (snd (CreateDirectory fs p)) p"
  using CreateDirectory_success_cases [OF assms] CreateDirectory_entry [OF assms, of p]
  by (auto simp: IsDir_entry dest: os_Stat_ENOENT_entry)

lemma CreateDirectory_again: "CreateDirectory (snd (CreateDirectory fs p)) p = CreateDirectory fs p"
proof (cases "fst (CreateDirectory fs p) = None")
  case True
  then have "CreateDirectory (snd (CreateDirectory fs p)) p = (None, snd (CreateDirectory fs p))"
    by (intro CreateDirectory_IsDir CreateDirectory_makes_dir)
  with True show ?thesis
    by (simp add: prod_eq_iff)
next
  case False
  show ?thesis
  proof (cases "os_Stat fs p")
    case (Inr f)
    then show ?thesis
      by (auto simp: CreateDirectory_def)
  next
    case (Inl x)
    show ?thesis
    proof (cases "x = ENOENT")
      case False
      with Inl show ?thesis
        by (simp add: CreateDirectory_stat_error)
    next
      case True
      obtain r t where rt: "mkdir_all (root fs) (components p) (created_mode fs perm_0755) = (r, t)"
        by (cases "mkdir_all (root fs) (components p) (created_mode fs perm_0755)")
      have c: "CreateDirectory fs p = (map_option OSError r, set_root fs t)"
        using Inl True rt by (intro CreateDirectory_mkdir) simp_all
      with \<open>fst (CreateDirectory fs p) \<noteq> None\<close> obtain e where r: "r = Some e"
        by (cases r) auto
      have rt': "root (set_root fs t) = t"
        using rt by (rule root_mkdir_all)
      have l: "lookup (root fs) (components p) = Inl ENOENT"
        using Inl True by (simp add: os_Stat_Inl)
      from mkdir_all_again [OF rt [unfolded r] l]
      have again: "mkdir_all t (components p) (created_mode fs perm_0755) = (Some e, t)"
        and lk: "lookup t (components p) = Inl ENOENT \<or> lookup t (components p) = Inl e"
        by auto
      have "CreateDirectory (set_root fs t) p = (Some (OSError e), set_root fs t)"
      proof (cases "lookup t (components p) = Inl ENOENT")
        case True
        then have "os_Stat (set_root fs t) p = Inl ENOENT"
          by (simp add: os_Stat_Inl rt')
        from CreateDirectory_mkdir [OF this, of "Some e" t] again show ?thesis
          by (simp add: rt')
      next
        case False
        with lk have "os_Stat (set_root fs t) p = Inl e" "e \<noteq> ENOENT"
          by (auto simp: os_Stat_Inl rt')
        then show ?thesis
          by (rule CreateDirectory_stat_error)
      qed
      then show ?thesis
        by (simp add: c r)
    qed
  qed
qed

lemma example_fs_mkdir:
  "umask_permits example_fs" "created_mode example_fs perm_0755 = 493"
  "os_Stat example_fs (Rel [''p'', ''q'']) = Inl ENOENT"
  "nearest_dir_writable example_fs (Rel [''p'', ''q''])"
  "os_Stat example_fs (Rel [''ro'', ''n'']) = Inl ENOENT"
  "\<not> nearest_dir_writable example_fs (Rel [''ro'', ''n''])"
  "os_Stat example_fs (Rel [''a.txt'', ''q'']) = Inl ENOTDIR"
  "IsDir example_fs (Rel [''d''])"
  "PathExist example_fs (Rel [''a.txt''])" "\<not> IsDir example_fs (Rel [''a.txt''])"
  "\<not> PathExist example_fs (Rel [''a.txt'', ''q''])"
  "entry_at example_fs (Rel [''p'']) = None" "entry_at example_fs (Rel [''p'', ''q'']) = None"
  by (simp_all add: umask_permits_def created_mode_def perm_0755_def nearest_dir_writable_def
      PathExist_def IsDir_def os_Stat_def entry_at_def entry_def root_def example_fs_def
      owner_can_search_def owner_can_write_def)

text \<open>
  Claim C7, as stated, fails: not every path can be made a directory. On the example
  filesystem \<^verbatim>\<open>a.txt/q\<close> does not exist, and \<^verbatim>\<open>CreateDirectory\<close> fails on it with
  \<^verbatim>\<open>ENOTDIR\<close>, since \<^verbatim>\<open>a.txt\<close> is a regular file; \<^verbatim>\<open>ro/n\<close> does not exist either,
  and \<^verbatim>\<open>CreateDirectory\<close> fails on it with \<^verbatim>\<open>EACCES\<close>, since \<^verbatim>\<open>ro\<close> cannot be
  written. A second call fails in the same way.
\<close>

theorem CreateDirectory_idempotent_counterexample:
  "\<not> PathExist example_fs (Rel [''a.txt'', ''q'']) \<and>
   CreateDirectory example_fs (Rel [''a.txt'', ''q'']) = (Some (OSError ENOTDIR), example_fs) \<and>
   \<not> PathExist example_fs (Rel [''ro'', ''n'']) \<and>
   CreateDirectory example_fs (Rel [''ro'', ''n'']) = (Some (OSError EACCES), example_fs)"
proof -
  have "\<not> PathExist example_fs (Rel [''ro'', ''n''])"
    using example_fs_mkdir(5) by (simp add: PathExist_os_Stat)
  moreover have "CreateDirectory example_fs (Rel [''a.txt'', ''q'']) = (Some (OSError ENOTDIR), example_fs)"
    using example_fs_mkdir(7) by (rule CreateDirectory_stat_error) simp
  moreover have "CreateDirectory example_fs (Rel [''ro'', ''n'']) = (Some (OSError EACCES), example_fs)"
    using example_fs_mkdir(5,6) by (rule CreateDirectory_denied)
  ultimately show ?thesis
    using example_fs_mkdir(11) by simp
qed

text \<open>
  Claim C7, amended. On a path in cleaned form \<^verbatim>\<open>CreateDirectory\<close> is idempotent: a
  second call returns what the first returned and changes nothing more. When the call
  succeeds, the directory is present afterwards, a second call succeeds without changing
  anything, and the only change is that the missing ancestors of the path and the path
  itself are empty directories of mode \<^verbatim>\<open>0755\<close> less the umask. The call succeeds when
  the path is a directory already, which is left as it is, and when the path is absent
  (the lookup reports \<^verbatim>\<open>ENOENT\<close>), its nearest existing ancestor grants write
  permission and the umask leaves the owner the write and search bits. When the nearest
  existing ancestor of an absent path does not grant write permission, the call fails
  with \<^verbatim>\<open>EACCES\<close> and changes nothing. When the path exists and is not a directory the
  call fails with \<open>NotADirectory\<close>; any other lookup error is returned as it is.
\<close>

theorem CreateDirectory_idempotent:
  assumes "valid_path p"
  shows
  "CreateDirectory (snd (CreateDirectory fs p)) p = CreateDirectory fs p \<and>
   (fst (CreateDirectory fs p) = None \<longrightarrow>
      IsDir (snd (CreateDirectory fs p)) p \<and>
      CreateDirectory (snd (CreateDirectory fs p)) p = (None, snd (CreateDirectory fs p)) \<and>
      (\<forall>q. valid_path q \<longrightarrow> entry_at (snd (CreateDirectory fs p)) q =
         (if prefix (components q) (components p) \<and> entry_at fs q = None
          then Some (Dir (created_mode fs perm_0755) []) else entry_at fs q))) \<and>
   (os_Stat fs p = Inl ENOENT \<and> nearest_dir_writable fs p \<and> umask_permits fs \<longrightarrow>
      fst (CreateDirectory fs p) = None) \<and>
   (os_Stat fs p = Inl ENOENT \<and> \<not> nearest_dir_writable fs p \<longrightarrow>
      CreateDirectory fs p = (Some (OSError EACCES), fs)) \<and>
   (IsDir fs p \<longrightarrow> CreateDirectory fs p = (None, fs)) \<and>
   (PathExist fs p \<and> \<not> IsDir fs p \<longrightarrow> CreateDirectory fs p = (Some NotADirectory, fs)) \<and>
   (os_Stat fs p = Inl e \<and> e \<noteq> ENOENT \<longrightarrow> CreateDirectory fs p = (Some (OSError e), fs))"
proof (intro conjI impI allI)
  show "CreateDirectory (snd (CreateDirectory fs p)) p = CreateDirectory fs p"
    by (rule CreateDirectory_again)
  show "CreateDirectory fs p = (None, fs)" if "IsDir fs p"
    using that by (rule CreateDirectory_IsDir)
  show "CreateDirectory fs p = (Some NotADirectory, fs)" if "PathExist fs p \<and> \<not> IsDir fs p"
    using that by (simp add: CreateDirectory_not_dir)
  show "CreateDirectory fs p = (Some (OSError e), fs)" if "os_Stat fs p = Inl e \<and> e \<noteq> ENOENT"
    using that by (simp add: CreateDirectory_stat_error)
  show "fst (CreateDirectory fs p) = None"
    if "os_Stat fs p = Inl ENOENT \<and> nearest_dir_writable fs p \<and> umask_permits fs"
    using that by (simp add: CreateDirectory_ok)
  show "CreateDirectory fs p = (Some (OSError EACCES), fs)"
    if "os_Stat fs p = Inl ENOENT \<and> \<not> nearest_dir_writable fs p"
    using that by (simp add: CreateDirectory_denied)
next
  assume ok: "fst (CreateDirectory fs p) = None"
  then show d: "IsDir (snd (CreateDirectory fs p)) p"
    by (rule CreateDirectory_makes_dir)
  then show "CreateDirectory (snd (CreateDirectory fs p)) p = (None, snd (CreateDirectory fs p))"
    by (rule CreateDirectory_IsDir)
  show "entry_at (snd (CreateDirectory fs p)) q =
         (if prefix (components q) (components p) \<and> entry_at fs q = None
          then Some (Dir (created_mode fs perm_0755) []) else entry_at fs q)" for q
    using ok by (rule CreateDirectory_entry)
qed

text \<open>
  On the example filesystem: the absent \<^verbatim>\<open>p/q\<close> is created with its parent \<^verbatim>\<open>p\<close>,
  both with mode \<^verbatim>\<open>0755\<close>, and the second call succeeds; nothing can be created in
  \<^verbatim>\<open>ro\<close>; the directory \<^verbatim>\<open>d\<close> is left as it is; the file \<^verbatim>\<open>a.txt\<close> is not a directory;
  below it the lookup error comes back.
\<close>

theorem CreateDirectory_idempotent_witness:
  "valid_path (Rel [''p'', ''q'']) \<and> valid_path (Rel [''p'']) \<and>
   os_Stat example_fs (Rel [''p'', ''q'']) = Inl ENOENT \<and>
   nearest_dir_writable example_fs (Rel [''p'', ''q'']) \<and> umask_permits example_fs \<and>
   fst (CreateDirectory example_fs (Rel [''p'', ''q''])) = None \<and>
   IsDir (snd (CreateDirectory example_fs (Rel [''p'', ''q'']))) (Rel [''p'', ''q'']) \<and>
   CreateDirectory (snd (CreateDirectory example_fs (Rel [''p'', ''q'']))) (Rel [''p'', ''q'']) =
     (None, snd (CreateDirectory example_fs (Rel [''p'', ''q'']))) \<and>
   entry_at (snd (CreateDirectory example_fs (Rel [''p'', ''q'']))) (Rel [''p'']) = Some (Dir 493 []) \<and>
   valid_path (Rel [''ro'', ''n'']) \<and>
   os_Stat example_fs (Rel [''ro'', ''n'']) = Inl ENOENT \<and>
   \<not> nearest_dir_writable example_fs (Rel [''ro'', ''n'']) \<and>
   CreateDirectory example_fs (Rel [''ro'', ''n'']) = (Some (OSError EACCES), example_fs) \<and>
   valid_path (Rel [''d'']) \<and> IsDir example_fs (Rel [''d'']) \<and>
   CreateDirectory example_fs (Rel [''d'']) = (None, example_fs) \<and>
   valid_path (Rel [''a.txt'']) \<and>
   PathExist example_fs (Rel [''a.txt'']) \<and> \<not> IsDir example_fs (Rel [''a.txt'']) \<and>
   CreateDirectory example_fs (Rel [''a.txt'']) = (Some NotADirectory, example_fs) \<and>
   valid_path (Rel [''a.txt'', ''q'']) \<and>
   os_Stat example_fs (Rel [''a.txt'', ''q'']) = Inl ENOTDIR \<and>
   CreateDirectory example_fs (Rel [''a.txt'', ''q'']) = (Some (OSError ENOTDIR), example_fs)"
proof -
  have v: "valid_path (Rel [''p'', ''q''])" "valid_path (Rel [''p''])" "valid_path (Rel [''ro'', ''n''])"
    "valid_path (Rel [''d''])" "valid_path (Rel [''a.txt''])" "valid_path (Rel [''a.txt'', ''q''])"
    by (simp_all add: valid_path_def valid_name_def)
  note e = example_fs_mkdir
  note a = CreateDirectory_idempotent [OF v(1), of example_fs]
  note r = CreateDirectory_idempotent [OF v(3), of example_fs]
  note b = CreateDirectory_idempotent [OF v(4), of example_fs]
  note c = CreateDirectory_idempotent [OF v(5), of example_fs]
  note d = CreateDirectory_idempotent [OF v(6), of example_fs ENOTDIR]
  from a e(1,3,4) have 0: "fst (CreateDirectory example_fs (Rel [''p'', ''q''])) = None"
    by blast
  with a have 1: "IsDir (snd (CreateDirectory example_fs (Rel [''p'', ''q'']))) (Rel [''p'', ''q''])"
    "CreateDirectory (snd (CreateDirectory example_fs (Rel [''p'', ''q'']))) (Rel [''p'', ''q'']) =
        (None, snd (CreateDirectory example_fs (Rel [''p'', ''q''])))"
    "\<forall>q. valid_path q \<longrightarrow> entry_at (snd (CreateDirectory example_fs (Rel [''p'', ''q'']))) q =
         (if prefix (components q) (components (Rel [''p'', ''q''])) \<and> entry_at example_fs q = None
          then Some (Dir (created_mode example_fs perm_0755) []) else entry_at example_fs q)"
    by blast+
  from 1(3) v(2) have 5: "entry_at (snd (CreateDirectory example_fs (Rel [''p'', ''q'']))) (Rel [''p'']) =
      Some (Dir 493 [])"
    by (simp add: e(2,12))
  from r e(5,6) have 6: "CreateDirectory example_fs (Rel [''ro'', ''n'']) = (Some (OSError EACCES), example_fs)"
    by blast
  from b e(8) have 2: "CreateDirectory example_fs (Rel [''d'']) = (None, example_fs)"
    by blast
  from c e(9,10) have 3: "CreateDirectory example_fs (Rel [''a.txt'']) = (Some NotADirectory, example_fs)"
    by blast
  from d e(7) have 4: "CreateDirectory example_fs (Rel [''a.txt'', ''q'']) = (Some (OSError ENOTDIR), example_fs)"
    by blast
  from 0 1(1,2) 2 3 4 5 6 e v show ?thesis
    by blast
qed

section \<open>Reading a file for its digest\<close>

lemma readable_part_sound: "\<not> faulty f \<Longrightarrow> readable_part f = content f"
  by (auto simp: faulty_def readable_part_def split: option.splits)

lemma flags_RDONLY [simp]: "wants_read O_RDONLY" "\<not> wants_write O_RDONLY"
  by (simp_all add: wants_read_def wants_write_def O_RDONLY_def O_WRONLY_def)

lemma BufferSize_pos [simp]: "BufferSize \<noteq> 0" "0 < BufferSize"
  by (simp_all add: BufferSize_def)

lemma take_drop_rest:
  "take n (drop k xs) @ drop (k + min (length xs - k) n) xs = drop k xs"
proof (cases "n \<le> length xs - k")
  case True
  then have "drop (k + min (length xs - k) n) xs = drop n (drop k xs)"
    by (simp add: min_def add.commute)
  then show ?thesis
    by (simp only: append_take_drop_id)
next
  case False
  then show ?thesis by simp
qed

lemma io_Copy_Reg:
  "lookup (root fs) (fpath r) = Inr (Reg f) \<Longrightarrow> wants_read (fflag r) \<Longrightarrow>
   io_Copy fs r h =
     (if faulty f then Inl (OSError EIO) else Inr (h @ drop (foff r) (content f)))"
proof (induction fs r h rule: io_Copy.induct)
  case (1 fs r h)
  define data where "data = take BufferSize (drop (foff r) (readable_part f))"
  show ?case
  proof (cases "data = []")
    case True
    then have rd: "os_Read fs r BufferSize =
        ([], Some (if faulty f then OSError EIO else EOF), r)"
      using 1(2,3) by (simp add: os_Read_def data_def faulty_def)
    have "\<not> faulty f \<Longrightarrow> drop (foff r) (content f) = []"
      using True by (simp add: data_def readable_part_sound)
    then show ?thesis
      by (subst io_Copy.simps) (simp add: rd)
  next
    case False
    define r' where "r' = r\<lparr>foff := foff r + length data\<rparr>"
    have rd: "os_Read fs r BufferSize = (data, None, r')"
      using 1(2,3) False by (simp add: os_Read_def data_def r'_def Let_def)
    have "io_Copy fs r' (h @ data) =
       (if faulty f then Inl (OSError EIO) else Inr ((h @ data) @ drop (foff r') (content f)))"
      using 1(2,3) by (intro 1(1) [OF rd [symmetric] refl refl False]) (simp_all add: r'_def)
    moreover have "\<not> faulty f \<Longrightarrow> data @ drop (foff r') (content f) = drop (foff r) (content f)"
      by (simp add: data_def r'_def readable_part_sound take_drop_rest)
    ultimately show ?thesis
      using False by (subst io_Copy.simps) (simp add: rd)
  qed
qed

lemma OpenFile_existing: "PathExist fs p \<Longrightarrow> OpenFile fs p flag pm = os_OpenFile fs p flag pm"
  by (simp add: OpenFile_def)

lemma os_OpenFile_RDONLY_Reg:
  "lookup (root fs) (components p) = Inr (Reg f) \<Longrightarrow>
   os_OpenFile fs p O_RDONLY pm =
     (if owner_can_read (perm f)
      then (Inr \<lparr>fpath = components p, fflag = O_RDONLY, foff = 0\<rparr>, fs)
      else (Inl (OSError EACCES), fs))"
  by (simp add: os_OpenFile_def)

lemma entry_at_Reg: "entry_at fs p = Some (Reg f) \<longleftrightarrow> lookup (root fs) (components p) = Inr (Reg f)"
  by (simp add: entry_at_def entry_eq_Reg)

lemma OpenFile_RDONLY_Reg:
  assumes "entry_at fs p = Some (Reg f)"
  shows "OpenFile fs p O_RDONLY pm =
     (if owner_can_read (perm f)
      then (Inr \<lparr>fpath = components p, fflag = O_RDONLY, foff = 0\<rparr>, fs)
      else (Inl (OSError EACCES), fs))"
proof -
  have "PathExist fs p"
    using assms by (simp add: PathExist_entry)
  then show ?thesis
    using assms os_OpenFile_RDONLY_Reg [of fs p f pm]
    by (simp only: OpenFile_existing entry_at_Reg)
qed

lemma Md5Sum_Reg:
  "entry_at fs p = Some (Reg f) \<Longrightarrow>
   Md5Sum fs p = (if owner_can_read (perm f) \<and> \<not> faulty f then hex (md5 (content f)) else '''', fs)"
  using io_Copy_Reg [of fs "\<lparr>fpath = components p, fflag = O_RDONLY, foff = 0\<rparr>" f "[]"]
  by (auto simp: Md5Sum_def IsRegularFile_entry OpenFile_RDONLY_Reg entry_at_Reg)

lemma Md5Sum_not_regular: "\<not> IsRegularFile fs p \<Longrightarrow> Md5Sum fs p = ('''', fs)"
  by (simp add: Md5Sum_def)

lemma Md5Sum_state [simp]: "snd (Md5Sum fs p) = fs"
  by (cases "IsRegularFile fs p") (auto simp: Md5Sum_not_regular IsRegularFile_entry Md5Sum_Reg)

section \<open>The digest\<close>

lemma replicate_numeral_eval: "replicate (numeral k) x = x # replicate (pred_numeral k) x"
  by (simp add: numeral_eq_Suc)

lemma md5_step_eval:
  "md5_step M i (a, b, c, d) =
     (d, word_of_nat (unat (b + rotl32 (md5_mix i b c d + a + md5_K ! i + M ! md5_idx i) (md5_S ! i))), b, c)"
  by simp

lemma md5_block_eval:
  "md5_block (a0, b0, c0, d0) blk =
     (case md5_rounds (words_of blk) 0 (a0, b0, c0, d0) of
        (a, b, c, d) \<Rightarrow> (word_of_nat (unat (a0 + a)), word_of_nat (unat (b0 + b)),
           word_of_nat (unat (c0 + c)), word_of_nat (unat (d0 + d))))"
  by (simp split: prod.splits)

lemma md5_hello: "hex (md5 [0x68, 0x65, 0x6c, 0x6c, 0x6f]) = ''5d41402abc4b2a76b9719d911017c592''"
  by (simp add: md5_def md5_pad_def put_uint64_def put_uint32_def md5_blocks.simps md5_rounds.simps
      md5_step_eval md5_block_eval replicate_numeral_eval
      md5_mix_def md5_idx_def md5_K_def md5_S_def rotl32_def hex_def hexdigit_def
      del: md5_step.simps md5_block.simps)

lemma length_md5: "length (md5 msg) = 16"
  by (simp add: md5_def put_uint32_def split: prod.splits)

lemma length_hex: "length (hex bs) = 2 * length bs"
  by (induction bs) (simp_all add: hex_def)

lemma hexdigit_lower: "n < 16 \<Longrightarrow> hexdigit n \<in> set ''0123456789abcdef''"
  unfolding hexdigit_def by (rule nth_mem) simp

lemma set_hex: "set (hex bs) \<subseteq> set ''0123456789abcdef''"
proof -
  define S where "S = set ''0123456789abcdef''"
  have "unat b div 16 < 16" for b :: byte
    using unsigned_less [of b, where ?'a = nat] by simp
  then have "hexdigit (unat b div 16) \<in> S \<and> hexdigit (unat b mod 16) \<in> S" for b :: byte
    unfolding S_def by (intro conjI hexdigit_lower) simp_all
  then have "set (hex bs) \<subseteq> S"
    by (auto simp: hex_def)
  then show ?thesis
    by (simp only: S_def)
qed

text \<open>
  Claim C2. For a regular file that can be opened for reading and read to its end,
  \<^verbatim>\<open>Md5Sum\<close> returns the MD5 digest of the content as 32 lowercase hexadecimal digits;
  for a file holding the bytes of \<^verbatim>\<open>hello\<close> that is
  \<^verbatim>\<open>5d41402abc4b2a76b9719d911017c592\<close>. It returns the empty string for a path that
  is not a regular file, for a regular file that cannot be opened (no read permission)
  and for one that cannot be read to its end (a read error before the end).
\<close>

theorem Md5Sum_spec:
  "(entry_at fs p = Some (Reg f) \<and> owner_can_read (perm f) \<and> \<not> faulty f \<longrightarrow>
      fst (Md5Sum fs p) = hex (md5 (content f)) \<and>
      length (fst (Md5Sum fs p)) = 32 \<and>
      set (fst (Md5Sum fs p)) \<subseteq> set ''0123456789abcdef'') \<and>
   (entry_at fs p = Some (Reg f) \<and> owner_can_read (perm f) \<and> \<not> faulty f \<and>
    content f = [0x68, 0x65, 0x6c, 0x6c, 0x6f] \<longrightarrow>
      fst (Md5Sum fs p) = ''5d41402abc4b2a76b9719d911017c592'') \<and>
   (\<not> IsRegularFile fs p \<longrightarrow> fst (Md5Sum fs p) = '''') \<and>
   (entry_at fs p = Some (Reg f) \<and> \<not> owner_can_read (perm f) \<longrightarrow> fst (Md5Sum fs p) = '''') \<and>
   (entry_at fs p = Some (Reg f) \<and> faulty f \<longrightarrow> fst (Md5Sum fs p) = '''')"
  using md5_hello set_hex [of "md5 (content f)"]
  by (simp add: Md5Sum_Reg Md5Sum_not_regular length_hex length_md5 del: set_simps list.set)

lemma example_entries:
  "entry_at example_fs (Rel [''a.txt'']) =
     Some (Reg \<lparr>content = [0x68, 0x65, 0x6c, 0x6c, 0x6f], perm = 420, fault = None\<rparr>)"
  "entry_at example_fs (Rel [''secret'']) = Some (Reg \<lparr>content = [7], perm = 0, fault = None\<rparr>)"
  "entry_at example_fs (Rel [''bad'']) =
     Some (Reg \<lparr>content = [1, 2, 3, 4], perm = 420, fault = Some 2\<rparr>)"
  "entry_at example_fs (Rel [''sock'']) = Some Special"
  "entry_at example_fs (Rel [''d'']) = Some (Dir 493 [])"
  "entry_at example_fs (Rel [''d'', ''x'']) = Some (Reg \<lparr>content = [1, 2, 3], perm = 420, fault = None\<rparr>)"
  "entry_at example_fs (Rel [''nope'']) = None"
  "entry_at example_fs (Rel [''ro'']) = Some (Dir 365 [])"
  "entry_at example_fs (Rel [''ro'', ''f'']) = Some (Reg \<lparr>content = [9], perm = 420, fault = None\<rparr>)"
  "entry_at example_fs (Rel []) = Some (Dir 493 [])"
  by (simp_all add: entry_at_def entry_def root_def example_fs_def owner_can_search_def)

lemma perm_facts:
  "owner_can_read 420" "owner_can_write 420" "\<not> owner_can_read 0" "owner_can_read perm_0755"
  "owner_can_write perm_0755" "owner_can_search 493" "owner_can_write 493" "owner_can_read 493"
  "owner_can_search 365" "\<not> owner_can_write 365"
  by (simp_all add: owner_can_read_def owner_can_write_def owner_can_search_def perm_0755_def)

theorem Md5Sum_spec_witness:
  "fst (Md5Sum example_fs (Rel [''a.txt''])) = ''5d41402abc4b2a76b9719d911017c592'' \<and>
   \<not> IsRegularFile example_fs (Rel [''d'']) \<and> fst (Md5Sum example_fs (Rel [''d''])) = '''' \<and>
   \<not> IsRegularFile example_fs (Rel [''nope'']) \<and> fst (Md5Sum example_fs (Rel [''nope''])) = '''' \<and>
   IsRegularFile example_fs (Rel [''secret'']) \<and> fst (Md5Sum example_fs (Rel [''secret''])) = '''' \<and>
   IsRegularFile example_fs (Rel [''bad'']) \<and> fst (Md5Sum example_fs (Rel [''bad''])) = ''''"
  using
    Md5Sum_spec [of example_fs "Rel [''a.txt'']" "\<lparr>content = [0x68, 0x65, 0x6c, 0x6c, 0x6f], perm = 420, fault = None\<rparr>"]
    Md5Sum_spec [of example_fs "Rel [''d'']"]
    Md5Sum_spec [of example_fs "Rel [''nope'']"]
    Md5Sum_spec [of example_fs "Rel [''secret'']" "\<lparr>content = [7], perm = 0, fault = None\<rparr>"]
    Md5Sum_spec [of example_fs "Rel [''bad'']" "\<lparr>content = [1, 2, 3, 4], perm = 420, fault = Some 2\<rparr>"]
  by (auto simp: example_entries perm_facts IsRegularFile_entry faulty_def readable_part_def)

section \<open>Moving files\<close>

lemma entry_at_cong: "components q = components p \<Longrightarrow> entry_at fs q = entry_at fs p"
  by (simp add: entry_at_def)

lemma not_Dir_leaf: "\<not> is_Dir n \<Longrightarrow> leaf n"
  by (cases n) auto

lemma shallow_not_Dir: "\<not> is_Dir n \<Longrightarrow> shallow n = n"
  by (cases n) auto

lemma move_entry_Reg:
  assumes src: "lookup (root fs) old = Inr (Reg f)"
    and mv: "move_entry fs old new (Reg f) = (None, fs')"
    and ne: "old \<noteq> new"
    and dst: "\<And>n. lookup (root fs) new = Inr n \<Longrightarrow> \<not> is_Dir n"
  shows "entry (root fs') q =
     (if q = new then Some (Reg f) else if q = old then None else entry (root fs) q)"
proof -
  from mv obtain t1 t2 x where t1: "alter (root fs) old None = Inr t1"
    and t2: "alter t1 new (Some (Reg f)) = Inr t2"
    and fs': "fs' = (set_root fs t2)\<lparr>free_space := x\<rparr>"
    by (auto simp: move_entry_def split: sum.splits option.splits)
  have r: "root fs' = t2"
    using alter_is_Dir [OF t2] by (auto simp: fs' intro: root_set_root)
  have e1: "entry t1 q = (if q = old then None else entry (root fs) q)" for q
    using alter_same [OF t1] alter_leaf [OF t1, of q] src by auto
  have l1: "leaf n" if "lookup t1 new = Inr n" for n
  proof -
    have "entry (root fs) new = Some (shallow n)"
      using that ne e1 [of new] by (simp add: entry_def)
    then obtain n' where n': "lookup (root fs) new = Inr n'" "shallow n' = shallow n"
      by (auto simp: entry_def split: sum.splits)
    then have "\<not> is_Dir n'" by (auto dest: dst)
    then have "\<not> is_Dir n"
      using n'(2) is_Dir_shallow [of n] is_Dir_shallow [of n'] by simp
    then show ?thesis by (rule not_Dir_leaf)
  qed
  have "entry t2 q = (if q = new then Some (Reg f) else entry t1 q)"
    using alter_same [OF t2] alter_leaf [OF t2, of q] l1 by auto
  then show ?thesis
    by (simp add: r e1)
qed

lemma os_Rename_Reg:
  assumes src: "lookup (root fs) (components old) = Inr (Reg f)"
    and mv: "os_Rename fs old new = (None, fs')"
    and ne: "components old \<noteq> components new"
  shows "entry_at fs' q =
     (if components q = components new then Some (Reg f)
      else if components q = components old then None else entry_at fs q)"
proof -
  have "move_entry fs (components old) (components new) (Reg f) = (None, fs') \<and>
    (\<forall>n. lookup (root fs) (components new) = Inr n \<longrightarrow> \<not> is_Dir n)"
    using mv src ne
    by (auto simp: os_Rename_def Let_def split: sum.splits node.splits if_splits)
  then show ?thesis
    using move_entry_Reg [OF src _ ne, of fs' "components q"] by (simp add: entry_at_def)
qed

lemma os_Rename_missing:
  "os_Stat fs old = Inl e \<Longrightarrow> os_Rename fs old new = (Some (OSError e), fs)"
  by (simp add: os_Rename_def os_Stat_Inl)

lemma os_Rename_denied:
  assumes src: "entry_at fs old = Some (Reg f)" and dst: "os_Stat fs new = Inl ENOENT"
    and w: "\<not> dir_writable fs (filepath_Dir old)"
  shows "os_Rename fs old new = (Some (OSError EACCES), fs)"
proof -
  have l: "lookup (root fs) (components old) = Inr (Reg f)"
    using src by (simp add: entry_at_Reg)
  then have ne: "components old \<noteq> []"
    by (auto simp: root_def)
  have "check_parent (root fs) (components old) = Some EACCES"
    using check_parent_exists [OF l ne] check_parent_dir_writable [of fs old] w
    by (auto split: if_splits)
  then show ?thesis
    using l dst by (simp add: os_Rename_def os_Stat_Inl move_entry_def)
qed

lemma os_Rename_ok:
  assumes src: "entry_at fs old = Some (Reg f)" and dst: "os_Stat fs new = Inl ENOENT"
    and wo: "dir_writable fs (filepath_Dir old)" and wn: "dir_writable fs (filepath_Dir new)"
  shows "fst (os_Rename fs old new) = None"
proof -
  have l: "lookup (root fs) (components old) = Inr (Reg f)"
    using src by (simp add: entry_at_Reg)
  then have ne: "components old \<noteq> []"
    by (auto simp: root_def)
  have ln: "lookup (root fs) (components new) = Inl ENOENT"
    using dst by (simp add: os_Stat_Inl)
  then have nn: "components new \<noteq> []"
    by auto
  have co: "check_parent (root fs) (components old) = None"
    and cn: "check_parent (root fs) (components new) = None"
    using wo wn by (simp_all add: check_parent_dir_writable)
  obtain t1 where t1: "alter (root fs) (components old) None = Inr t1"
    using lookup_exists_alter [OF l ne] by blast
  from cn obtain m es where pn: "lookup (root fs) (butlast (components new)) = Inr (Dir m es)"
    by (auto simp: check_parent_def split: sum.splits node.splits if_splits)
  from ln nn have "lookup (root fs) (butlast (components new) @ [last (components new)]) = Inl ENOENT"
    by simp
  from lookup_snoc_ENOENT [OF this] pn have s: "owner_can_search m"
    by auto
  have "butlast (components new) \<noteq> components old"
    using pn l by auto
  then have "entry t1 (butlast (components new)) = entry (root fs) (butlast (components new))"
    using alter_leaf [OF t1, of "butlast (components new)"] l by auto
  then obtain es' where "lookup t1 (butlast (components new)) = Inr (Dir m es')"
    using pn by (auto simp: entry_def split: sum.splits elim!: shallow.elims)
  from alter_ok [OF this s, of "last (components new)" "Some (Reg f)"] nn
  obtain t2 where t2: "alter t1 (components new) (Some (Reg f)) = Inr t2"
    by auto
  show ?thesis
    using l ln co cn t1 t2 by (simp add: os_Rename_def move_entry_def)
qed

lemma os_Rename_fails_unchanged: "fst (os_Rename fs old new) \<noteq> None \<Longrightarrow> snd (os_Rename fs old new) = fs"
  by (auto simp: os_Rename_def move_entry_def Let_def
      split: sum.splits node.splits option.splits if_splits)

lemma MoveFile_not_regular: "\<not> IsRegularFile fs src \<Longrightarrow> MoveFile fs src dst = (Some NotRegularFile, fs)"
  by (simp add: MoveFile_def)

lemma MoveFile_delete_fails:
  assumes "IsRegularFile fs src" and "PathExist fs dst" and "\<not> IsDir fs dst"
    and "\<not> dir_writable fs (filepath_Dir dst)"
  shows "MoveFile fs src dst = (Some (OSError EACCES), fs)"
  using assms DeleteFile_file(1) [of fs dst] by (simp add: MoveFile_def)

lemma MoveFile_delete_first:
  assumes "IsRegularFile fs src" and "PathExist fs dst" and "\<not> IsDir fs dst"
    and "dir_writable fs (filepath_Dir dst)"
  shows "MoveFile fs src dst = os_Rename (snd (DeleteFile fs dst)) src dst"
proof -
  have "fst (DeleteFile fs dst) = None"
    using DeleteFile_file(2) [OF assms(2,3,4)] by blast
  then show ?thesis
    using assms by (cases "DeleteFile fs dst") (simp add: MoveFile_def)
qed

lemma MoveFile_success:
  assumes src: "entry_at fs src = Some (Reg f)" and mv: "MoveFile fs src dst = (None, fs')"
  shows "components src \<noteq> components dst \<and>
    entry_at fs' q =
     (if components q = components dst then Some (Reg f)
      else if components q = components src then None else entry_at fs q)"
proof (cases "PathExist fs dst \<and> \<not> IsDir fs dst")
  case True
  have reg: "IsRegularFile fs src"
    using src by (auto simp: IsRegularFile_entry)
  have w: "dir_writable fs (filepath_Dir dst)"
  proof (rule ccontr)
    assume "\<not> dir_writable fs (filepath_Dir dst)"
    with True have "MoveFile fs src dst = (Some (OSError EACCES), fs)"
      by (intro MoveFile_delete_fails [OF reg]) simp_all
    with mv show False by simp
  qed
  define fs1 where "fs1 = snd (DeleteFile fs dst)"
  have e1: "entry_at fs1 r = (if components r = components dst then None else entry_at fs r)" for r
    using True w DeleteFile_file(2) [of fs dst r] by (simp add: fs1_def)
  have s1: "os_Stat fs1 dst = Inl ENOENT"
    using True w DeleteFile_file(2) [of fs dst] by (simp add: fs1_def)
  have rn: "os_Rename fs1 src dst = (None, fs')"
    using mv MoveFile_delete_first [OF reg _ _ w] True by (simp add: fs1_def)
  have ne: "components src \<noteq> components dst"
  proof
    assume "components src = components dst"
    then have "os_Stat fs1 src = Inl ENOENT"
      using s1 by (simp add: os_Stat_def)
    from os_Rename_missing [OF this, of dst] rn show False by simp
  qed
  have "entry_at fs1 src = Some (Reg f)"
    using src ne e1 [of src] by simp
  then have "lookup (root fs1) (components src) = Inr (Reg f)"
    by (simp add: entry_at_Reg)
  from os_Rename_Reg [OF this rn ne, of q] show ?thesis
    using ne by (auto simp: e1)
next
  case False
  then have rn: "os_Rename fs src dst = (None, fs')"
    using mv src by (auto simp: MoveFile_def IsRegularFile_entry)
  have ne: "components src \<noteq> components dst"
    using False src entry_at_cong [of dst src fs] by (auto simp: PathExist_entry IsDir_entry)
  show ?thesis
    using os_Rename_Reg [OF _ rn ne, of f q] src ne by (simp add: entry_at_Reg)
qed

lemma MoveFile_overwrite:
  assumes src: "entry_at fs src = Some (Reg f)" and ex: "PathExist fs dst" and nd: "\<not> IsDir fs dst"
    and wd: "dir_writable fs (filepath_Dir dst)"
  shows "components src \<noteq> components dst \<Longrightarrow> dir_writable fs (filepath_Dir src) \<Longrightarrow>
      fst (MoveFile fs src dst) = None"
    and "\<not> dir_writable fs (filepath_Dir src) \<Longrightarrow>
      MoveFile fs src dst = (Some (OSError EACCES), snd (DeleteFile fs dst))"
    and "components src = components dst \<Longrightarrow>
      MoveFile fs src dst = (Some (OSError ENOENT), snd (DeleteFile fs dst))"
    and "fst (MoveFile fs src dst) \<noteq> None \<Longrightarrow> \<not> PathExist (snd (MoveFile fs src dst)) dst"
proof -
  have reg: "IsRegularFile fs src"
    using src by (auto simp: IsRegularFile_entry)
  define fs1 where "fs1 = snd (DeleteFile fs dst)"
  have mv: "MoveFile fs src dst = os_Rename fs1 src dst"
    unfolding fs1_def using reg ex nd wd by (rule MoveFile_delete_first)
  have e1: "entry_at fs1 r = (if components r = components dst then None else entry_at fs r)" for r
    using ex nd wd DeleteFile_file(2) [of fs dst r] by (simp add: fs1_def)
  have s1: "os_Stat fs1 dst = Inl ENOENT"
    using ex nd wd DeleteFile_file(2) [of fs dst] by (simp add: fs1_def)
  have w1: "dir_writable fs1 d = dir_writable fs d" for d
    unfolding fs1_def by (rule DeleteFile_dir_writable)
  show "fst (MoveFile fs src dst) = None"
    if "components src \<noteq> components dst" "dir_writable fs (filepath_Dir src)"
    unfolding mv using that src wd s1 by (intro os_Rename_ok [of fs1 src f]) (simp_all add: e1 w1)
  show "MoveFile fs src dst = (Some (OSError EACCES), snd (DeleteFile fs dst))"
    if nw: "\<not> dir_writable fs (filepath_Dir src)"
  proof -
    have "components src \<noteq> components dst"
      using nw wd dir_writable_cong [of src dst fs] by auto
    then have "entry_at fs1 src = Some (Reg f)"
      using src by (simp add: e1)
    moreover have "\<not> dir_writable fs1 (filepath_Dir src)"
      using nw by (simp add: w1)
    ultimately have "os_Rename fs1 src dst = (Some (OSError EACCES), fs1)"
      using s1 by (intro os_Rename_denied)
    then show ?thesis
      by (simp add: mv fs1_def)
  qed
  show "MoveFile fs src dst = (Some (OSError ENOENT), snd (DeleteFile fs dst))"
    if "components src = components dst"
  proof -
    from that have "os_Stat fs1 src = Inl ENOENT"
      using s1 by (simp add: os_Stat_def)
    from os_Rename_missing [OF this, of dst] show ?thesis
      by (simp add: mv fs1_def)
  qed
  show "\<not> PathExist (snd (MoveFile fs src dst)) dst" if "fst (MoveFile fs src dst) \<noteq> None"
  proof -
    from that have "snd (MoveFile fs src dst) = fs1"
      unfolding mv by (rule os_Rename_fails_unchanged)
    then show ?thesis
      by (simp add: PathExist_entry e1)
  qed
qed

lemma Md5Sum_entry_cong:
  "entry_at fs' q = entry_at fs p \<Longrightarrow> fst (Md5Sum fs' q) = fst (Md5Sum fs p)"
  by (cases "IsRegularFile fs p")
     (auto simp: Md5Sum_not_regular IsRegularFile_entry Md5Sum_Reg)

lemma example_writable:
  "dir_writable example_fs (filepath_Dir (Rel [''a.txt'']))"
  "dir_writable example_fs (filepath_Dir (Rel [''d'', ''x'']))"
  "\<not> dir_writable example_fs (filepath_Dir (Rel [''ro'', ''f'']))"
  "dir_writable example_fs (filepath_Dir (Rel [''secret'']))"
  "dir_writable example_fs (filepath_Dir (Rel [''z'']))"
  by (simp_all add: dir_writable_def entry_at_def entry_def root_def example_fs_def
      owner_can_search_def owner_can_write_def)

lemma example_kinds:
  "IsRegularFile example_fs (Rel [''a.txt''])" "IsRegularFile example_fs (Rel [''ro'', ''f''])"
  "IsRegularFile example_fs (Rel [''secret''])" "\<not> IsRegularFile example_fs (Rel [''sock''])"
  "PathExist example_fs (Rel [''a.txt''])" "\<not> IsDir example_fs (Rel [''a.txt''])"
  "PathExist example_fs (Rel [''d'', ''x''])" "\<not> IsDir example_fs (Rel [''d'', ''x''])"
  "PathExist example_fs (Rel [''ro'', ''f''])" "\<not> IsDir example_fs (Rel [''ro'', ''f''])"
  "\<not> PathExist example_fs (Rel [''z''])" "os_Stat example_fs (Rel [''z'']) = Inl ENOENT"
  by (simp_all add: IsRegularFile_def PathExist_def IsDir_def os_Stat_def root_def example_fs_def
      owner_can_search_def)

text \<open>
  Claim C3 as stated fails where the directory of \<open>dst\<close> cannot be written: \<open>dst\<close>
  exists and is not a directory, yet it is not deleted. On the example filesystem, the
  move of \<^verbatim>\<open>a.txt\<close> to \<^verbatim>\<open>ro/f\<close> returns the \<^verbatim>\<open>EACCES\<close> of \<^verbatim>\<open>DeleteFile\<close> and changes
  nothing: \<^verbatim>\<open>ro/f\<close> is the file it was.
\<close>

theorem MoveFile_spec_counterexample:
  "IsRegularFile example_fs (Rel [''a.txt'']) \<and>
   PathExist example_fs (Rel [''ro'', ''f'']) \<and> \<not> IsDir example_fs (Rel [''ro'', ''f'']) \<and>
   MoveFile example_fs (Rel [''a.txt'']) (Rel [''ro'', ''f'']) = (Some (OSError EACCES), example_fs) \<and>
   entry_at (snd (MoveFile example_fs (Rel [''a.txt'']) (Rel [''ro'', ''f'']))) (Rel [''ro'', ''f'']) =
     Some (Reg \<lparr>content = [9], perm = 420, fault = None\<rparr>)"
proof -
  have "MoveFile example_fs (Rel [''a.txt'']) (Rel [''ro'', ''f'']) = (Some (OSError EACCES), example_fs)"
    using example_kinds(1,9,10) example_writable(3) by (rule MoveFile_delete_fails)
  then show ?thesis
    using example_kinds example_entries by simp
qed

text \<open>
  Claim C3, amended. For paths in cleaned form, \<^verbatim>\<open>MoveFile(src, dst)\<close> fails with
  \<open>NotRegularFile\<close> when \<open>src\<close> is not a regular file. When \<open>src\<close> is a regular file and
  the call succeeds, \<open>src\<close> no longer exists afterwards, \<open>dst\<close> is the file that \<open>src\<close>
  was, the digest \<^verbatim>\<open>Md5Sum\<close> computes for \<open>dst\<close> is the one it computed for \<open>src\<close>
  before the move, and every other path names what it named before. When \<open>dst\<close> exists
  and is not a directory, \<^verbatim>\<open>DeleteFile(dst)\<close> is called first. If the directory of
  \<open>dst\<close> does not grant write permission, that fails, and \<^verbatim>\<open>MoveFile\<close> returns its error
  \<^verbatim>\<open>EACCES\<close> without changing anything. If it does, \<open>dst\<close> is deleted and the rename runs
  on the filesystem without it: the rename succeeds when \<open>src\<close> is another path in a
  directory that grants write permission; it fails with \<^verbatim>\<open>EACCES\<close> when the directory
  of \<open>src\<close> does not, and with \<^verbatim>\<open>ENOENT\<close> when \<open>src\<close> and \<open>dst\<close> are the same path; and
  whenever it fails, the file that was at \<open>dst\<close> is gone all the same.
\<close>

theorem MoveFile_spec:
  assumes "valid_path src" and "valid_path dst"
  shows
  "(\<not> IsRegularFile fs src \<longrightarrow> MoveFile fs src dst = (Some NotRegularFile, fs)) \<and>
   (entry_at fs src = Some (Reg f) \<and> fst (MoveFile fs src dst) = None \<longrightarrow>
      \<not> PathExist (snd (MoveFile fs src dst)) src \<and>
      entry_at (snd (MoveFile fs src dst)) dst = Some (Reg f) \<and>
      fst (Md5Sum (snd (MoveFile fs src dst)) dst) = fst (Md5Sum fs src) \<and>
      (\<forall>q. valid_path q \<and> components q \<noteq> components src \<and> components q \<noteq> components dst \<longrightarrow>
         entry_at (snd (MoveFile fs src dst)) q = entry_at fs q)) \<and>
   (IsRegularFile fs src \<and> PathExist fs dst \<and> \<not> IsDir fs dst \<and>
    \<not> dir_writable fs (filepath_Dir dst) \<longrightarrow>
      MoveFile fs src dst = (Some (OSError EACCES), fs)) \<and>
   (IsRegularFile fs src \<and> PathExist fs dst \<and> \<not> IsDir fs dst \<and>
    dir_writable fs (filepath_Dir dst) \<longrightarrow>
      MoveFile fs src dst = os_Rename (snd (DeleteFile fs dst)) src dst \<and>
      (components src \<noteq> components dst \<and> dir_writable fs (filepath_Dir src) \<longrightarrow>
         fst (MoveFile fs src dst) = None) \<and>
      (\<not> dir_writable fs (filepath_Dir src) \<longrightarrow>
         MoveFile fs src dst = (Some (OSError EACCES), snd (DeleteFile fs dst))) \<and>
      (components src = components dst \<longrightarrow>
         MoveFile fs src dst = (Some (OSError ENOENT), snd (DeleteFile fs dst))) \<and>
      (fst (MoveFile fs src dst) \<noteq> None \<longrightarrow> \<not> PathExist (snd (MoveFile fs src dst)) dst))"
proof (intro conjI impI allI)
  assume "\<not> IsRegularFile fs src"
  then show "MoveFile fs src dst = (Some NotRegularFile, fs)"
    by (rule MoveFile_not_regular)
next
  assume a: "entry_at fs src = Some (Reg f) \<and> fst (MoveFile fs src dst) = None"
  then have mv: "MoveFile fs src dst = (None, snd (MoveFile fs src dst))"
    by (simp add: prod_eq_iff)
  note s = MoveFile_success [OF conjunct1 [OF a] mv]
  show "\<not> PathExist (snd (MoveFile fs src dst)) src"
    using s [of src] by (simp add: PathExist_entry)
  show d: "entry_at (snd (MoveFile fs src dst)) dst = Some (Reg f)"
    using s [of dst] by simp
  show "fst (Md5Sum (snd (MoveFile fs src dst)) dst) = fst (Md5Sum fs src)"
    using a d by (intro Md5Sum_entry_cong) simp
  show "entry_at (snd (MoveFile fs src dst)) q = entry_at fs q"
    if "valid_path q \<and> components q \<noteq> components src \<and> components q \<noteq> components dst" for q
    using s [of q] that by simp
next
  assume "IsRegularFile fs src \<and> PathExist fs dst \<and> \<not> IsDir fs dst \<and>
    \<not> dir_writable fs (filepath_Dir dst)"
  then show "MoveFile fs src dst = (Some (OSError EACCES), fs)"
    by (simp add: MoveFile_delete_fails)
next
  assume a: "IsRegularFile fs src \<and> PathExist fs dst \<and> \<not> IsDir fs dst \<and>
    dir_writable fs (filepath_Dir dst)"
  then obtain g where g: "entry_at fs src = Some (Reg g)"
    by (auto simp: IsRegularFile_entry)
  from a have b: "PathExist fs dst" "\<not> IsDir fs dst" "dir_writable fs (filepath_Dir dst)"
    by simp_all
  show "MoveFile fs src dst = os_Rename (snd (DeleteFile fs dst)) src dst"
    using a by (simp add: MoveFile_delete_first)
  show "fst (MoveFile fs src dst) = None"
    if "components src \<noteq> components dst \<and> dir_writable fs (filepath_Dir src)"
    using MoveFile_overwrite(1) [OF g b] that by simp
  show "MoveFile fs src dst = (Some (OSError EACCES), snd (DeleteFile fs dst))"
    if "\<not> dir_writable fs (filepath_Dir src)"
    using that by (rule MoveFile_overwrite(2) [OF g b])
  show "MoveFile fs src dst = (Some (OSError ENOENT), snd (DeleteFile fs dst))"
    if "components src = components dst"
    using that by (rule MoveFile_overwrite(3) [OF g b])
  show "\<not> PathExist (snd (MoveFile fs src dst)) dst" if "fst (MoveFile fs src dst) \<noteq> None"
    using that by (rule MoveFile_overwrite(4) [OF g b])
qed

text \<open>
  On the example filesystem: the socket \<^verbatim>\<open>sock\<close> is not moved; \<^verbatim>\<open>a.txt\<close> replaces
  the file \<^verbatim>\<open>d/x\<close>, and \<^verbatim>\<open>secret\<close> is left alone; \<^verbatim>\<open>a.txt\<close> cannot replace \<^verbatim>\<open>ro/f\<close>,
  which cannot be deleted; the move of \<^verbatim>\<open>ro/f\<close> to \<^verbatim>\<open>a.txt\<close> fails after \<^verbatim>\<open>a.txt\<close> has
  been deleted; and the move of \<^verbatim>\<open>a.txt\<close> to itself deletes it and fails.
\<close>

theorem MoveFile_spec_witness:
  "valid_path (Rel [''sock'']) \<and> valid_path (Rel [''z'']) \<and>
   \<not> IsRegularFile example_fs (Rel [''sock'']) \<and>
   MoveFile example_fs (Rel [''sock'']) (Rel [''z'']) = (Some NotRegularFile, example_fs) \<and>
   valid_path (Rel [''a.txt'']) \<and> valid_path (Rel [''d'', ''x'']) \<and>
   entry_at example_fs (Rel [''a.txt'']) =
     Some (Reg \<lparr>content = [0x68, 0x65, 0x6c, 0x6c, 0x6f], perm = 420, fault = None\<rparr>) \<and>
   IsRegularFile example_fs (Rel [''a.txt'']) \<and>
   PathExist example_fs (Rel [''d'', ''x'']) \<and> \<not> IsDir example_fs (Rel [''d'', ''x'']) \<and>
   dir_writable example_fs (filepath_Dir (Rel [''d'', ''x''])) \<and>
   components (Rel [''a.txt'']) \<noteq> components (Rel [''d'', ''x'']) \<and>
   dir_writable example_fs (filepath_Dir (Rel [''a.txt''])) \<and>
   fst (MoveFile example_fs (Rel [''a.txt'']) (Rel [''d'', ''x''])) = None \<and>
   \<not> PathExist (snd (MoveFile example_fs (Rel [''a.txt'']) (Rel [''d'', ''x'']))) (Rel [''a.txt'']) \<and>
   entry_at (snd (MoveFile example_fs (Rel [''a.txt'']) (Rel [''d'', ''x'']))) (Rel [''d'', ''x'']) =
     Some (Reg \<lparr>content = [0x68, 0x65, 0x6c, 0x6c, 0x6f], perm = 420, fault = None\<rparr>) \<and>
   fst (Md5Sum (snd (MoveFile example_fs (Rel [''a.txt'']) (Rel [''d'', ''x'']))) (Rel [''d'', ''x''])) =
     fst (Md5Sum example_fs (Rel [''a.txt''])) \<and>
   valid_path (Rel [''secret'']) \<and>
   entry_at (snd (MoveFile example_fs (Rel [''a.txt'']) (Rel [''d'', ''x'']))) (Rel [''secret'']) =
     Some (Reg \<lparr>content = [7], perm = 0, fault = None\<rparr>) \<and>
   valid_path (Rel [''ro'', ''f'']) \<and>
   PathExist example_fs (Rel [''ro'', ''f'']) \<and> \<not> IsDir example_fs (Rel [''ro'', ''f'']) \<and>
   \<not> dir_writable example_fs (filepath_Dir (Rel [''ro'', ''f''])) \<and>
   MoveFile example_fs (Rel [''a.txt'']) (Rel [''ro'', ''f'']) = (Some (OSError EACCES), example_fs) \<and>
   IsRegularFile example_fs (Rel [''ro'', ''f'']) \<and>
   PathExist example_fs (Rel [''a.txt'']) \<and> \<not> IsDir example_fs (Rel [''a.txt'']) \<and>
   MoveFile example_fs (Rel [''ro'', ''f'']) (Rel [''a.txt'']) =
     (Some (OSError EACCES), snd (DeleteFile example_fs (Rel [''a.txt'']))) \<and>
   \<not> PathExist (snd (MoveFile example_fs (Rel [''ro'', ''f'']) (Rel [''a.txt'']))) (Rel [''a.txt'']) \<and>
   MoveFile example_fs (Rel [''a.txt'']) (Rel [''a.txt'']) =
     (Some (OSError ENOENT), snd (DeleteFile example_fs (Rel [''a.txt'']))) \<and>
   \<not> PathExist (snd (MoveFile example_fs (Rel [''a.txt'']) (Rel [''a.txt'']))) (Rel [''a.txt''])"
proof -
  have v: "valid_path (Rel [''sock''])" "valid_path (Rel [''z''])" "valid_path (Rel [''a.txt''])"
    "valid_path (Rel [''d'', ''x''])" "valid_path (Rel [''secret''])" "valid_path (Rel [''ro'', ''f''])"
    by (simp_all add: valid_path_def valid_name_def)
  have ne: "components (Rel [''a.txt'']) \<noteq> components (Rel [''d'', ''x''])"
    "components (Rel [''secret'']) \<noteq> components (Rel [''a.txt''])"
    "components (Rel [''secret'']) \<noteq> components (Rel [''d'', ''x''])"
    "components (Rel [''a.txt'']) = components (Rel [''a.txt''])"
    by simp_all
  note k = example_kinds
  note w = example_writable
  note a = MoveFile_spec [OF v(1) v(2), of example_fs]
  note b = MoveFile_spec [OF v(3) v(4), of example_fs
        "\<lparr>content = [0x68, 0x65, 0x6c, 0x6c, 0x6f], perm = 420, fault = None\<rparr>"]
  note c = MoveFile_spec [OF v(3) v(6), of example_fs]
  note d = MoveFile_spec [OF v(6) v(3), of example_fs]
  note e = MoveFile_spec [OF v(3) v(3), of example_fs]
  from a k(4) have 1: "MoveFile example_fs (Rel [''sock'']) (Rel [''z'']) = (Some NotRegularFile, example_fs)"
    by blast
  from b k(1,7,8) w(1,2) ne(1)
  have 2: "fst (MoveFile example_fs (Rel [''a.txt'']) (Rel [''d'', ''x''])) = None"
    by blast
  from b 2 example_entries(1)
  have 3: "\<not> PathExist (snd (MoveFile example_fs (Rel [''a.txt'']) (Rel [''d'', ''x'']))) (Rel [''a.txt''])"
    "entry_at (snd (MoveFile example_fs (Rel [''a.txt'']) (Rel [''d'', ''x'']))) (Rel [''d'', ''x'']) =
       Some (Reg \<lparr>content = [0x68, 0x65, 0x6c, 0x6c, 0x6f], perm = 420, fault = None\<rparr>)"
    "fst (Md5Sum (snd (MoveFile example_fs (Rel [''a.txt'']) (Rel [''d'', ''x'']))) (Rel [''d'', ''x''])) =
       fst (Md5Sum example_fs (Rel [''a.txt'']))"
    "\<forall>q. valid_path q \<and> components q \<noteq> components (Rel [''a.txt'']) \<and>
        components q \<noteq> components (Rel [''d'', ''x'']) \<longrightarrow>
      entry_at (snd (MoveFile example_fs (Rel [''a.txt'']) (Rel [''d'', ''x'']))) q = entry_at example_fs q"
    by blast+
  from 3(4) v(5) ne(2,3)
  have "entry_at (snd (MoveFile example_fs (Rel [''a.txt'']) (Rel [''d'', ''x'']))) (Rel [''secret'']) =
      entry_at example_fs (Rel [''secret''])"
    by blast
  then have 4: "entry_at (snd (MoveFile example_fs (Rel [''a.txt'']) (Rel [''d'', ''x'']))) (Rel [''secret'']) =
      Some (Reg \<lparr>content = [7], perm = 0, fault = None\<rparr>)"
    by (simp only: example_entries)
  from c k(1,9,10) w(3)
  have 5: "MoveFile example_fs (Rel [''a.txt'']) (Rel [''ro'', ''f'']) = (Some (OSError EACCES), example_fs)"
    by blast
  from d k(2,5,6) w(1,3)
  have 6: "MoveFile example_fs (Rel [''ro'', ''f'']) (Rel [''a.txt'']) =
      (Some (OSError EACCES), snd (DeleteFile example_fs (Rel [''a.txt''])))"
    by blast
  then have "fst (MoveFile example_fs (Rel [''ro'', ''f'']) (Rel [''a.txt''])) \<noteq> None"
    by simp
  with d k(2,5,6) w(1)
  have 7: "\<not> PathExist (snd (MoveFile example_fs (Rel [''ro'', ''f'']) (Rel [''a.txt'']))) (Rel [''a.txt''])"
    by blast
  from e k(1,5,6) w(1) ne(4)
  have 8: "MoveFile example_fs (Rel [''a.txt'']) (Rel [''a.txt'']) =
      (Some (OSError ENOENT), snd (DeleteFile example_fs (Rel [''a.txt''])))"
    by blast
  then have "fst (MoveFile example_fs (Rel [''a.txt'']) (Rel [''a.txt''])) \<noteq> None"
    by simp
  with e k(1,5,6) w(1)
  have 9: "\<not> PathExist (snd (MoveFile example_fs (Rel [''a.txt'']) (Rel [''a.txt'']))) (Rel [''a.txt''])"
    by blast
  from 1 2 3(1,2,3) 4 5 6 7 8 9 v k w ne(1) example_entries(1) show ?thesis
    by blast
qed

section \<open>Moving files after the digest check\<close>

text \<open>
  Claim C4. When \<open>src\<close> is a regular file and the digest \<^verbatim>\<open>Md5Sum\<close> computes for it
  differs from the expected one, \<^verbatim>\<open>MoveFileAfterCheckMd5\<close> fails with \<open>DigestMismatch\<close>
  and returns the filesystem as it was: neither \<open>src\<close> nor \<open>dst\<close> is touched.
\<close>

theorem MoveFileAfterCheckMd5_mismatch:
  "IsRegularFile fs src \<Longrightarrow> fst (Md5Sum fs src) \<noteq> expected \<Longrightarrow>
   MoveFileAfterCheckMd5 fs src dst expected = (Some DigestMismatch, fs)"
  using Md5Sum_state [of fs src]
  by (cases "Md5Sum fs src") (simp add: MoveFileAfterCheckMd5_def)

lemma Md5Sum_example_hello:
  "fst (Md5Sum example_fs (Rel [''a.txt''])) = ''5d41402abc4b2a76b9719d911017c592''"
  using md5_hello
  by (simp add: Md5Sum_Reg [OF example_entries(1)] perm_facts faulty_def readable_part_def)

theorem MoveFileAfterCheckMd5_mismatch_witness:
  "IsRegularFile example_fs (Rel [''a.txt'']) \<and>
   fst (Md5Sum example_fs (Rel [''a.txt''])) \<noteq> ''00000000000000000000000000000000'' \<and>
   MoveFileAfterCheckMd5 example_fs (Rel [''a.txt'']) (Rel [''d'', ''x''])
     ''00000000000000000000000000000000'' = (Some DigestMismatch, example_fs)"
proof -
  have r: "IsRegularFile example_fs (Rel [''a.txt''])"
    by (simp add: IsRegularFile_entry example_entries)
  have m: "fst (Md5Sum example_fs (Rel [''a.txt''])) \<noteq> ''00000000000000000000000000000000''"
    by (simp add: Md5Sum_example_hello)
  show ?thesis
    using MoveFileAfterCheckMd5_mismatch [OF r m, of "Rel [''d'', ''x'']"] r m by simp
qed

text \<open>
  Claim C9. When \<open>src\<close> is a regular file for which \<^verbatim>\<open>Md5Sum\<close> returns the empty
  string (the digest could not be computed) and the expected digest is the empty string,
  \<^verbatim>\<open>MoveFileAfterCheckMd5\<close> does not report a mismatch: it does what \<^verbatim>\<open>MoveFile\<close> does.
\<close>

theorem MoveFileAfterCheckMd5_empty_digest:
  "IsRegularFile fs src \<Longrightarrow> fst (Md5Sum fs src) = '''' \<Longrightarrow>
   MoveFileAfterCheckMd5 fs src dst '''' = MoveFile fs src dst"
  using Md5Sum_state [of fs src]
  by (cases "Md5Sum fs src") (simp add: MoveFileAfterCheckMd5_def)

text \<open>
  On the example filesystem the file \<^verbatim>\<open>secret\<close> cannot be opened, its digest is the
  empty string, and the call with the empty expected digest moves it to \<^verbatim>\<open>z\<close>.
\<close>

theorem MoveFileAfterCheckMd5_empty_digest_witness:
  "IsRegularFile example_fs (Rel [''secret'']) \<and>
   fst (Md5Sum example_fs (Rel [''secret''])) = '''' \<and>
   MoveFileAfterCheckMd5 example_fs (Rel [''secret'']) (Rel [''z'']) '''' =
     MoveFile example_fs (Rel [''secret'']) (Rel [''z'']) \<and>
   fst (MoveFileAfterCheckMd5 example_fs (Rel [''secret'']) (Rel [''z'']) '''') = None \<and>
   entry_at (snd (MoveFileAfterCheckMd5 example_fs (Rel [''secret'']) (Rel [''z'']) '''')) (Rel [''z'']) =
     Some (Reg \<lparr>content = [7], perm = 0, fault = None\<rparr>) \<and>
   entry_at (snd (MoveFileAfterCheckMd5 example_fs (Rel [''secret'']) (Rel [''z'']) '''')) (Rel [''secret'']) =
     None"
proof -
  have r: "IsRegularFile example_fs (Rel [''secret''])"
    by (simp add: IsRegularFile_entry example_entries)
  have m: "fst (Md5Sum example_fs (Rel [''secret''])) = ''''"
    by (simp add: Md5Sum_Reg [OF example_entries(2)] perm_facts)
  have mv: "MoveFile example_fs (Rel [''secret'']) (Rel [''z'']) =
      os_Rename example_fs (Rel [''secret'']) (Rel [''z''])"
    using r example_kinds(11) by (simp add: MoveFile_def)
  have ok: "fst (MoveFile example_fs (Rel [''secret'']) (Rel [''z''])) = None"
    unfolding mv using example_entries(2) example_kinds(12) example_writable(4,5)
    by (rule os_Rename_ok)
  then have "MoveFile example_fs (Rel [''secret'']) (Rel [''z'']) =
      (None, snd (MoveFile example_fs (Rel [''secret'']) (Rel [''z''])))"
    by (simp add: prod_eq_iff)
  note s = MoveFile_success [OF example_entries(2) this]
  have e: "entry_at (snd (MoveFile example_fs (Rel [''secret'']) (Rel [''z'']))) (Rel [''z'']) =
      Some (Reg \<lparr>content = [7], perm = 0, fault = None\<rparr>)"
    "entry_at (snd (MoveFile example_fs (Rel [''secret'']) (Rel [''z'']))) (Rel [''secret'']) = None"
    using s [of "Rel [''z'']"] s [of "Rel [''secret'']"] by simp_all
  show ?thesis
    using MoveFileAfterCheckMd5_empty_digest [OF r m, of "Rel [''z'']"] r m ok e
    by simp
qed

section \<open>Opening the destination of a copy\<close>

lemma copy_flags_facts [simp]:
  "wants_write copy_flags" "copy_flags AND O_CREATE \<noteq> 0" "copy_flags AND O_TRUNC \<noteq> 0"
  by (simp_all add: copy_flags_def wants_write_def O_WRONLY_def O_TRUNC_def O_CREATE_def O_RDONLY_def)

lemma not_prefix_butlast:
  assumes "xs \<noteq> []"
  shows "\<not> prefix xs (butlast xs)"
proof
  assume "prefix xs (butlast xs)"
  then have "length xs \<le> length (butlast xs)"
    by (rule prefix_length_le)
  moreover have "length (butlast xs) = length xs - 1"
    by (rule length_butlast)
  moreover have "length xs \<noteq> 0"
    using assms by simp
  ultimately show False
    by arith
qed

lemma lookup_prefix_exists:
  "lookup t p = Inr n \<Longrightarrow> prefix q p \<Longrightarrow> entry t q \<noteq> None"
  by (auto simp: prefix_def lookup_append entry_def split: sum.splits)

lemma lookup_snoc_Dir:
  "lookup t p = Inr (Dir m es) \<Longrightarrow> owner_can_search m \<Longrightarrow>
   lookup t (p @ [c]) = (case map_of es c of None \<Rightarrow> Inl ENOENT | Some ch \<Rightarrow> Inr ch)"
  by (simp add: lookup_append split: option.splits)

lemma stops_writable_snoc:
  "lookup t p = Inr (Dir m es) \<Longrightarrow> map_of es c = None \<Longrightarrow>
   stops_writable t (p @ [c]) = owner_can_write m"
  by (induction t p rule: lookup.induct) (auto split: option.splits if_splits)

lemma stops_writable_append:
  "lookup t p = Inl ENOENT \<Longrightarrow> stops_writable t (p @ q) = stops_writable t p"
  by (induction t p rule: lookup.induct) (auto split: option.splits if_splits)

lemma os_OpenFile_create:
  assumes par: "lookup (root fs) p = Inr (Dir m es)" and s: "owner_can_search m"
    and w: "owner_can_write m" and new: "entry_at fs dst = None"
    and dst: "components dst = p @ [c]"
  shows "\<exists>fs'. os_OpenFile fs dst copy_flags pm =
            (Inr \<lparr>fpath = components dst, fflag = copy_flags, foff = 0\<rparr>, fs') \<and>
          (\<forall>q. entry_at fs' q =
             (if components q = components dst
              then Some (Reg \<lparr>content = [], perm = created_mode fs pm, fault = None\<rparr>)
              else entry_at fs q)) \<and>
          umask fs' = umask fs \<and> free_space fs' = free_space fs \<and> written fs' = written fs"
proof -
  let ?n = "Reg \<lparr>content = [], perm = created_mode fs pm, fault = None\<rparr>"
  have l: "lookup (root fs) (components dst) = Inl ENOENT"
    using new lookup_snoc_Dir [OF par s, of c]
    by (auto simp: dst entry_at_def entry_def split: option.splits sum.splits)
  have cp: "check_parent (root fs) (components dst) = None"
    using par w by (simp add: check_parent_def dst)
  obtain t where t: "alter (root fs) (components dst) (Some ?n) = Inr t"
    using alter_ok [OF par s] unfolding dst by blast
  have "os_OpenFile fs dst copy_flags pm =
      (Inr \<lparr>fpath = components dst, fflag = copy_flags, foff = 0\<rparr>, set_root fs t)"
    using l t cp by (simp add: os_OpenFile_def put_node_def)
  moreover have "entry_at (set_root fs t) q =
             (if components q = components dst then Some ?n else entry_at fs q)" for q
    using alter_same [OF t] alter_leaf [OF t, of "components q"] l
    by (auto simp: entry_at_def root_alter [OF t])
  ultimately show ?thesis by simp
qed

lemma os_OpenFile_create_denied:
  assumes par: "lookup (root fs) p = Inr (Dir m es)" and s: "owner_can_search m"
    and w: "\<not> owner_can_write m" and new: "entry_at fs dst = None"
    and dst: "components dst = p @ [c]"
  shows "os_OpenFile fs dst copy_flags pm = (Inl (OSError EACCES), fs)"
proof -
  have l: "lookup (root fs) (components dst) = Inl ENOENT"
    using new lookup_snoc_Dir [OF par s, of c]
    by (auto simp: dst entry_at_def entry_def split: option.splits sum.splits)
  have cp: "check_parent (root fs) (components dst) = Some EACCES"
    using par w by (simp add: check_parent_def dst)
  show ?thesis
    using l cp by (simp add: os_OpenFile_def)
qed

text \<open>
  The filesystem in which \<^verbatim>\<open>OpenFile\<close> creates a missing file: the one that
  \<^verbatim>\<open>CreateDirectory\<close> leaves, in which the directory of the file exists.
\<close>

lemma OpenFile_parent:
  assumes absent: "os_Stat fs dst = Inl ENOENT"
    and near: "nearest_dir_writable fs dst"
    and um: "PathExist fs (filepath_Dir dst) \<or> umask_permits fs"
  shows "\<exists>fs1 m es. OpenFile fs dst copy_flags pm = os_OpenFile fs1 dst copy_flags pm \<and>
      lookup (root fs1) (butlast (components dst)) = Inr (Dir m es) \<and>
      owner_can_search m \<and> owner_can_write m \<and>
      (\<forall>q. entry_at fs1 q =
         (if prefix (components q) (butlast (components dst)) \<and> entry_at fs q = None
          then Some (Dir (created_mode fs perm_0755) []) else entry_at fs q)) \<and>
      umask fs1 = umask fs \<and> free_space fs1 = free_space fs \<and> written fs1 = written fs"
proof -
  have l: "lookup (root fs) (components dst) = Inl ENOENT"
    using absent by (simp add: os_Stat_Inl)
  then have ne: "components dst \<noteq> []"
    by auto
  define p c where "p = butlast (components dst)" and "c = last (components dst)"
  have dst: "components dst = p @ [c]"
    using ne by (simp add: p_def c_def)
  have nex: "\<not> PathExist fs dst"
    using absent by (simp add: PathExist_def)
  have cd: "butlast (components dst) = p"
    by (simp add: p_def)
  from lookup_snoc_ENOENT [OF l [unfolded dst]]
  consider (missing) "lookup (root fs) p = Inl ENOENT"
    | (present) m es where "lookup (root fs) p = Inr (Dir m es)" "owner_can_search m" "map_of es c = None"
    by blast
  then have "\<exists>fs1 m es. OpenFile fs dst copy_flags pm = os_OpenFile fs1 dst copy_flags pm \<and>
      lookup (root fs1) p = Inr (Dir m es) \<and> owner_can_search m \<and> owner_can_write m \<and>
      (\<forall>q. entry_at fs1 q =
         (if prefix (components q) p \<and> entry_at fs q = None
          then Some (Dir (created_mode fs perm_0755) []) else entry_at fs q)) \<and>
      umask fs1 = umask fs \<and> free_space fs1 = free_space fs \<and> written fs1 = written fs"
  proof cases
    case present
    have w: "owner_can_write m"
      using near stops_writable_snoc [OF present(1,3)] by (simp add: nearest_dir_writable_def dst)
    have d: "IsDir fs (filepath_Dir dst)"
      using present(1) by (simp add: IsDir_def os_Stat_def cd)
    have "OpenFile fs dst copy_flags pm = os_OpenFile fs dst copy_flags pm"
      using nex CreateDirectory_IsDir [OF d] by (simp add: OpenFile_def Let_def)
    moreover have "\<not> (prefix (components q) p \<and> entry_at fs q = None)" for q
      using lookup_prefix_exists [OF present(1), of "components q"] by (auto simp: entry_at_def)
    ultimately show ?thesis
      using present w by auto
  next
    case missing
    then have st: "os_Stat fs (filepath_Dir dst) = Inl ENOENT"
      by (simp add: os_Stat_Inl cd)
    then have u: "umask_permits fs"
      using um by (auto simp: PathExist_def)
    have p: "p \<noteq> []"
      using missing by auto
    then have nd: "filepath_Dir dst \<noteq> Rel []"
      by (cases dst) (auto simp: p_def)
    have nw: "nearest_dir_writable fs (filepath_Dir dst)"
      using near stops_writable_append [OF missing, of "[c]"]
      by (simp add: nearest_dir_writable_def dst cd)
    define fs1 where "fs1 = snd (CreateDirectory fs (filepath_Dir dst))"
    have ok: "fst (CreateDirectory fs (filepath_Dir dst)) = None"
      using st nw u by (rule CreateDirectory_ok)
    then have "CreateDirectory fs (filepath_Dir dst) = (None, fs1)"
      by (simp add: fs1_def prod_eq_iff)
    then have o: "OpenFile fs dst copy_flags pm = os_OpenFile fs1 dst copy_flags pm"
      using nex nd by (simp add: OpenFile_def)
    have e1: "entry_at fs1 q =
         (if prefix (components q) p \<and> entry_at fs q = None
          then Some (Dir (created_mode fs perm_0755) []) else entry_at fs q)" for q
      unfolding fs1_def CreateDirectory_entry [OF ok] by (simp add: cd)
    have "entry_at fs1 (filepath_Dir dst) = Some (Dir (created_mode fs perm_0755) [])"
      using os_Stat_ENOENT_entry [OF st] by (simp add: e1 cd)
    then obtain es where "lookup (root fs1) p = Inr (Dir (created_mode fs perm_0755) es)"
      by (auto simp: entry_at_def entry_eq_Dir cd)
    moreover have "owner_can_search (created_mode fs perm_0755)" "owner_can_write (created_mode fs perm_0755)"
      using u by (simp_all add: umask_permits_def)
    moreover have "umask fs1 = umask fs" "free_space fs1 = free_space fs" "written fs1 = written fs"
      by (simp_all add: fs1_def)
    ultimately show ?thesis
      using o e1 by blast
  qed
  then show ?thesis
    by (simp only: p_def)
qed

lemma OpenFile_create:
  assumes absent: "os_Stat fs dst = Inl ENOENT"
    and near: "nearest_dir_writable fs dst"
    and um: "PathExist fs (filepath_Dir dst) \<or> umask_permits fs"
  shows "\<exists>fs'. OpenFile fs dst copy_flags pm =
            (Inr \<lparr>fpath = components dst, fflag = copy_flags, foff = 0\<rparr>, fs') \<and>
          (\<forall>q. entry_at fs' q =
             (if components q = components dst
                then Some (Reg \<lparr>content = [], perm = created_mode fs pm, fault = None\<rparr>)
              else if prefix (components q) (butlast (components dst)) \<and> entry_at fs q = None
                then Some (Dir (created_mode fs perm_0755) [])
              else entry_at fs q)) \<and>
          umask fs' = umask fs \<and> free_space fs' = free_space fs \<and> written fs' = written fs"
proof -
  have l: "lookup (root fs) (components dst) = Inl ENOENT"
    using absent by (simp add: os_Stat_Inl)
  then have ne: "components dst \<noteq> []"
    by auto
  define p c where "p = butlast (components dst)" and "c = last (components dst)"
  have dst: "components dst = p @ [c]"
    using ne by (simp add: p_def c_def)
  have new: "entry_at fs dst = None"
    using absent by (rule os_Stat_ENOENT_entry)
  from OpenFile_parent [OF assms, of pm]
  obtain fs1 m es where o: "OpenFile fs dst copy_flags pm = os_OpenFile fs1 dst copy_flags pm"
    and par: "lookup (root fs1) p = Inr (Dir m es)"
    and sw: "owner_can_search m" "owner_can_write m"
    and e1: "\<And>q. entry_at fs1 q =
         (if prefix (components q) p \<and> entry_at fs q = None
          then Some (Dir (created_mode fs perm_0755) []) else entry_at fs q)"
    and f1: "umask fs1 = umask fs" "free_space fs1 = free_space fs" "written fs1 = written fs"
    unfolding p_def by blast
  have "\<not> prefix (components dst) p"
    by (simp add: dst)
  then have new1: "entry_at fs1 dst = None"
    using new by (simp add: e1)
  have cm: "created_mode fs1 pm = created_mode fs pm"
    by (simp add: created_mode_def f1)
  from os_OpenFile_create [OF par sw new1 dst, of pm] obtain fs' where
    "os_OpenFile fs1 dst copy_flags pm =
        (Inr \<lparr>fpath = components dst, fflag = copy_flags, foff = 0\<rparr>, fs')"
    and "\<And>q. entry_at fs' q =
             (if components q = components dst
              then Some (Reg \<lparr>content = [], perm = created_mode fs pm, fault = None\<rparr>)
              else entry_at fs1 q)"
    and "umask fs' = umask fs1" "free_space fs' = free_space fs1" "written fs' = written fs1"
    unfolding cm by blast
  then show ?thesis
    unfolding o p_def [symmetric] by (auto simp: e1 f1)
qed

section \<open>The copy loop\<close>

lemma lookup_Reg_transfer:
  "entry t' p = entry t p \<Longrightarrow> lookup t p = Inr (Reg f) \<Longrightarrow> lookup t' p = Inr (Reg f)"
  by (metis entry_eq_Reg)

lemma chunks_0 [simp]: "chunks b 0 = []"
  by (simp add: chunks_def)

lemma chunks_step:
  assumes "0 < n" and "0 < b"
  shows "chunks b n = min n b # chunks b (n - min n b)"
proof (cases "b \<le> n")
  case True
  then have "n div b = Suc ((n - b) div b)" "n mod b = (n - b) mod b"
    using assms(2) by (simp_all add: le_div_geq le_mod_geq)
  then show ?thesis
    using True by (simp add: chunks_def min_def)
next
  case False
  then show ?thesis
    using assms by (simp add: chunks_def min_def)
qed

lemma chunks_bounded: "0 < b \<Longrightarrow> x \<in> set (chunks b n) \<Longrightarrow> 0 < x \<and> x \<le> b"
  by (auto simp: chunks_def split: if_splits)

lemma sum_list_chunks: "sum_list (chunks b n) = n"
proof -
  have "n div b * b + n mod b = n"
    by simp
  then show ?thesis
    by (auto simp: chunks_def sum_list_replicate)
qed

lemma os_Write_fits:
  assumes "lookup (root fs) (fpath d) = Inr (Reg g)" and "wants_write (fflag d)" and "data \<noteq> []"
    and "foff d = length (content g)" and "length data \<le> free_space fs"
  shows "\<exists>t. alter (root fs) (fpath d) (Some (Reg (g\<lparr>content := content g @ data\<rparr>))) = Inr t \<and>
    os_Write fs d data =
      (None,
       (set_root fs t)\<lparr>free_space := free_space fs - length data,
                         written := written fs @ [length data]\<rparr>,
       d\<lparr>foff := foff d + length data\<rparr>)"
proof -
  have "fpath d \<noteq> []"
    using assms(1) by (auto simp: root_def)
  from lookup_exists_alter [OF assms(1) this]
  obtain t where t: "alter (root fs) (fpath d) (Some (Reg (g\<lparr>content := content g @ data\<rparr>))) = Inr t"
    by blast
  have n: "min (length data) (free_space fs) = length data"
    using assms(5) by simp
  have "os_Write fs d data =
      (None,
       (set_root fs t)\<lparr>free_space := free_space fs - length data,
                         written := written fs @ [length data]\<rparr>,
       d\<lparr>foff := foff d + length data\<rparr>)"
    using assms(2,3) t by (simp add: os_Write_def Let_def assms(1,4) n)
  with t show ?thesis by blast
qed

lemma CopyFile_loop_copies:
  assumes "lookup (root fs) (fpath s) = Inr (Reg f)" and "\<not> faulty f"
    and "wants_read (fflag s)" and "wants_write (fflag d)"
    and "fpath s \<noteq> fpath d"
    and "lookup (root fs) (fpath d) = Inr (Reg g)"
    and "content g = take (foff s) (content f)" and "foff d = foff s" and "foff s \<le> length (content f)"
    and "length (content f) - foff s \<le> free_space fs"
  shows "\<exists>fs'. CopyFile_loop fs s d = Some (None, fs') \<and>
           (\<forall>q. entry (root fs') q =
              (if q = fpath d then Some (Reg (g\<lparr>content := content f\<rparr>)) else entry (root fs) q)) \<and>
           umask fs' = umask fs \<and>
           free_space fs' = free_space fs - (length (content f) - foff s) \<and>
           written fs' = written fs @ chunks BufferSize (length (content f) - foff s)"
  using assms
proof (induction "length (content f) - foff s" arbitrary: fs s d g rule: less_induct)
  case less
  define k where "k = foff s"
  define data where "data = take BufferSize (drop k (content f))"
  have rp: "readable_part f = content f"
    using less.prems(2) by (rule readable_part_sound)
  show ?case
  proof (cases "data = []")
    case True
    then have le: "length (content f) \<le> k"
      by (simp add: data_def)
    then have full: "content g = content f"
      using less.prems(7,9) by (simp add: k_def)
    have rd: "os_Read fs s BufferSize = ([], Some EOF, s)"
      using less.prems(1,3) True by (simp add: os_Read_def rp data_def k_def)
    have "CopyFile_loop fs s d = Some (None, fs)"
      by (subst CopyFile_loop.simps) (simp add: rd)
    moreover have "entry (root fs) (fpath d) = Some (Reg (g\<lparr>content := content f\<rparr>))"
      using less.prems(6) full [symmetric] by (simp add: entry_eq_Reg)
    moreover have "length (content f) - foff s = 0"
      using le by (simp add: k_def)
    ultimately show ?thesis by auto
  next
    case False
    define s' where "s' = s\<lparr>foff := k + length data\<rparr>"
    define g' where "g' = g\<lparr>content := take (k + length data) (content f)\<rparr>"
    define d' where "d' = d\<lparr>foff := k + length data\<rparr>"
    have kl: "k < length (content f)"
      using False by (simp add: data_def)
    have rd: "os_Read fs s BufferSize = (data, None, s')"
      using less.prems(1,3) False by (simp add: os_Read_def rp data_def k_def s'_def Let_def)
    have ld: "length data = min (length (content f) - k) BufferSize"
      by (simp add: data_def)
    have lg: "length (content g) = k"
      using less.prems(7,9) by (simp add: k_def)
    have fits: "length data \<le> free_space fs"
      using less.prems(10) ld by (simp add: k_def)
    then have n: "min (length data) (free_space fs + length (content g) - foff d) = length data"
      using less.prems(8) lg by (simp add: k_def)
    have c': "take (foff d) (content g) @ replicate (foff d - length (content g)) 0 @ take (length data) data
                @ drop (foff d + length data) (content g) = take (k + length data) (content f)"
      using less.prems(7,8,9) by (simp add: k_def [symmetric] data_def take_add min_def)
    define fs1 where "fs1 = fs\<lparr>free_space := free_space fs - length data, written := written fs @ [length data]\<rparr>"
    have pos: "0 < length data"
      using False by simp
    have cg: "content g @ data = take (k + length data) (content f)"
      using less.prems(7) by (simp add: k_def [symmetric] data_def take_add min_def)
    have "foff d = length (content g)"
      using less.prems(8) lg by (simp add: k_def)
    from os_Write_fits [OF less.prems(6,4) False this fits]
    obtain t where t: "alter (root fs) (fpath d) (Some (Reg g')) = Inr t"
      and wr0: "os_Write fs d data =
        (None,
         (set_root fs t)\<lparr>free_space := free_space fs - length data,
                           written := written fs @ [length data]\<rparr>,
         d\<lparr>foff := foff d + length data\<rparr>)"
      unfolding g'_def cg by blast
    have wr: "os_Write fs d data = (None, set_root fs1 t, d')"
      unfolding wr0 by (simp add: fs1_def d'_def less.prems(8) k_def set_root_def split: node.splits)
    have rt: "root (set_root fs1 t) = t"
      using alter_is_Dir [OF t] by (auto intro: root_set_root)
    have e1: "entry (root (set_root fs1 t)) q = (if q = fpath d then Some (Reg g') else entry (root fs) q)" for q
      using alter_same [OF t] alter_leaf [OF t, of q] less.prems(6)
      by (auto simp: rt)
    have step: "CopyFile_loop fs s d = CopyFile_loop (set_root fs1 t) s' d'"
      using False by (subst CopyFile_loop.simps) (simp add: rd wr)
    have "\<exists>fs'. CopyFile_loop (set_root fs1 t) s' d' = Some (None, fs') \<and>
           (\<forall>q. entry (root fs') q =
              (if q = fpath d' then Some (Reg (g'\<lparr>content := content f\<rparr>))
               else entry (root (set_root fs1 t)) q)) \<and>
           umask fs' = umask (set_root fs1 t) \<and>
           free_space fs' = free_space (set_root fs1 t) - (length (content f) - foff s') \<and>
           written fs' = written (set_root fs1 t) @ chunks BufferSize (length (content f) - foff s')"
    proof (rule less.hyps)
      show "length (content f) - foff s' < length (content f) - foff s"
      proof -
        from kl pos
        have "length (content f) - (k + length data) < length (content f) - k"
          by arith
        then show ?thesis
          by (simp add: s'_def k_def [symmetric])
      qed
      show "lookup (root (set_root fs1 t)) (fpath s') = Inr (Reg f)"
        using e1 [of "fpath s"] less.prems(1,5) by (auto simp: s'_def intro: lookup_Reg_transfer)
      show "lookup (root (set_root fs1 t)) (fpath d') = Inr (Reg g')"
        using e1 [of "fpath d"] by (simp add: d'_def entry_eq_Reg)
      show "content g' = take (foff s') (content f)"
        by (simp add: g'_def s'_def)
      show "foff s' \<le> length (content f)"
      proof -
        have "foff s + min (length (content f) - foff s) BufferSize \<le> length (content f)"
          using less.prems(9) by arith
        then show ?thesis
          by (simp add: s'_def ld k_def)
      qed
      show "length (content f) - foff s' \<le> free_space (set_root fs1 t)"
        using less.prems(10) by (simp add: s'_def fs1_def k_def)
    qed (use less.prems in \<open>simp_all add: s'_def d'_def\<close>)
    then obtain fs' where r: "CopyFile_loop (set_root fs1 t) s' d' = Some (None, fs')"
      and e: "\<And>q. entry (root fs') q =
              (if q = fpath d' then Some (Reg (g'\<lparr>content := content f\<rparr>))
               else entry (root (set_root fs1 t)) q)"
      and u: "umask fs' = umask (set_root fs1 t)"
      and sp': "free_space fs' = free_space (set_root fs1 t) - (length (content f) - foff s')"
      and w: "written fs' = written (set_root fs1 t) @ chunks BufferSize (length (content f) - foff s')"
      by blast
    have c: "chunks BufferSize (length (content f) - k) =
        length data # chunks BufferSize (length (content f) - (k + length data))"
      using chunks_step [of "length (content f) - k" BufferSize] kl ld by simp
    have "k + length data \<le> length (content f)"
      using kl by (simp add: ld)
    then have "length data + (length (content f) - (k + length data)) = length (content f) - k"
      by arith
    then have "free_space fs' = free_space fs - (length (content f) - foff s)"
      using sp' by (simp add: fs1_def s'_def k_def)
    moreover have "written fs' = written fs @ chunks BufferSize (length (content f) - foff s)"
      using w c by (simp add: fs1_def s'_def k_def)
    moreover have "umask fs' = umask fs"
      using u by (simp add: fs1_def)
    ultimately show ?thesis
      unfolding step using r e by (auto simp: e1 d'_def g'_def)
  qed
qed

section \<open>Copying files\<close>

lemma CopyFile_absent:
  assumes src: "entry_at fs src = Some (Reg f)" and rd: "owner_can_read (perm f)"
    and nf: "\<not> faulty f" and absent: "os_Stat fs dst = Inl ENOENT"
    and near: "nearest_dir_writable fs dst"
    and um: "PathExist fs (filepath_Dir dst) \<or> umask_permits fs"
    and room: "length (content f) \<le> free_space fs"
  shows "\<exists>fs'. CopyFile fs src dst = Some (None, fs') \<and>
          (\<forall>q. entry_at fs' q =
             (if components q = components dst
                then Some (Reg \<lparr>content = content f, perm = created_mode fs perm_0755, fault = None\<rparr>)
              else if prefix (components q) (butlast (components dst)) \<and> entry_at fs q = None
                then Some (Dir (created_mode fs perm_0755) [])
              else entry_at fs q)) \<and>
          umask fs' = umask fs \<and>
          free_space fs' = free_space fs - length (content f) \<and>
          written fs' = written fs @ chunks BufferSize (length (content f))"
proof -
  define s where "s = \<lparr>fpath = components src, fflag = O_RDONLY, foff = 0\<rparr>"
  define d where "d = \<lparr>fpath = components dst, fflag = copy_flags, foff = 0\<rparr>"
  define g where "g = \<lparr>content = [], perm = created_mode fs perm_0755, fault = None\<rparr>"
  have reg: "IsRegularFile fs src"
    using src by (auto simp: IsRegularFile_entry)
  have o1: "OpenFile fs src O_RDONLY perm_0666 = (Inr s, fs)"
    using rd by (simp add: OpenFile_RDONLY_Reg [OF src] s_def)
  have nex: "\<not> PathExist fs dst"
    using absent by (simp add: PathExist_def)
  have new: "entry_at fs dst = None"
    using absent by (rule os_Stat_ENOENT_entry)
  from OpenFile_create [OF absent near um, of perm_0755] obtain fs2 where
    o2: "OpenFile fs dst copy_flags perm_0755 = (Inr d, fs2)"
    and e2: "\<And>q. entry_at fs2 q =
             (if components q = components dst then Some (Reg g)
              else if prefix (components q) (butlast (components dst)) \<and> entry_at fs q = None
                then Some (Dir (created_mode fs perm_0755) [])
              else entry_at fs q)"
    and f2: "umask fs2 = umask fs" "free_space fs2 = free_space fs" "written fs2 = written fs"
    unfolding d_def g_def by blast
  have c: "CopyFile fs src dst = CopyFile_loop fs2 s d"
    using reg o1 nex o2 by (simp add: CopyFile_def copy_flags_def [symmetric])
  have ne: "components src \<noteq> components dst"
    using src new entry_at_cong [of src dst fs] by auto
  have "entry_at fs2 src = Some (Reg f)"
    using src ne by (simp add: e2)
  then have l1: "lookup (root fs2) (fpath s) = Inr (Reg f)"
    by (simp add: entry_at_Reg s_def)
  have "entry_at fs2 dst = Some (Reg g)"
    by (simp add: e2)
  then have l2: "lookup (root fs2) (fpath d) = Inr (Reg g)"
    by (simp add: entry_at_Reg d_def)
  have "\<exists>fs'. CopyFile_loop fs2 s d = Some (None, fs') \<and>
           (\<forall>q. entry (root fs') q =
              (if q = fpath d then Some (Reg (g\<lparr>content := content f\<rparr>)) else entry (root fs2) q)) \<and>
           umask fs' = umask fs2 \<and>
           free_space fs' = free_space fs2 - (length (content f) - foff s) \<and>
           written fs' = written fs2 @ chunks BufferSize (length (content f) - foff s)"
    using l1 nf
  proof (rule CopyFile_loop_copies)
    show "lookup (root fs2) (fpath d) = Inr (Reg g)" by (rule l2)
    show "length (content f) - foff s \<le> free_space fs2"
      using room by (simp add: f2 s_def)
  qed (use ne in \<open>simp_all add: s_def d_def g_def\<close>)
  then obtain fs' where
    r: "CopyFile_loop fs2 s d = Some (None, fs')"
    and e': "\<And>q. entry (root fs') q =
              (if q = fpath d then Some (Reg (g\<lparr>content := content f\<rparr>)) else entry (root fs2) q)"
    and f': "umask fs' = umask fs2" "free_space fs' = free_space fs2 - (length (content f) - foff s)"
      "written fs' = written fs2 @ chunks BufferSize (length (content f) - foff s)"
    by blast
  have "entry_at fs' q =
             (if components q = components dst
                then Some (Reg \<lparr>content = content f, perm = created_mode fs perm_0755, fault = None\<rparr>)
              else if prefix (components q) (butlast (components dst)) \<and> entry_at fs q = None
                then Some (Dir (created_mode fs perm_0755) [])
              else entry_at fs q)" for q
    using e' [of "components q"] e2 [of q] by (simp add: entry_at_def d_def g_def)
  with c r f' f2 show ?thesis by (auto simp: s_def)
qed

lemma CopyFile_denied:
  assumes src: "entry_at fs src = Some (Reg f)" and rd: "owner_can_read (perm f)"
    and absent: "os_Stat fs dst = Inl ENOENT"
    and near: "\<not> nearest_dir_writable fs dst"
  shows "CopyFile fs src dst = Some (Some (OSError EACCES), fs)"
proof -
  define s where "s = \<lparr>fpath = components src, fflag = O_RDONLY, foff = 0\<rparr>"
  have reg: "IsRegularFile fs src"
    using src by (auto simp: IsRegularFile_entry)
  have o1: "OpenFile fs src O_RDONLY perm_0666 = (Inr s, fs)"
    using rd by (simp add: OpenFile_RDONLY_Reg [OF src] s_def)
  have nex: "\<not> PathExist fs dst"
    using absent by (simp add: PathExist_def)
  have new: "entry_at fs dst = None"
    using absent by (rule os_Stat_ENOENT_entry)
  have l: "lookup (root fs) (components dst) = Inl ENOENT"
    using absent by (simp add: os_Stat_Inl)
  then have ne: "components dst \<noteq> []"
    by auto
  define p c where "p = butlast (components dst)" and "c = last (components dst)"
  have dst: "components dst = p @ [c]"
    using ne by (simp add: p_def c_def)
  have cd: "butlast (components dst) = p"
    by (simp add: p_def)
  from lookup_snoc_ENOENT [OF l [unfolded dst]]
  consider (missing) "lookup (root fs) p = Inl ENOENT"
    | (present) m es where "lookup (root fs) p = Inr (Dir m es)" "owner_can_search m" "map_of es c = None"
    by blast
  then have "OpenFile fs dst copy_flags perm_0755 = (Inl (OSError EACCES), fs)"
  proof cases
    case present
    have w: "\<not> owner_can_write m"
      using near stops_writable_snoc [OF present(1,3)] by (simp add: nearest_dir_writable_def dst)
    have d: "IsDir fs (filepath_Dir dst)"
      using present(1) by (simp add: IsDir_def os_Stat_def cd)
    have "OpenFile fs dst copy_flags perm_0755 = os_OpenFile fs dst copy_flags perm_0755"
      using nex CreateDirectory_IsDir [OF d] by (simp add: OpenFile_def Let_def)
    then show ?thesis
      using os_OpenFile_create_denied [OF present(1,2) w new dst] by simp
  next
    case missing
    then have st: "os_Stat fs (filepath_Dir dst) = Inl ENOENT"
      by (simp add: os_Stat_Inl cd)
    have "p \<noteq> []"
      using missing by auto
    then have nd: "filepath_Dir dst \<noteq> Rel []"
      by (cases dst) (auto simp: p_def)
    have "\<not> nearest_dir_writable fs (filepath_Dir dst)"
      using near stops_writable_append [OF missing, of "[c]"]
      by (simp add: nearest_dir_writable_def cd) (simp add: dst)
    with st have "CreateDirectory fs (filepath_Dir dst) = (Some (OSError EACCES), fs)"
      by (rule CreateDirectory_denied)
    then show ?thesis
      using nex nd by (simp add: OpenFile_def)
  qed
  then show ?thesis
    using reg o1 nex by (simp add: CopyFile_def copy_flags_def [symmetric])
qed

lemma CopyFile_early:
  "\<not> IsRegularFile fs src \<Longrightarrow> CopyFile fs src dst = Some (Some NotRegularFile, fs)"
  "entry_at fs src = Some (Reg f) \<Longrightarrow> \<not> owner_can_read (perm f) \<Longrightarrow>
     CopyFile fs src dst = Some (Some (OSError EACCES), fs)"
  "entry_at fs src = Some (Reg f) \<Longrightarrow> owner_can_read (perm f) \<Longrightarrow> PathExist fs dst \<Longrightarrow>
     CopyFile fs src dst = Some (Some DestinationExists, fs)"
  by (auto simp: CopyFile_def OpenFile_RDONLY_Reg IsRegularFile_entry)

lemma CopyFile_parent_error:
  assumes src: "entry_at fs src = Some (Reg f)" and rd: "owner_can_read (perm f)"
    and nex: "\<not> PathExist fs dst" and nd: "filepath_Dir dst \<noteq> Rel []"
    and cd: "CreateDirectory fs (filepath_Dir dst) = (Some e, fs1)"
  shows "CopyFile fs src dst = Some (Some e, fs1)"
proof -
  have reg: "IsRegularFile fs src"
    using src by (auto simp: IsRegularFile_entry)
  have "OpenFile fs src O_RDONLY perm_0666 =
      (Inr \<lparr>fpath = components src, fflag = O_RDONLY, foff = 0\<rparr>, fs)"
    using rd by (simp add: OpenFile_RDONLY_Reg [OF src])
  moreover have "OpenFile fs dst copy_flags perm_0755 = (Inl e, fs1)"
    using nex nd cd by (simp add: OpenFile_def)
  ultimately show ?thesis
    using reg nex by (simp add: CopyFile_def copy_flags_def [symmetric])
qed

lemma CopyFile_example_under_file:
  "CopyFile example_fs (Rel [''a.txt'']) (Rel [''a.txt'', ''b'']) = Some (Some NotADirectory, example_fs)"
proof -
  have "\<not> PathExist example_fs (Rel [''a.txt'', ''b''])"
    by (simp add: PathExist_entry entry_at_def entry_def root_def example_fs_def owner_can_search_def)
  moreover have "CreateDirectory example_fs (filepath_Dir (Rel [''a.txt'', ''b''])) =
      (Some NotADirectory, example_fs)"
    using example_kinds(5,6) by (simp add: CreateDirectory_not_dir)
  moreover have "owner_can_read (perm \<lparr>content = [0x68 :: byte, 0x65, 0x6c, 0x6c, 0x6f], perm = 420, fault = None\<rparr>)"
    by (simp add: perm_facts)
  ultimately show ?thesis
    by (intro CopyFile_parent_error [OF example_entries(1)]) simp_all
qed

lemma CopyFile_example_under_file2:
  "CopyFile example_fs (Rel [''a.txt'']) (Rel [''a.txt'', ''sub'', ''b'']) =
     Some (Some (OSError ENOTDIR), example_fs)"
proof -
  have "\<not> PathExist example_fs (Rel [''a.txt'', ''sub'', ''b''])"
    by (simp add: PathExist_entry entry_at_def entry_def root_def example_fs_def owner_can_search_def)
  moreover have "os_Stat example_fs (Rel [''a.txt'', ''sub'']) = Inl ENOTDIR"
    by (simp add: os_Stat_def root_def example_fs_def owner_can_search_def)
  then have "CreateDirectory example_fs (filepath_Dir (Rel [''a.txt'', ''sub'', ''b''])) =
      (Some (OSError ENOTDIR), example_fs)"
    by (simp add: CreateDirectory_stat_error)
  moreover have "owner_can_read (perm \<lparr>content = [0x68 :: byte, 0x65, 0x6c, 0x6c, 0x6f], perm = 420, fault = None\<rparr>)"
    by (simp add: perm_facts)
  ultimately show ?thesis
    by (intro CopyFile_parent_error [OF example_entries(1)]) simp_all
qed

lemma example_copy_facts:
  "owner_can_read (perm \<lparr>content = [0x68, 0x65, 0x6c, 0x6c, 0x6f], perm = 420, fault = None\<rparr>)"
  "\<not> faulty \<lparr>content = [0x68, 0x65, 0x6c, 0x6c, 0x6f], perm = 420, fault = None\<rparr>"
  "os_Stat example_fs (Rel [''n'', ''m'', ''b.txt'']) = Inl ENOENT"
  "os_Stat example_fs (filepath_Dir (Rel [''n'', ''m'', ''b.txt''])) = Inl ENOENT"
  "nearest_dir_writable example_fs (Rel [''n'', ''m'', ''b.txt''])"
  "umask_permits example_fs"
  "length (content \<lparr>content = [0x68 :: byte, 0x65, 0x6c, 0x6c, 0x6f], perm = 420, fault = None\<rparr>)
     \<le> free_space example_fs"
  "os_Stat example_fs (Rel [''ro'', ''b'']) = Inl ENOENT"
  "\<not> nearest_dir_writable example_fs (Rel [''ro'', ''b''])"
  "os_Stat example_fs (Rel [''ro'', ''sub'', ''b'']) = Inl ENOENT"
  "os_Stat example_fs (filepath_Dir (Rel [''ro'', ''sub'', ''b''])) = Inl ENOENT"
  "\<not> nearest_dir_writable example_fs (Rel [''ro'', ''sub'', ''b''])"
  "created_mode example_fs perm_0755 = 493"
  "owner_can_read (created_mode example_fs perm_0755)"
  "written example_fs = []"
  by (simp_all add: perm_facts faulty_def readable_part_def os_Stat_def root_def example_fs_def
      nearest_dir_writable_def umask_permits_def created_mode_def perm_0755_def
      owner_can_search_def owner_can_write_def owner_can_read_def)

section \<open>The claims about \<^verbatim>\<open>CopyFile\<close>\<close>

text \<open>
  Claim C1, as stated, fails: not every destination that does not exist can be created.
  On the example filesystem \<^verbatim>\<open>a.txt\<close> is a regular, readable file. The destination
  \<^verbatim>\<open>a.txt/b\<close> does not exist, yet the copy fails, because \<^verbatim>\<open>OpenFile\<close> asks
  \<^verbatim>\<open>CreateDirectory\<close> for the directory \<^verbatim>\<open>a.txt\<close>. The destination \<^verbatim>\<open>ro/b\<close> does not
  exist either, and the copy fails with \<^verbatim>\<open>EACCES\<close>, because the directory \<^verbatim>\<open>ro\<close>
  cannot be written.
\<close>

theorem CopyFile_copies_counterexample:
  "entry_at example_fs (Rel [''a.txt'']) =
     Some (Reg \<lparr>content = [0x68, 0x65, 0x6c, 0x6c, 0x6f], perm = 420, fault = None\<rparr>) \<and>
   owner_can_read 420 \<and>
   \<not> faulty \<lparr>content = [0x68, 0x65, 0x6c, 0x6c, 0x6f], perm = 420, fault = None\<rparr> \<and>
   \<not> PathExist example_fs (Rel [''a.txt'', ''b'']) \<and>
   CopyFile example_fs (Rel [''a.txt'']) (Rel [''a.txt'', ''b'']) =
     Some (Some NotADirectory, example_fs) \<and>
   \<not> PathExist example_fs (Rel [''ro'', ''b'']) \<and>
   CopyFile example_fs (Rel [''a.txt'']) (Rel [''ro'', ''b'']) =
     Some (Some (OSError EACCES), example_fs)"
proof -
  have "\<not> PathExist example_fs (Rel [''a.txt'', ''b''])" "\<not> PathExist example_fs (Rel [''ro'', ''b''])"
    by (simp_all add: PathExist_def os_Stat_def root_def example_fs_def owner_can_search_def)
  moreover have "CopyFile example_fs (Rel [''a.txt'']) (Rel [''ro'', ''b'']) =
     Some (Some (OSError EACCES), example_fs)"
    using example_entries(1) example_copy_facts(1,8,9) by (rule CopyFile_denied)
  ultimately show ?thesis
    by (simp add: CopyFile_example_under_file example_entries perm_facts faulty_def readable_part_def)
qed

text \<open>
  Claim C1, amended. Let \<open>src\<close> and \<open>dst\<close> be paths in cleaned form, \<open>src\<close> a regular
  file that can be opened for reading and read to its end, and \<open>dst\<close> absent with no
  ancestor that is not a directory (the lookup of \<open>dst\<close> reports \<^verbatim>\<open>ENOENT\<close>). If the
  nearest existing ancestor of \<open>dst\<close> grants write permission, the directory of \<open>dst\<close>
  exists or the umask leaves the owner the write and search bits of the directories that
  are made, and the free space holds the content of \<open>src\<close>, then \<^verbatim>\<open>CopyFile(src, dst)\<close>
  returns, without error. Afterwards \<open>dst\<close> is a regular file with the content of
  \<open>src\<close> and the mode \<^verbatim>\<open>0755\<close> less the umask, and \<open>src\<close> is unchanged; \<^verbatim>\<open>Md5Sum\<close>
  gives the MD5 digest of the content for \<open>src\<close>, and the same for \<open>dst\<close> when the mode
  of \<open>dst\<close> lets its owner read it (the empty string when it does not). The content went
  to \<open>dst\<close> in writes of \<open>BufferSize\<close> bytes, which is 8 MiB, followed by one write of
  the rest, and the loop stopped at the end of \<open>src\<close>. If the nearest existing ancestor
  of \<open>dst\<close> does not grant write permission, the copy fails with \<^verbatim>\<open>EACCES\<close> and changes
  nothing.
\<close>

theorem CopyFile_copies:
  assumes "valid_path src" and "valid_path dst"
    and "entry_at fs src = Some (Reg f)" and "owner_can_read (perm f)" and "\<not> faulty f"
    and "os_Stat fs dst = Inl ENOENT"
  shows
  "(nearest_dir_writable fs dst \<and> (PathExist fs (filepath_Dir dst) \<or> umask_permits fs) \<and>
    length (content f) \<le> free_space fs \<longrightarrow>
      (\<exists>fs'. CopyFile fs src dst = Some (None, fs') \<and>
         entry_at fs' dst =
           Some (Reg \<lparr>content = content f, perm = created_mode fs perm_0755, fault = None\<rparr>) \<and>
         entry_at fs' src = Some (Reg f) \<and>
         fst (Md5Sum fs' src) = hex (md5 (content f)) \<and>
         (owner_can_read (created_mode fs perm_0755) \<longrightarrow>
            fst (Md5Sum fs' dst) = fst (Md5Sum fs' src)) \<and>
         (\<not> owner_can_read (created_mode fs perm_0755) \<longrightarrow> fst (Md5Sum fs' dst) = '''') \<and>
         written fs' =
           written fs @ replicate (length (content f) div 8388608) 8388608 @
             (if length (content f) mod 8388608 = 0 then [] else [length (content f) mod 8388608]))) \<and>
   (\<not> nearest_dir_writable fs dst \<longrightarrow> CopyFile fs src dst = Some (Some (OSError EACCES), fs)) \<and>
   BufferSize = 8388608"
proof (intro conjI impI)
  assume h: "nearest_dir_writable fs dst \<and> (PathExist fs (filepath_Dir dst) \<or> umask_permits fs) \<and>
    length (content f) \<le> free_space fs"
  then have h1: "nearest_dir_writable fs dst" and h2: "PathExist fs (filepath_Dir dst) \<or> umask_permits fs"
    and h3: "length (content f) \<le> free_space fs"
    by blast+
  from CopyFile_absent [OF assms(3-6) h1 h2 h3]
  obtain fs' where c: "CopyFile fs src dst = Some (None, fs')"
    and e: "\<And>q. entry_at fs' q =
             (if components q = components dst
                then Some (Reg \<lparr>content = content f, perm = created_mode fs perm_0755, fault = None\<rparr>)
              else if prefix (components q) (butlast (components dst)) \<and> entry_at fs q = None
                then Some (Dir (created_mode fs perm_0755) [])
              else entry_at fs q)"
    and w: "written fs' = written fs @ chunks BufferSize (length (content f))"
    by blast
  have ne: "components src \<noteq> components dst"
    using assms(3) os_Stat_ENOENT_entry [OF assms(6)] entry_at_cong [of src dst fs] by auto
  have d: "entry_at fs' dst =
      Some (Reg \<lparr>content = content f, perm = created_mode fs perm_0755, fault = None\<rparr>)"
    by (simp add: e)
  have s: "entry_at fs' src = Some (Reg f)"
    using assms(3) ne by (simp add: e)
  have ms: "fst (Md5Sum fs' src) = hex (md5 (content f))"
    using assms(4,5) by (simp add: Md5Sum_Reg [OF s])
  have md: "fst (Md5Sum fs' dst) =
      (if owner_can_read (created_mode fs perm_0755) then hex (md5 (content f)) else '''')"
    by (simp add: Md5Sum_Reg [OF d] faulty_def readable_part_def)
  have w': "written fs' =
      written fs @ replicate (length (content f) div 8388608) 8388608 @
        (if length (content f) mod 8388608 = 0 then [] else [length (content f) mod 8388608])"
    unfolding w by (simp add: chunks_def BufferSize_def)
  show "\<exists>fs'. CopyFile fs src dst = Some (None, fs') \<and>
         entry_at fs' dst =
           Some (Reg \<lparr>content = content f, perm = created_mode fs perm_0755, fault = None\<rparr>) \<and>
         entry_at fs' src = Some (Reg f) \<and>
         fst (Md5Sum fs' src) = hex (md5 (content f)) \<and>
         (owner_can_read (created_mode fs perm_0755) \<longrightarrow>
            fst (Md5Sum fs' dst) = fst (Md5Sum fs' src)) \<and>
         (\<not> owner_can_read (created_mode fs perm_0755) \<longrightarrow> fst (Md5Sum fs' dst) = '''') \<and>
         written fs' =
           written fs @ replicate (length (content f) div 8388608) 8388608 @
             (if length (content f) mod 8388608 = 0 then [] else [length (content f) mod 8388608])"
    using c d s ms md w' by (intro exI [of _ fs']) simp
next
  assume "\<not> nearest_dir_writable fs dst"
  with assms(3,4,6) show "CopyFile fs src dst = Some (Some (OSError EACCES), fs)"
    by (rule CopyFile_denied)
next
  show "BufferSize = 8388608"
    by (simp add: BufferSize_def)
qed

text \<open>
  On the example filesystem, whose umask is \<^verbatim>\<open>022\<close>: the copy of \<^verbatim>\<open>a.txt\<close> to
  \<^verbatim>\<open>n/m/b.txt\<close> succeeds with one write of five bytes and gives a file of mode
  \<^verbatim>\<open>0755\<close> with the same digest; the copy to \<^verbatim>\<open>ro/b\<close> fails.
\<close>

theorem CopyFile_copies_witness:
  "valid_path (Rel [''a.txt'']) \<and> valid_path (Rel [''n'', ''m'', ''b.txt'']) \<and>
   entry_at example_fs (Rel [''a.txt'']) = Some (Reg \<lparr>content = [0x68, 0x65, 0x6c, 0x6c, 0x6f], perm = 420, fault = None\<rparr>) \<and>
   owner_can_read 420 \<and>
   \<not> faulty \<lparr>content = [0x68, 0x65, 0x6c, 0x6c, 0x6f], perm = 420, fault = None\<rparr> \<and>
   os_Stat example_fs (Rel [''n'', ''m'', ''b.txt'']) = Inl ENOENT \<and>
   nearest_dir_writable example_fs (Rel [''n'', ''m'', ''b.txt'']) \<and> umask_permits example_fs \<and>
   (5 :: nat) \<le> free_space example_fs \<and>
   owner_can_read (created_mode example_fs perm_0755) \<and>
   (\<exists>fs'. CopyFile example_fs (Rel [''a.txt'']) (Rel [''n'', ''m'', ''b.txt'']) = Some (None, fs') \<and>
      entry_at fs' (Rel [''n'', ''m'', ''b.txt'']) =
        Some (Reg \<lparr>content = [0x68, 0x65, 0x6c, 0x6c, 0x6f], perm = 493, fault = None\<rparr>) \<and>
      fst (Md5Sum fs' (Rel [''n'', ''m'', ''b.txt''])) = fst (Md5Sum fs' (Rel [''a.txt''])) \<and>
      written fs' = [5]) \<and>
   valid_path (Rel [''ro'', ''b'']) \<and>
   os_Stat example_fs (Rel [''ro'', ''b'']) = Inl ENOENT \<and>
   \<not> nearest_dir_writable example_fs (Rel [''ro'', ''b'']) \<and>
   CopyFile example_fs (Rel [''a.txt'']) (Rel [''ro'', ''b'']) = Some (Some (OSError EACCES), example_fs)"
proof -
  have v: "valid_path (Rel [''a.txt''])" "valid_path (Rel [''n'', ''m'', ''b.txt''])"
    "valid_path (Rel [''ro'', ''b''])"
    by (simp_all add: valid_path_def valid_name_def)
  note h = example_copy_facts
  note a = CopyFile_copies [OF v(1,2) example_entries(1) h(1,2,3)]
  note b = CopyFile_copies [OF v(1,3) example_entries(1) h(1,2,8)]
  from a h(5,6,7) obtain fs' where
    1: "CopyFile example_fs (Rel [''a.txt'']) (Rel [''n'', ''m'', ''b.txt'']) = Some (None, fs')"
    and 2: "entry_at fs' (Rel [''n'', ''m'', ''b.txt'']) =
        Some (Reg \<lparr>content = content \<lparr>content = [0x68, 0x65, 0x6c, 0x6c, 0x6f], perm = 420, fault = None\<rparr>, perm = created_mode example_fs perm_0755, fault = None\<rparr>)"
    and 3: "owner_can_read (created_mode example_fs perm_0755) \<longrightarrow>
        fst (Md5Sum fs' (Rel [''n'', ''m'', ''b.txt''])) = fst (Md5Sum fs' (Rel [''a.txt'']))"
    and 4: "written fs' =
           written example_fs @ replicate (length (content \<lparr>content = [0x68, 0x65, 0x6c, 0x6c, 0x6f], perm = 420, fault = None\<rparr>) div 8388608) 8388608 @
             (if length (content \<lparr>content = [0x68, 0x65, 0x6c, 0x6c, 0x6f], perm = 420, fault = None\<rparr>) mod 8388608 = 0 then []
              else [length (content \<lparr>content = [0x68, 0x65, 0x6c, 0x6c, 0x6f], perm = 420, fault = None\<rparr>) mod 8388608])"
    by blast
  from 2 have r2: "entry_at fs' (Rel [''n'', ''m'', ''b.txt'']) =
        Some (Reg \<lparr>content = [0x68, 0x65, 0x6c, 0x6c, 0x6f], perm = 493, fault = None\<rparr>)"
    by (simp add: h(13))
  from 3 h(14) have r3: "fst (Md5Sum fs' (Rel [''n'', ''m'', ''b.txt''])) = fst (Md5Sum fs' (Rel [''a.txt'']))"
    by blast
  from 4 have r4: "written fs' = [5]"
    by (simp add: h(15))
  from b h(9) have 5: "CopyFile example_fs (Rel [''a.txt'']) (Rel [''ro'', ''b'']) =
      Some (Some (OSError EACCES), example_fs)"
    by blast
  have 6: "(5 :: nat) \<le> free_space example_fs"
    using h(7) by simp
  have 7: "\<exists>fs'. CopyFile example_fs (Rel [''a.txt'']) (Rel [''n'', ''m'', ''b.txt'']) = Some (None, fs') \<and>
      entry_at fs' (Rel [''n'', ''m'', ''b.txt'']) =
        Some (Reg \<lparr>content = [0x68, 0x65, 0x6c, 0x6c, 0x6f], perm = 493, fault = None\<rparr>) \<and>
      fst (Md5Sum fs' (Rel [''n'', ''m'', ''b.txt''])) = fst (Md5Sum fs' (Rel [''a.txt''])) \<and>
      written fs' = [5]"
    using 1 r2 r3 r4 by blast
  have 8: "owner_can_read 420" "\<not> faulty \<lparr>content = [0x68, 0x65, 0x6c, 0x6c, 0x6f], perm = 420, fault = None\<rparr>"
    using h(1,2) by simp_all
  from 5 6 7 8 v h(3,5,6,8,9,14) example_entries(1) show ?thesis
    by blast
qed

text \<open>
  Claim C5, as stated, fails: the destination is looked at only after \<open>src\<close> has been
  opened. On the example filesystem \<^verbatim>\<open>secret\<close> is a regular file without read
  permission and \<^verbatim>\<open>a.txt\<close> exists; the copy fails with the error of the open, not with
  \<open>DestinationExists\<close>.
\<close>

theorem CopyFile_existing_dst_counterexample:
  "PathExist example_fs (Rel [''a.txt'']) \<and>
   IsRegularFile example_fs (Rel [''secret'']) \<and>
   CopyFile example_fs (Rel [''secret'']) (Rel [''a.txt'']) = Some (Some (OSError EACCES), example_fs)"
  by (simp add: CopyFile_early(2) [OF example_entries(2)] perm_facts PathExist_entry
      IsRegularFile_entry example_entries)

text \<open>
  Claim C5, amended. When \<open>dst\<close> already exists, \<^verbatim>\<open>CopyFile(src, dst)\<close> fails and
  leaves the filesystem, and so the content of \<open>dst\<close>, as it was. The error is
  \<open>DestinationExists\<close> when \<open>src\<close> is a regular file that can be opened for reading,
  the error of the open when \<open>src\<close> is a regular file that cannot, and
  \<open>NotRegularFile\<close> whenever \<open>src\<close> is not a regular file, whether \<open>dst\<close> exists or not.
\<close>

theorem CopyFile_existing_dst:
  "(PathExist fs dst \<longrightarrow> (\<exists>e. CopyFile fs src dst = Some (Some e, fs))) \<and>
   (PathExist fs dst \<and> entry_at fs src = Some (Reg f) \<and> owner_can_read (perm f) \<longrightarrow>
      CopyFile fs src dst = Some (Some DestinationExists, fs)) \<and>
   (entry_at fs src = Some (Reg f) \<and> \<not> owner_can_read (perm f) \<longrightarrow>
      CopyFile fs src dst = Some (Some (OSError EACCES), fs)) \<and>
   (\<not> IsRegularFile fs src \<longrightarrow> CopyFile fs src dst = Some (Some NotRegularFile, fs))"
proof (intro conjI impI)
  assume ex: "PathExist fs dst"
  show "\<exists>e. CopyFile fs src dst = Some (Some e, fs)"
  proof (cases "IsRegularFile fs src")
    case True
    then obtain g where "entry_at fs src = Some (Reg g)"
      by (auto simp: IsRegularFile_entry)
    then show ?thesis
      using ex CopyFile_early(2,3) [of fs src g dst] by (cases "owner_can_read (perm g)") auto
  next
    case False
    then show ?thesis by (simp add: CopyFile_early(1))
  qed
qed (simp_all add: CopyFile_early)

theorem CopyFile_existing_dst_witness:
  "PathExist example_fs (Rel [''d'', ''x'']) \<and>
   entry_at example_fs (Rel [''a.txt'']) =
     Some (Reg \<lparr>content = [0x68, 0x65, 0x6c, 0x6c, 0x6f], perm = 420, fault = None\<rparr>) \<and>
   owner_can_read 420 \<and>
   CopyFile example_fs (Rel [''a.txt'']) (Rel [''d'', ''x'']) = Some (Some DestinationExists, example_fs) \<and>
   entry_at example_fs (Rel [''secret'']) = Some (Reg \<lparr>content = [7], perm = 0, fault = None\<rparr>) \<and>
   \<not> owner_can_read 0 \<and>
   CopyFile example_fs (Rel [''secret'']) (Rel [''d'', ''x'']) = Some (Some (OSError EACCES), example_fs) \<and>
   \<not> IsRegularFile example_fs (Rel [''sock'']) \<and>
   CopyFile example_fs (Rel [''sock'']) (Rel [''d'', ''x'']) = Some (Some NotRegularFile, example_fs)"
proof -
  have e: "PathExist example_fs (Rel [''d'', ''x''])" "\<not> IsRegularFile example_fs (Rel [''sock''])"
    by (simp_all add: PathExist_entry IsRegularFile_entry example_entries)
  show ?thesis
    using
      CopyFile_existing_dst [of example_fs "Rel [''d'', ''x'']" "Rel [''a.txt'']"
        "\<lparr>content = [0x68, 0x65, 0x6c, 0x6c, 0x6f], perm = 420, fault = None\<rparr>"]
      CopyFile_existing_dst [of example_fs "Rel [''d'', ''x'']" "Rel [''secret'']"
        "\<lparr>content = [7], perm = 0, fault = None\<rparr>"]
      CopyFile_existing_dst [of example_fs "Rel [''d'', ''x'']" "Rel [''sock'']"]
      e example_entries(1,2) perm_facts
    by simp
qed

text \<open>
  Claim C10, as stated, fails: a missing parent directory cannot always be created. On
  the example filesystem the parent \<^verbatim>\<open>a.txt/sub\<close> of the destination \<^verbatim>\<open>a.txt/sub/b\<close>
  does not exist and is not \<^verbatim>\<open>.\<close>, and \<^verbatim>\<open>CopyFile\<close> fails with \<^verbatim>\<open>ENOTDIR\<close>, since
  below a regular file no directory can be made; the parent \<^verbatim>\<open>ro/sub\<close> of
  \<^verbatim>\<open>ro/sub/b\<close> does not exist either, and \<^verbatim>\<open>CopyFile\<close> fails with \<^verbatim>\<open>EACCES\<close>, since
  \<^verbatim>\<open>ro\<close> cannot be written. The filesystem is left as it was.
\<close>

theorem CopyFile_creates_parents_counterexample:
  "entry_at example_fs (Rel [''a.txt'']) =
     Some (Reg \<lparr>content = [0x68, 0x65, 0x6c, 0x6c, 0x6f], perm = 420, fault = None\<rparr>) \<and>
   owner_can_read 420 \<and>
   \<not> faulty \<lparr>content = [0x68, 0x65, 0x6c, 0x6c, 0x6f], perm = 420, fault = None\<rparr> \<and>
   \<not> PathExist example_fs (Rel [''a.txt'', ''sub'', ''b'']) \<and>
   filepath_Dir (Rel [''a.txt'', ''sub'', ''b'']) = Rel [''a.txt'', ''sub''] \<and>
   \<not> PathExist example_fs (Rel [''a.txt'', ''sub'']) \<and>
   CopyFile example_fs (Rel [''a.txt'']) (Rel [''a.txt'', ''sub'', ''b'']) =
     Some (Some (OSError ENOTDIR), example_fs) \<and>
   \<not> PathExist example_fs (Rel [''ro'', ''sub'', ''b'']) \<and>
   filepath_Dir (Rel [''ro'', ''sub'', ''b'']) = Rel [''ro'', ''sub''] \<and>
   \<not> PathExist example_fs (Rel [''ro'', ''sub'']) \<and>
   CopyFile example_fs (Rel [''a.txt'']) (Rel [''ro'', ''sub'', ''b'']) =
     Some (Some (OSError EACCES), example_fs)"
proof -
  have "\<not> PathExist example_fs (Rel [''a.txt'', ''sub'', ''b''])"
    "\<not> PathExist example_fs (Rel [''a.txt'', ''sub''])"
    "\<not> PathExist example_fs (Rel [''ro'', ''sub'', ''b''])"
    "\<not> PathExist example_fs (Rel [''ro'', ''sub''])"
    by (simp_all add: PathExist_def os_Stat_def root_def example_fs_def owner_can_search_def)
  moreover have "CopyFile example_fs (Rel [''a.txt'']) (Rel [''ro'', ''sub'', ''b'']) =
     Some (Some (OSError EACCES), example_fs)"
    using example_entries(1) example_copy_facts(1,10,12) by (rule CopyFile_denied)
  ultimately show ?thesis
    by (simp add: CopyFile_example_under_file2 example_entries perm_facts faulty_def readable_part_def)
qed

text \<open>
  Claim C10, amended. Let \<open>src\<close> and \<open>dst\<close> be paths in cleaned form, \<open>src\<close> a regular
  file that can be opened for reading and read to its end, and let the parent directory
  of \<open>dst\<close> be absent with no ancestor that is not a directory (its lookup reports
  \<^verbatim>\<open>ENOENT\<close>; it is then not \<^verbatim>\<open>.\<close>). If the nearest existing ancestor of \<open>dst\<close> grants
  write permission and the umask leaves the owner the write and search bits, the
  directories are created before \<open>dst\<close> is: \<^verbatim>\<open>CreateDirectory\<close> succeeds on the parent,
  and \<^verbatim>\<open>OpenFile\<close> opens \<open>dst\<close> on the filesystem it leaves, in which the parent is a
  directory of mode \<^verbatim>\<open>0755\<close> less the umask and \<open>dst\<close> does not exist yet. If moreover the
  free space holds the content of \<open>src\<close>, \<^verbatim>\<open>CopyFile(src, dst)\<close> succeeds, and afterwards
  the parent of \<open>dst\<close> and every ancestor of it that was missing is a directory of that
  mode, with the regular file \<open>dst\<close> in it. If the nearest existing ancestor of \<open>dst\<close>
  does not grant write permission, \<^verbatim>\<open>CopyFile\<close> fails with \<^verbatim>\<open>EACCES\<close> and creates
  nothing.
\<close>

theorem CopyFile_creates_parents:
  assumes "valid_path src" and "valid_path dst"
    and "entry_at fs src = Some (Reg f)" and "owner_can_read (perm f)" and "\<not> faulty f"
    and "os_Stat fs (filepath_Dir dst) = Inl ENOENT"
  shows
  "filepath_Dir dst \<noteq> Rel [] \<and>
   (nearest_dir_writable fs dst \<and> umask_permits fs \<longrightarrow>
      fst (CreateDirectory fs (filepath_Dir dst)) = None \<and>
      entry_at (snd (CreateDirectory fs (filepath_Dir dst))) (filepath_Dir dst) =
        Some (Dir (created_mode fs perm_0755) []) \<and>
      \<not> PathExist (snd (CreateDirectory fs (filepath_Dir dst))) dst \<and>
      OpenFile fs dst (O_WRONLY OR O_TRUNC OR O_CREATE) perm_0755 =
        os_OpenFile (snd (CreateDirectory fs (filepath_Dir dst))) dst
          (O_WRONLY OR O_TRUNC OR O_CREATE) perm_0755) \<and>
   (nearest_dir_writable fs dst \<and> umask_permits fs \<and> length (content f) \<le> free_space fs \<longrightarrow>
      (\<exists>fs'. CopyFile fs src dst = Some (None, fs') \<and>
         entry_at fs' (filepath_Dir dst) = Some (Dir (created_mode fs perm_0755) []) \<and>
         (\<forall>q. valid_path q \<and> prefix (components q) (components (filepath_Dir dst)) \<and>
              entry_at fs q = None \<longrightarrow>
            entry_at fs' q = Some (Dir (created_mode fs perm_0755) [])) \<and>
         IsRegularFile fs' dst)) \<and>
   (\<not> nearest_dir_writable fs dst \<longrightarrow> CopyFile fs src dst = Some (Some (OSError EACCES), fs)) \<and>
   perm_0755 = 493 \<and> created_mode fs perm_0755 = 493 AND NOT (umask fs)"
proof -
  have l: "lookup (root fs) (butlast (components dst)) = Inl ENOENT"
    using assms(6) by (simp add: os_Stat_Inl)
  then have ne: "components dst \<noteq> []"
    by (auto simp: root_def)
  have nr: "filepath_Dir dst \<noteq> Rel []"
    using l by (cases dst) auto
  have "lookup (root fs) (butlast (components dst) @ [last (components dst)]) = Inl ENOENT"
    using l by (simp only: lookup_append sum.case)
  then have absent: "os_Stat fs dst = Inl ENOENT"
    using ne by (simp add: os_Stat_Inl)
  have nex: "\<not> PathExist fs dst"
    using absent by (simp add: PathExist_def)
  have nw: "nearest_dir_writable fs (filepath_Dir dst) = nearest_dir_writable fs dst"
  proof -
    have "stops_writable (root fs) (butlast (components dst) @ [last (components dst)]) =
        stops_writable (root fs) (butlast (components dst))"
      using l by (rule stops_writable_append)
    then show ?thesis
      using ne by (simp add: nearest_dir_writable_def)
  qed
  have np: "components q \<noteq> components dst" if "prefix (components q) (butlast (components dst))" for q
    using that not_prefix_butlast [OF ne] by auto
  have A: "fst (CreateDirectory fs (filepath_Dir dst)) = None \<and>
      entry_at (snd (CreateDirectory fs (filepath_Dir dst))) (filepath_Dir dst) =
        Some (Dir (created_mode fs perm_0755) []) \<and>
      \<not> PathExist (snd (CreateDirectory fs (filepath_Dir dst))) dst \<and>
      OpenFile fs dst (O_WRONLY OR O_TRUNC OR O_CREATE) perm_0755 =
        os_OpenFile (snd (CreateDirectory fs (filepath_Dir dst))) dst
          (O_WRONLY OR O_TRUNC OR O_CREATE) perm_0755"
    if h: "nearest_dir_writable fs dst \<and> umask_permits fs"
  proof -
    have mk: "fst (CreateDirectory fs (filepath_Dir dst)) = None"
      using assms(6) h nw by (intro CreateDirectory_ok) simp_all
    note e = CreateDirectory_entry [OF mk]
    have dir1: "entry_at (snd (CreateDirectory fs (filepath_Dir dst))) (filepath_Dir dst) =
           Some (Dir (created_mode fs perm_0755) [])"
      using os_Stat_ENOENT_entry [OF assms(6)] by (simp add: e)
    have "\<not> prefix (components dst) (butlast (components dst))"
      using not_prefix_butlast [OF ne] .
    then have nex1: "\<not> PathExist (snd (CreateDirectory fs (filepath_Dir dst))) dst"
      using os_Stat_ENOENT_entry [OF absent] by (simp add: PathExist_entry e)
    obtain fs1 where "CreateDirectory fs (filepath_Dir dst) = (None, fs1)"
      using mk by (cases "CreateDirectory fs (filepath_Dir dst)") simp
    then have op: "OpenFile fs dst (O_WRONLY OR O_TRUNC OR O_CREATE) perm_0755 =
           os_OpenFile (snd (CreateDirectory fs (filepath_Dir dst))) dst
             (O_WRONLY OR O_TRUNC OR O_CREATE) perm_0755"
      using nex nr by (simp add: OpenFile_def)
    show ?thesis
      using mk dir1 nex1 op by blast
  qed
  have B: "\<exists>fs'. CopyFile fs src dst = Some (None, fs') \<and>
         entry_at fs' (filepath_Dir dst) = Some (Dir (created_mode fs perm_0755) []) \<and>
         (\<forall>q. valid_path q \<and> prefix (components q) (components (filepath_Dir dst)) \<and>
              entry_at fs q = None \<longrightarrow>
            entry_at fs' q = Some (Dir (created_mode fs perm_0755) [])) \<and>
         IsRegularFile fs' dst"
    if h: "nearest_dir_writable fs dst \<and> umask_permits fs \<and> length (content f) \<le> free_space fs"
  proof -
    from h have h1: "nearest_dir_writable fs dst"
      and h2: "PathExist fs (filepath_Dir dst) \<or> umask_permits fs"
      and h3: "length (content f) \<le> free_space fs"
      by blast+
    from CopyFile_absent [OF assms(3-5) absent h1 h2 h3]
    obtain fs' where c: "CopyFile fs src dst = Some (None, fs')"
      and e: "\<And>q. entry_at fs' q =
             (if components q = components dst
                then Some (Reg \<lparr>content = content f, perm = created_mode fs perm_0755, fault = None\<rparr>)
              else if prefix (components q) (butlast (components dst)) \<and> entry_at fs q = None
                then Some (Dir (created_mode fs perm_0755) [])
              else entry_at fs q)"
      by blast
    have "entry_at fs' q = Some (Dir (created_mode fs perm_0755) [])"
      if "valid_path q \<and> prefix (components q) (components (filepath_Dir dst)) \<and> entry_at fs q = None"
      for q
      using that np [of q] by (simp add: e)
    moreover have "entry_at fs' (filepath_Dir dst) = Some (Dir (created_mode fs perm_0755) [])"
      using np [of "filepath_Dir dst"] os_Stat_ENOENT_entry [OF assms(6)] by (simp add: e)
    moreover have "IsRegularFile fs' dst"
      by (simp add: IsRegularFile_entry e)
    ultimately show ?thesis
      using c by blast
  qed
  have C: "CopyFile fs src dst = Some (Some (OSError EACCES), fs)" if "\<not> nearest_dir_writable fs dst"
    using assms(3,4) absent that by (rule CopyFile_denied)
  have D: "perm_0755 = 493" "created_mode fs perm_0755 = 493 AND NOT (umask fs)"
    by (simp_all add: perm_0755_def created_mode_def)
  show ?thesis
    using nr A B C D by blast
qed

text \<open>
  On the example filesystem, whose umask is \<^verbatim>\<open>022\<close>: the copy of \<^verbatim>\<open>a.txt\<close> to
  \<^verbatim>\<open>n/m/b.txt\<close> makes the directories \<^verbatim>\<open>n\<close> and \<^verbatim>\<open>n/m\<close> with mode \<^verbatim>\<open>0755\<close>; nothing
  is made below \<^verbatim>\<open>ro\<close>.
\<close>

theorem CopyFile_creates_parents_witness:
  "valid_path (Rel [''a.txt'']) \<and> valid_path (Rel [''n'', ''m'', ''b.txt'']) \<and>
   valid_path (Rel [''n'']) \<and>
   entry_at example_fs (Rel [''a.txt'']) = Some (Reg \<lparr>content = [0x68, 0x65, 0x6c, 0x6c, 0x6f], perm = 420, fault = None\<rparr>) \<and>
   owner_can_read 420 \<and>
   \<not> faulty \<lparr>content = [0x68, 0x65, 0x6c, 0x6c, 0x6f], perm = 420, fault = None\<rparr> \<and>
   os_Stat example_fs (filepath_Dir (Rel [''n'', ''m'', ''b.txt''])) = Inl ENOENT \<and>
   nearest_dir_writable example_fs (Rel [''n'', ''m'', ''b.txt'']) \<and> umask_permits example_fs \<and>
   (5 :: nat) \<le> free_space example_fs \<and>
   fst (CreateDirectory example_fs (Rel [''n'', ''m''])) = None \<and>
   (\<exists>fs'. CopyFile example_fs (Rel [''a.txt'']) (Rel [''n'', ''m'', ''b.txt'']) = Some (None, fs') \<and>
      entry_at fs' (Rel [''n'', ''m'']) = Some (Dir 493 []) \<and>
      entry_at fs' (Rel [''n'']) = Some (Dir 493 []) \<and>
      IsRegularFile fs' (Rel [''n'', ''m'', ''b.txt''])) \<and>
   valid_path (Rel [''ro'', ''sub'', ''b'']) \<and>
   os_Stat example_fs (filepath_Dir (Rel [''ro'', ''sub'', ''b''])) = Inl ENOENT \<and>
   \<not> nearest_dir_writable example_fs (Rel [''ro'', ''sub'', ''b'']) \<and>
   CopyFile example_fs (Rel [''a.txt'']) (Rel [''ro'', ''sub'', ''b'']) =
     Some (Some (OSError EACCES), example_fs)"
proof -
  have v: "valid_path (Rel [''a.txt''])" "valid_path (Rel [''n'', ''m'', ''b.txt''])"
    "valid_path (Rel [''ro'', ''sub'', ''b''])" "valid_path (Rel [''n''])"
    by (simp_all add: valid_path_def valid_name_def)
  note h = example_copy_facts
  have n: "entry_at example_fs (Rel [''n'']) = None"
    "prefix (components (Rel [''n''])) (components (filepath_Dir (Rel [''n'', ''m'', ''b.txt''])))"
    by (simp_all add: entry_at_def entry_def root_def example_fs_def owner_can_search_def)
  note a = CopyFile_creates_parents [OF v(1,2) example_entries(1) h(1,2,4)]
  note b = CopyFile_creates_parents [OF v(1,3) example_entries(1) h(1,2,11)]
  from a h(5,6) have 0: "fst (CreateDirectory example_fs (filepath_Dir (Rel [''n'', ''m'', ''b.txt'']))) = None"
    by blast
  then have r0: "fst (CreateDirectory example_fs (Rel [''n'', ''m''])) = None"
    by simp
  from a h(5,6,7) obtain fs' where
    1: "CopyFile example_fs (Rel [''a.txt'']) (Rel [''n'', ''m'', ''b.txt'']) = Some (None, fs')"
    and 2: "entry_at fs' (filepath_Dir (Rel [''n'', ''m'', ''b.txt''])) =
        Some (Dir (created_mode example_fs perm_0755) [])"
    and 3: "\<forall>q. valid_path q \<and>
          prefix (components q) (components (filepath_Dir (Rel [''n'', ''m'', ''b.txt'']))) \<and>
          entry_at example_fs q = None \<longrightarrow>
        entry_at fs' q = Some (Dir (created_mode example_fs perm_0755) [])"
    and 4: "IsRegularFile fs' (Rel [''n'', ''m'', ''b.txt''])"
    by blast
  from 2 have r2: "entry_at fs' (Rel [''n'', ''m'']) = Some (Dir 493 [])"
    by (simp add: h(13))
  from 3 v(4) n have "entry_at fs' (Rel [''n'']) = Some (Dir (created_mode example_fs perm_0755) [])"
    by blast
  then have r3: "entry_at fs' (Rel [''n'']) = Some (Dir 493 [])"
    by (simp add: h(13))
  have 5: "\<exists>fs'. CopyFile example_fs (Rel [''a.txt'']) (Rel [''n'', ''m'', ''b.txt'']) = Some (None, fs') \<and>
      entry_at fs' (Rel [''n'', ''m'']) = Some (Dir 493 []) \<and>
      entry_at fs' (Rel [''n'']) = Some (Dir 493 []) \<and>
      IsRegularFile fs' (Rel [''n'', ''m'', ''b.txt''])"
    using 1 r2 r3 4 by blast
  from b h(12) have 6: "CopyFile example_fs (Rel [''a.txt'']) (Rel [''ro'', ''sub'', ''b'']) =
     Some (Some (OSError EACCES), example_fs)"
    by blast
  have 7: "(5 :: nat) \<le> free_space example_fs" "owner_can_read 420" "\<not> faulty \<lparr>content = [0x68, 0x65, 0x6c, 0x6c, 0x6f], perm = 420, fault = None\<rparr>"
    using h(1,2,7) by simp_all
  from r0 5 6 7 v h(4,5,6,11,12) example_entries(1) show ?thesis
    by blast
qed

end
